theory Spec2Isabelle
  imports Main "HOL-Library.AList" "HOL-Library.Multiset"
begin

unbundle bit_operations_syntax

section \<open>Errors, bytes and the side-channel records\<close>

text \<open>
  Go strings and byte slices are byte sequences: \<^typ>\<open>string\<close> (a list of 8-bit
  \<^typ>\<open>char\<close>). A Go \<^verbatim>\<open>error\<close> value is its message. A run-time panic is
  not an error value; it is a separate outcome wherever it can happen.
\<close>

datatype error = Error string

definition NUL :: char where
  "NUL = CHR 0x00"

definition UNIT_SEP :: char where
  "UNIT_SEP = CHR 0x1F"

text \<open>\<^verbatim>\<open>type ChildData struct { category, key, value string }\<close>\<close>

record ChildData =
  category :: string
  key :: string
  val :: string

text \<open>
  \<^verbatim>\<open>var cmdPersistEnv map[string]string\<close>: the persistent environment store. The
  map is kept as an association list with one entry per key; \<^const>\<open>map_of\<close> reads it.
  Assignment \<^verbatim>\<open>m[k] = v\<close> is \<^const>\<open>AList.update\<close>, \<^verbatim>\<open>delete(m, k)\<close> is
  \<^const>\<open>AList.delete\<close>.
\<close>

type_synonym env_store = "(string \<times> string) list"

text \<open>\<^verbatim>\<open>handleChildData\<close>: a switch with two cases and no default.\<close>

definition handleChildData :: "ChildData \<Rightarrow> env_store \<Rightarrow> env_store" where
  "handleChildData cd cmdPersistEnv =
     (if category cd = ''setenv'' then AList.update (key cd) (val cd) cmdPersistEnv
      else if category cd = ''unsetenv'' then AList.delete (key cd) cmdPersistEnv
      else cmdPersistEnv)"

section \<open>The NUL-delimited tokenizer\<close>

text \<open>\<^verbatim>\<open>bytes.IndexByte\<close>: the index of the first occurrence, or none (Go's -1).\<close>

fun IndexByte :: "string \<Rightarrow> char \<Rightarrow> nat option" where
  "IndexByte [] c = None"
| "IndexByte (x # xs) c = (if x = c then Some 0 else map_option Suc (IndexByte xs c))"

text \<open>
  \<^verbatim>\<open>scanNull(data, atEOF) (advance, token, err)\<close>. A nil token is \<^const>\<open>None\<close>; the
  empty token \<^verbatim>\<open>data[0:0]\<close> is not nil.
\<close>

definition scanNull :: "string \<Rightarrow> bool \<Rightarrow> nat \<times> string option \<times> error option" where
  "scanNull data atEOF =
     (if atEOF \<and> length data = 0 then (0, None, None)
      else (case IndexByte data NUL of
              Some i \<Rightarrow> (i + 1, Some (take i data), None)
            | None \<Rightarrow> if atEOF then (length data, Some data, None) else (0, None, None)))"

text \<open>
  \<^verbatim>\<open>bufio.MaxScanTokenSize\<close>, the size up to which the buffer of a scanner made by
  \<^verbatim>\<open>bufio.NewScanner\<close> grows, and the error of a scanner whose buffer is full at that
  size with no token in it.
\<close>

definition MaxScanTokenSize :: nat where
  "MaxScanTokenSize = 64 * 1024"

definition ErrTooLong :: error where
  "ErrTooLong = Error ''bufio.Scanner: token too long''"

text \<open>
  One \<^verbatim>\<open>Read\<close> of the pipe into the free part of the buffer: it delivers at least one
  byte and at most what the buffer has room for and what is left of the stream. How many
  the pipe has ready is not in the program's hands: the list gives the size the next
  reads offer, and a read fills the room when the list is used up. A read that fails
  with another error than end-of-stream is not part of the model.
\<close>

definition read_size :: "nat \<Rightarrow> nat \<Rightarrow> nat list \<Rightarrow> nat" where
  "read_size room left ns = min (min room left) (max 1 (case ns of [] \<Rightarrow> room | n # _ \<Rightarrow> n))"

text \<open>
  \<^verbatim>\<open>bufio.Scanner\<close> over the split function \<^verbatim>\<open>scanNull\<close>, as the loop
  \<^verbatim>\<open>for s.Scan() { ... }\<close> and the call \<^verbatim>\<open>s.Err()\<close> after it see it: the tokens of
  the calls of \<^verbatim>\<open>Scan\<close> up to the one that returns false, and the error the scanner
  holds then (nil after end-of-stream). The arguments are the bytes buffered and not yet
  consumed (\<^verbatim>\<open>s.buf[s.start:s.end]\<close>), whether the reader has reported end-of-stream,
  the bytes the reader has still to deliver, and the sizes its next reads offer. A round
  of the loop of \<^verbatim>\<open>Scan\<close>:

  \<^item> the split function is called on the buffered bytes; a token is delivered and the
    buffer advances past it;

  \<^item> with no token at end-of-stream, \<^verbatim>\<open>Scan\<close> returns false and the error is nil;

  \<^item> with no token before end-of-stream, the scanner needs more data. The buffer starts
    with 4096 bytes and is doubled when it is full, up to \<^const>\<open>MaxScanTokenSize\<close>, and
    the pending bytes are moved to its start; when it is full at that size, that is when
    \<^const>\<open>MaxScanTokenSize\<close> bytes are pending, \<^verbatim>\<open>Scan\<close> returns false with
    \<^const>\<open>ErrTooLong\<close> and the rest of the stream is not read. Otherwise the scanner
    reads: end-of-stream when nothing is left, some bytes when there is.

  \<^verbatim>\<open>scanNull\<close> gives every token with an advance between 1 and the number of
  buffered bytes; for another advance the model ends the scan.
\<close>

function Scan_all :: "string \<Rightarrow> bool \<Rightarrow> string \<Rightarrow> nat list \<Rightarrow> string list \<times> error option" where
  "Scan_all buf atEOF input ns =
     (let r = scanNull buf atEOF; advance = fst r; token = fst (snd r) in
      case token of
        Some tok \<Rightarrow>
          if 0 < advance \<and> advance \<le> length buf
          then (case Scan_all (drop advance buf) atEOF input ns of
                  (toks, err) \<Rightarrow> (tok # toks, err))
          else ([tok], None)
      | None \<Rightarrow>
          if atEOF then ([], None)
          else if MaxScanTokenSize \<le> length (drop advance buf) then ([], Some ErrTooLong)
          else if input = [] then Scan_all (drop advance buf) True [] ns
          else
            (let n = read_size (MaxScanTokenSize - length (drop advance buf)) (length input) ns
             in Scan_all (drop advance buf @ take n input) False (drop n input) (tl ns)))"
  by pat_completeness auto
termination
proof (relation "measures [\<lambda>(buf, atEOF, input, ns). length input,
                          \<lambda>(buf, atEOF, input, ns). if atEOF then 0 else 1,
                          \<lambda>(buf, atEOF, input, ns). length buf]", goal_cases)
  case 1
  show ?case by simp
next
  case 2
  then show ?case by auto
next
  case (3 buf atEOF input ns r advance token n)
  have "0 < read_size room left ms" if "0 < room" and "0 < left" for room left ms
    using that by (simp add: read_size_def)
  with 3 have "0 < n" by simp
  with 3 show ?case by simp
next
  case 4
  then show ?case by auto
qed

text \<open>
  The specification's words, as a second definition to compare with: split the whole input on
  NUL (n separators give n + 1 segments) and drop a trailing empty segment.
\<close>

fun split_on :: "char \<Rightarrow> string \<Rightarrow> string list" where
  "split_on c [] = [[]]"
| "split_on c (x # xs) =
     (if x = c then [] # split_on c xs
      else (case split_on c xs of
              [] \<Rightarrow> [[x]]
            | seg # segs \<Rightarrow> (x # seg) # segs))"

definition split_nul_spec :: "string \<Rightarrow> string list" where
  "split_nul_spec s =
     (let segs = split_on NUL s in if last segs = [] then butlast segs else segs)"

text \<open>A record that fits the scanner: shorter than the limit.\<close>

definition within_limit :: "string \<Rightarrow> bool" where
  "within_limit seg \<longleftrightarrow> length seg < MaxScanTokenSize"

section \<open>The side-channel decoder\<close>

text \<open>
  \<^verbatim>\<open>bytes.SplitN(s, sep, n)\<close> for a one-byte separator and \<open>n \<ge> 0\<close>: at most \<open>n\<close>
  pieces, the last one the unsplit remainder; \<open>n = 0\<close> gives none.
\<close>

fun SplitN :: "string \<Rightarrow> char \<Rightarrow> nat \<Rightarrow> string list" where
  "SplitN s c 0 = []"
| "SplitN s c (Suc 0) = [s]"
| "SplitN s c (Suc (Suc n)) =
     (case IndexByte s c of
        None \<Rightarrow> [s]
      | Some i \<Rightarrow> take i s # SplitN (drop (i + 1) s) c (Suc n))"

text \<open>
  A goroutine's outcome: it runs to its end, or it panics. An unrecovered panic in a
  goroutine ends the whole process.
\<close>

datatype 'a goroutine = Done 'a | Panic string

type_synonym handler = "ChildData \<Rightarrow> env_store \<Rightarrow> env_store"

text \<open>
  One iteration of the loop of \<^verbatim>\<open>readPipe\<close>: the token is split in at most three
  pieces and \<^verbatim>\<open>r[0]\<close>, \<^verbatim>\<open>r[1]\<close>, \<^verbatim>\<open>r[2]\<close> are read with no check of the
  length: an index out of range panics. A nil handler panics when it is called.
\<close>

definition readPipe_record :: "handler option \<Rightarrow> string \<Rightarrow> env_store \<Rightarrow> env_store goroutine" where
  "readPipe_record h tok store =
     (let r = SplitN tok UNIT_SEP 3 in
      if length r < 3 then Panic ''index out of range''
      else
        (case h of
           None \<Rightarrow> Panic ''invalid memory address or nil pointer dereference''
         | Some f \<Rightarrow> Done (f \<lparr>category = r ! 0, key = r ! 1, val = r ! 2\<rparr> store)))"

fun readPipe_loop :: "handler option \<Rightarrow> string list \<Rightarrow> env_store \<Rightarrow> env_store goroutine" where
  "readPipe_loop h [] store = Done store"
| "readPipe_loop h (tok # toks) store =
     (case readPipe_record h tok store of
        Panic m \<Rightarrow> Panic m
      | Done store' \<Rightarrow> readPipe_loop h toks store')"

text \<open>
  \<^verbatim>\<open>readPipe\<close> on the side-channel pipe, whose bytes arrive in the given pieces. The
  goroutine handles the tokens of the scanner, signals \<^verbatim>\<open>RunCmd\<close>, and then logs the
  error of the scanner when it has one: the result is the store and that error.
\<close>

definition readPipe ::
  "handler option \<Rightarrow> string list \<Rightarrow> env_store \<Rightarrow> (env_store \<times> error option) goroutine" where
  "readPipe h reads store =
     (case Scan_all [] False (concat reads) (map length reads) of
        (toks, err) \<Rightarrow>
          (case readPipe_loop h toks store of
             Panic m \<Rightarrow> Panic m
           | Done store' \<Rightarrow> Done (store', err)))"

section \<open>Paths: the functions of \<^verbatim>\<open>path/filepath\<close> the program calls\<close>

text \<open>
  The library functions, for Unix paths (separator \<open>/\<close>, no volume names), as the
  library's documentation and code define them.
\<close>

text \<open>\<^verbatim>\<open>strings.Join(elems, sep)\<close>\<close>

fun strings_Join :: "string list \<Rightarrow> string \<Rightarrow> string" where
  "strings_Join [] sep = []"
| "strings_Join [x] sep = x"
| "strings_Join (x # y # ys) sep = x @ sep @ strings_Join (y # ys) sep"

text \<open>
  \<^verbatim>\<open>filepath.Clean\<close> reads the path element by element and keeps the elements of the
  result on a stack (the top first): an empty element and \<open>.\<close> are dropped; \<open>..\<close>
  removes the element before it when there is one that is not itself \<open>..\<close>, is dropped
  at the root of a rooted path, and is kept otherwise. An empty result is \<open>.\<close>.
\<close>

definition clean_step :: "bool \<Rightarrow> string list \<Rightarrow> string \<Rightarrow> string list" where
  "clean_step rooted out elem =
     (if elem = [] \<or> elem = ''.'' then out
      else if elem = ''..'' then
        (case out of
           [] \<Rightarrow> if rooted then [] else [''..'']
         | t # ts \<Rightarrow> if t = ''..'' then ''..'' # out else ts)
      else elem # out)"

definition Clean :: "string \<Rightarrow> string" where
  "Clean path =
     (let rooted = (path \<noteq> [] \<and> hd path = CHR ''/'');
          out = rev (foldl (clean_step rooted) [] (split_on CHR ''/'' path))
      in if rooted then ''/'' @ strings_Join out ''/''
         else if out = [] then ''.''
         else strings_Join out ''/'')"

text \<open>
  \<^verbatim>\<open>filepath.Join(elem...)\<close>: empty elements before the first non-empty one are
  ignored, the rest is joined with the separator and cleaned; no non-empty element
  gives the empty string.
\<close>

definition Join :: "string list \<Rightarrow> string" where
  "Join elem =
     (case dropWhile (\<lambda>e. e = []) elem of
        [] \<Rightarrow> []
      | e # es \<Rightarrow> Clean (strings_Join (e # es) ''/''))"

text \<open>\<^verbatim>\<open>filepath.Base(path)\<close>: the last element, trailing slashes removed first.\<close>

definition Base :: "string \<Rightarrow> string" where
  "Base path =
     (if path = [] then ''.''
      else let p = rev (dropWhile (\<lambda>c. c = CHR ''/'') (rev path));
               b = rev (takeWhile (\<lambda>c. c \<noteq> CHR ''/'') (rev p))
           in if b = [] then ''/'' else b)"

text \<open>
  The loop of \<^verbatim>\<open>filepath.Rel\<close> that skips the leading elements base and target
  share. The arguments are \<^verbatim>\<open>base[b0:]\<close> and \<^verbatim>\<open>targ[t0:]\<close>; the result is
  \<^verbatim>\<open>(base[b0:], base[b0:bi], targ[t0:])\<close> when the loop ends.
\<close>

function rel_loop :: "string \<Rightarrow> string \<Rightarrow> string \<times> string \<times> string" where
  "rel_loop b t =
     (if b \<noteq> [] \<and> t \<noteq> [] then
        (let be = takeWhile (\<lambda>c. c \<noteq> CHR ''/'') b;
             te = takeWhile (\<lambda>c. c \<noteq> CHR ''/'') t
         in if te \<noteq> be then (b, be, t)
            else rel_loop (drop (length be + 1) b) (drop (length te + 1) t))
      else (b, [], t))"
  by pat_completeness auto
termination
  by (relation "measure (\<lambda>(b, t). length b)") auto

text \<open>\<^verbatim>\<open>filepath.Rel(basepath, targpath)\<close>\<close>

definition Rel :: "string \<Rightarrow> string \<Rightarrow> error + string" where
  "Rel basepath targpath =
     (let base = Clean basepath; targ = Clean targpath in
      if targ = base then Inr ''.''
      else
        (let base = (if base = ''.'' then [] else base);
             baseSlashed = (base \<noteq> [] \<and> hd base = CHR ''/'');
             targSlashed = (targ \<noteq> [] \<and> hd targ = CHR ''/'')
         in if baseSlashed \<noteq> targSlashed
            then Inl (Error (''Rel: can't make '' @ targpath @ '' relative to '' @ basepath))
            else
              (case rel_loop base targ of
                 (brest, belem, trest) \<Rightarrow>
                   if belem = ''..''
                   then Inl (Error (''Rel: can't make '' @ targpath @ '' relative to '' @ basepath))
                   else if brest \<noteq> [] then
                     Inr (''..'' @ concat (replicate (count_list brest CHR ''/'') ''/..'')
                          @ (if trest \<noteq> [] then ''/'' @ trest else []))
                   else Inr trest)))"

section \<open>The command execution environment\<close>

text \<open>Command environment flags: \<^verbatim>\<open>1 << iota\<close>.\<close>

definition Einteractive :: int where "Einteractive = push_bit 0 1"
definition Efakeroot :: int where "Efakeroot = push_bit 1 1"
definition Efakechroot :: int where "Efakechroot = push_bit 2 1"
definition Echroot :: int where "Echroot = push_bit 3 1"
definition Edirectexec :: int where "Edirectexec = push_bit 4 1"
definition Eignoreexit :: int where "Eignoreexit = push_bit 5 1"
definition Eskip :: int where "Eskip = push_bit 6 1"

text \<open>Pathname constants.\<close>

definition PATHNAME_RIB :: string where "PATHNAME_RIB = ''._RIB_''"
definition PATHNAME_BUILDD :: string where "PATHNAME_BUILDD = ''build.d''"
definition PATHNAME_ROOTFS :: string where "PATHNAME_ROOTFS = ''rootfs''"
definition PATHNAME_BIN :: string where "PATHNAME_BIN = ''bin''"
definition PATHNAME_DIST :: string where "PATHNAME_DIST = ''dist''"
definition PATHNAME_FILES :: string where "PATHNAME_FILES = ''files''"
definition PATHNAME_TMP :: string where "PATHNAME_TMP = ''tmp''"
definition PATHNAME_LOG :: string where "PATHNAME_LOG = ''log''"
definition PATHNAME_FAKEROOTSAVE :: string where "PATHNAME_FAKEROOTSAVE = ''fakeroot.save''"

datatype filetype = FILETYPE_FILE | FILETYPE_DIR

text \<open>The rib directory skeleton: pathname, filetype, envvar, initonly.\<close>

definition dirSkeleton :: "(string \<times> filetype \<times> string \<times> bool) list" where
  "dirSkeleton =
     [(PATHNAME_RIB, FILETYPE_FILE, [], True),
      (PATHNAME_BUILDD, FILETYPE_DIR, ''RIB_DIR_BUILDD'', False),
      (PATHNAME_ROOTFS, FILETYPE_DIR, ''RIB_DIR_ROOTFS'', False),
      (PATHNAME_BIN, FILETYPE_DIR, ''RIB_DIR_BIN'', False),
      (PATHNAME_DIST, FILETYPE_DIR, ''RIB_DIR_DIST'', False),
      (PATHNAME_FILES, FILETYPE_DIR, ''RIB_DIR_FILES'', False),
      (PATHNAME_TMP, FILETYPE_DIR, ''RIB_DIR_TEMP'', False),
      (PATHNAME_LOG, FILETYPE_DIR, ''RIB_DIR_LOG'', False),
      (PATHNAME_FAKEROOTSAVE, FILETYPE_FILE, [], False)]"

text \<open>
  \<^verbatim>\<open>type CmdEnv struct\<close>, with the fields of the embedded \<^verbatim>\<open>exec.Cmd\<close> the
  program reads or writes as data (\<open>Path\<close>, \<open>Args\<close>, \<open>Env\<close>). A nil slice
  \<open>Args\<close> is \<^const>\<open>None\<close>; a nil handler is \<^const>\<open>None\<close>.
\<close>

record CmdEnv =
  Path :: string
  Args :: "string list option"
  Env :: "string list"
  flag :: int
  workDir :: string
  chrootDir :: string
  fakerootSaveFile :: string
  vTmpDir :: string
  vExecDir :: string
  childDataHandler :: "handler option"

text \<open>
  What the operating system answers during one run of a command: the outcome of every
  call the run makes to it, and the order in which the two maps are iterated (Go leaves
  the iteration order of a map open).
\<close>

record extern =
  lookPath :: "string \<Rightarrow> error + string"
  tempDirSuffix :: "error + string"
  execDirSuffix :: "error + string"
  copyFile :: "error option"
  rangeOrder :: "(string \<times> string) list \<Rightarrow> (string \<times> string) list"
  osPipe :: "error option"
  stdoutPipe :: "error option"
  stderrPipe :: "error option"
  start :: "error option"
  closeWrite :: "error option"
  pipeReads :: "string list"
  wait :: "error option"

datatype level = Debug | Info | Warning | Err

datatype syscall =
    SysMkdirTemp string
  | SysRemoveAll string
  | SysCopy string string
  | SysStart string "string list option" "string list"

text \<open>
  The state outside a command environment: the directories on disk, the persistent
  environment store, the log (level and format string of every call to the logger) and
  the trace of the calls that create, remove, copy and start.
\<close>

record sys =
  disk :: "string list"
  cmdPersistEnv :: env_store
  logged :: "(level \<times> string) list"
  trace :: "syscall list"

definition logf :: "level \<Rightarrow> string \<Rightarrow> sys \<Rightarrow> sys" where
  "logf l fmt s = s\<lparr>logged := logged s @ [(l, fmt)]\<rparr>"

text \<open>
  How a call ends: it returns (an error or nil), it panics (the deferred calls of the
  function run, then the process ends), the process ends under it because another
  goroutine panicked (no deferred call runs), or it blocks for ever.
\<close>

datatype status = Returns "error option" | Panics string | Dies string | Blocks

subsection \<open>\<^verbatim>\<open>MakeArgs\<close>\<close>

text \<open>
  The three blocks of \<^verbatim>\<open>MakeArgs\<close>, in the order of the source. \<^verbatim>\<open>exec.LookPath\<close>
  returns the empty string with its error, and the source assigns it to \<open>Path\<close> before
  it tests the error. \<^verbatim>\<open>ce.Args[0] = ce.Path\<close> on a slice that is empty but not nil
  panics.
\<close>

definition args_list :: "CmdEnv \<Rightarrow> string list" where
  "args_list ce = (case Args ce of None \<Rightarrow> [] | Some a \<Rightarrow> a)"

definition MakeArgs_chroot :: "extern \<Rightarrow> CmdEnv \<Rightarrow> status \<times> CmdEnv" where
  "MakeArgs_chroot x ce =
     (if flag ce AND Echroot \<noteq> 0 then
        if chrootDir ce = [] then (Returns (Some (Error ''chroot dir not defined'')), ce)
        else if Path ce \<noteq> [] \<and> Args ce = Some [] then (Panics ''index out of range'', ce)
        else
          (let ce1 = (if Path ce \<noteq> [] then
                        (case Args ce of
                           None \<Rightarrow> ce\<lparr>Args := Some [Path ce]\<rparr>
                         | Some a \<Rightarrow> ce\<lparr>Args := Some (a[0 := Path ce])\<rparr>)
                      else ce)
           in case lookPath x ''chroot'' of
                Inl e \<Rightarrow> (Returns (Some e), ce1\<lparr>Path := []\<rparr>)
              | Inr p \<Rightarrow>
                  (Returns None,
                   ce1\<lparr>Path := p, Args := Some ([p, chrootDir ce1] @ args_list ce1)\<rparr>))
      else (Returns None, ce))"

definition MakeArgs_fakeroot :: "extern \<Rightarrow> CmdEnv \<Rightarrow> status \<times> CmdEnv" where
  "MakeArgs_fakeroot x ce =
     (if flag ce AND Efakeroot \<noteq> 0 then
        (case lookPath x ''fakeroot'' of
           Inl e \<Rightarrow> (Returns (Some e), ce\<lparr>Path := []\<rparr>)
         | Inr p \<Rightarrow>
             if fakerootSaveFile ce \<noteq> [] then
               (Returns None,
                ce\<lparr>Path := p,
                   Args := Some ([p, ''-s'', fakerootSaveFile ce, ''-i'', fakerootSaveFile ce,
                                  ''--''] @ args_list ce)\<rparr>)
             else (Returns None, ce\<lparr>Path := p, Args := Some ([p, ''--''] @ args_list ce)\<rparr>))
      else (Returns None, ce))"

definition MakeArgs_fakechroot :: "extern \<Rightarrow> CmdEnv \<Rightarrow> status \<times> CmdEnv" where
  "MakeArgs_fakechroot x ce =
     (if flag ce AND Efakechroot \<noteq> 0 then
        (case lookPath x ''fakechroot'' of
           Inl e \<Rightarrow> (Returns (Some e), ce\<lparr>Path := []\<rparr>)
         | Inr p \<Rightarrow>
             (Returns None,
              ce\<lparr>Path := p,
                 Args := Some ([p, ''--environment'', ''debootstrap'', ''--''] @ args_list ce)\<rparr>))
      else (Returns None, ce))"

definition MakeArgs :: "extern \<Rightarrow> CmdEnv \<Rightarrow> status \<times> CmdEnv" where
  "MakeArgs x ce =
     (case MakeArgs_chroot x ce of
        (Returns None, ce1) \<Rightarrow>
          (case MakeArgs_fakeroot x ce1 of
             (Returns None, ce2) \<Rightarrow> MakeArgs_fakechroot x ce2
           | r \<Rightarrow> r)
      | r \<Rightarrow> r)"

subsection \<open>The volatile directories\<close>

text \<open>
  \<^verbatim>\<open>ioutil.TempDir(dir, prefix)\<close>: it fails (and returns the empty name), or it makes
  the directory \<open>dir/prefix<suffix>\<close> with a suffix of its choice. The directory it is
  given here is never the empty string.
\<close>

definition TempDir :: "error + string \<Rightarrow> string \<Rightarrow> string \<Rightarrow> sys \<Rightarrow> (error + string) \<times> sys" where
  "TempDir answer dir prefix s =
     (case answer of
        Inl e \<Rightarrow> (Inl e, s)
      | Inr suffix \<Rightarrow>
          (let name = Join [dir, prefix @ suffix]
           in (Inr name, s\<lparr>disk := name # disk s, trace := trace s @ [SysMkdirTemp name]\<rparr>)))"

definition MakeVolatileDirs :: "extern \<Rightarrow> CmdEnv \<Rightarrow> sys \<Rightarrow> error option \<times> CmdEnv \<times> sys" where
  "MakeVolatileDirs x ce s =
     (let vTmpBaseDir = (if flag ce AND Echroot \<noteq> 0
                         then Join [workDir ce, PATHNAME_ROOTFS]
                         else Join [workDir ce, PATHNAME_TMP])
      in case TempDir (tempDirSuffix x) vTmpBaseDir ''.volatile.'' s of
           (Inl e, s1) \<Rightarrow> (Some e, ce\<lparr>vTmpDir := []\<rparr>, logf Err ''ioutil.TempDir: %s'' s1)
         | (Inr d, s1) \<Rightarrow>
             (let ce1 = ce\<lparr>vTmpDir := d\<rparr> in
              if flag ce AND Echroot \<noteq> 0 then
                (case TempDir (execDirSuffix x) vTmpBaseDir ''.exec.'' s1 of
                   (Inl e, s2) \<Rightarrow>
                     (Some e, ce1\<lparr>vExecDir := []\<rparr>, logf Err ''ioutil.TempDir: %s'' s2)
                 | (Inr d2, s2) \<Rightarrow> (None, ce1\<lparr>vExecDir := d2\<rparr>, s2))
              else (None, ce1, s1)))"

text \<open>
  \<^verbatim>\<open>os.RemoveAll(path)\<close> removes the path and everything below it; the source ignores
  its error, and the model takes it to succeed.
\<close>

definition os_RemoveAll :: "string \<Rightarrow> sys \<Rightarrow> sys" where
  "os_RemoveAll path s =
     s\<lparr>disk := filter (\<lambda>d. \<not> (d = path \<or> take (length path + 1) d = path @ ''/'')) (disk s),
       trace := trace s @ [SysRemoveAll path]\<rparr>"

definition RemoveVolatileDirs :: "CmdEnv \<Rightarrow> sys \<Rightarrow> sys" where
  "RemoveVolatileDirs ce s =
     foldl (\<lambda>s dir. if dir \<noteq> [] then os_RemoveAll dir s else s) s [vTmpDir ce, vExecDir ce]"

subsection \<open>\<^verbatim>\<open>SetEnv\<close>\<close>

text \<open>\<^verbatim>\<open>fmt.Sprintf("%s=%s", name, value)\<close>\<close>

definition render :: "string \<times> string \<Rightarrow> string" where
  "render nv = fst nv @ ''='' @ snd nv"

text \<open>The loop over the directory skeleton that fills the volatile environment.\<close>

definition skeleton_env :: "string \<Rightarrow> (string \<times> string) list \<Rightarrow> (string \<times> string) list" where
  "skeleton_env wd env =
     foldl (\<lambda>env d. case d of (pathname, ft, envvar, initonly) \<Rightarrow>
                       if envvar \<noteq> [] then AList.update envvar (Join [wd, pathname]) env
                       else env)
           env dirSkeleton"

definition SetEnv :: "extern \<Rightarrow> CmdEnv \<Rightarrow> sys \<Rightarrow> error option \<times> CmdEnv \<times> sys" where
  "SetEnv x ce s =
     (let volatile =
            (if flag ce AND Echroot \<noteq> 0 then
               (case Rel (Join [workDir ce, PATHNAME_ROOTFS]) (vTmpDir ce) of
                  Inl e \<Rightarrow> Inl e
                | Inr vTmpChrootDir \<Rightarrow>
                    Inr (AList.update ''VTEMP'' (Join [''/'', vTmpChrootDir])
                          (AList.update ''PATH'' ''/usr/sbin:/usr/bin:/sbin:/bin'' [])))
             else
               Inr (skeleton_env (workDir ce)
                     (AList.update ''VTEMP'' (vTmpDir ce)
                       (AList.update ''PATH''
                          (Join [workDir ce, PATHNAME_BIN] @ '':'' @ ''/usr/sbin:/usr/bin:/sbin:/bin'')
                          []))))
      in case volatile of
           Inl e \<Rightarrow> (Some e, ce, logf Err ''filepath.Rel: %s'' s)
         | Inr cmdVolatileEnv \<Rightarrow>
             (None,
              ce\<lparr>Env := Env ce
                         @ map render (rangeOrder x cmdVolatileEnv)
                         @ map render (rangeOrder x (cmdPersistEnv s))
                         @ [''RIB_EXEC_ENV=1'']\<rparr>,
              s))"

subsection \<open>\<^verbatim>\<open>RunCmd\<close>\<close>

text \<open>\<^verbatim>\<open>CopyFile(dst, src)\<close> runs \<^verbatim>\<open>cp -p src dst\<close>.\<close>

definition CopyFile :: "extern \<Rightarrow> string \<Rightarrow> string \<Rightarrow> sys \<Rightarrow> error option \<times> sys" where
  "CopyFile x dst src s = (copyFile x, s\<lparr>trace := trace s @ [SysCopy dst src]\<rparr>)"

text \<open>
  A step of \<^verbatim>\<open>RunCmd\<close> that ends with \<^verbatim>\<open>return err\<close> on an error and goes on
  otherwise: the next step runs when the step before it returned nil.
\<close>

definition and_then ::
  "status \<times> CmdEnv \<times> sys \<Rightarrow> (CmdEnv \<Rightarrow> sys \<Rightarrow> status \<times> CmdEnv \<times> sys) \<Rightarrow> status \<times> CmdEnv \<times> sys" where
  "and_then r f = (case r of (Returns None, ce, s) \<Rightarrow> f ce s | _ \<Rightarrow> r)"

text \<open>The copy of the program into the chroot, and the environment.\<close>

definition RunCmd_copy :: "extern \<Rightarrow> CmdEnv \<Rightarrow> sys \<Rightarrow> status \<times> CmdEnv \<times> sys" where
  "RunCmd_copy x ce s =
     (if flag ce AND Echroot \<noteq> 0 \<and> flag ce AND Edirectexec = 0 then
        (case CopyFile x (vExecDir ce) (Path ce) (logf Debug ''Copying '%s' to '%s'.'' s) of
           (Some e, s1) \<Rightarrow> (Returns (Some e), ce, logf Err ''CopyFile: %s'' s1)
         | (None, s1) \<Rightarrow>
             (Returns None, ce\<lparr>Path := Join [''/'', Base (vExecDir ce), Base (Path ce)]\<rparr>, s1))
      else (Returns None, ce, s))"

definition RunCmd_setup :: "extern \<Rightarrow> CmdEnv \<Rightarrow> sys \<Rightarrow> status \<times> CmdEnv \<times> sys" where
  "RunCmd_setup x ce s =
     and_then (RunCmd_copy x ce s)
       (\<lambda>ce s. case SetEnv x ce s of (err, ce1, s1) \<Rightarrow> (Returns err, ce1, s1))"

text \<open>The exit-code policy at the end of \<^verbatim>\<open>RunCmd\<close>.\<close>

definition RunCmd_exit :: "error option \<Rightarrow> CmdEnv \<Rightarrow> sys \<Rightarrow> status \<times> CmdEnv \<times> sys" where
  "RunCmd_exit err ce s =
     (if err \<noteq> None \<and> flag ce AND Eignoreexit \<noteq> 0
      then (Returns None, ce, logf Warning ''Ignoring '%s' error: %s'' s)
      else (Returns err, ce, s))"

text \<open>
  \<^verbatim>\<open><-stopPipe\<close> and \<^verbatim>\<open>ce.Wait()\<close>. The goroutine \<^verbatim>\<open>readPipe\<close> runs beside the
  child; the model runs it where \<^verbatim>\<open>RunCmd\<close> waits for it. Its loop ends when the pipe
  reaches end-of-stream, which needs the parent's write end closed: with the write end
  still open it handles what the child wrote and then blocks, and so does
  \<^verbatim>\<open>RunCmd\<close>. The loop also ends when the scanner fails: the goroutine signals
  \<^verbatim>\<open>RunCmd\<close> and logs the error, an entry the model writes before \<^verbatim>\<open>RunCmd\<close> goes
  on. The collectors of standard output and standard error only write to the log; they
  are left out.
\<close>

definition RunCmd_wait :: "extern \<Rightarrow> bool \<Rightarrow> CmdEnv \<Rightarrow> sys \<Rightarrow> status \<times> CmdEnv \<times> sys" where
  "RunCmd_wait x closed ce s =
     (case readPipe (childDataHandler ce) (pipeReads x) (cmdPersistEnv s) of
        Panic m \<Rightarrow> (Dies m, ce, s)
      | Done (store, None) \<Rightarrow>
          if closed then RunCmd_exit (wait x) ce (s\<lparr>cmdPersistEnv := store\<rparr>)
          else (Blocks, ce, s\<lparr>cmdPersistEnv := store\<rparr>)
      | Done (store, Some e) \<Rightarrow>
          RunCmd_exit (wait x) ce (logf Err ''scan error: %s'' (s\<lparr>cmdPersistEnv := store\<rparr>)))"

definition started :: "CmdEnv \<Rightarrow> sys \<Rightarrow> sys" where
  "started ce s = s\<lparr>trace := trace s @ [SysStart (Path ce) (Args ce) (Env ce)]\<rparr>"

definition RunCmd_interactive :: "extern \<Rightarrow> CmdEnv \<Rightarrow> sys \<Rightarrow> status \<times> CmdEnv \<times> sys" where
  "RunCmd_interactive x ce s =
     (case start x of
        Some e \<Rightarrow> (Returns (Some e), ce, logf Err ''ce.Start: %s'' s)
      | None \<Rightarrow>
          (case closeWrite x of
             Some e \<Rightarrow> (Returns (Some e), ce, logf Err ''Close: %s'' (started ce s))
           | None \<Rightarrow> RunCmd_wait x True ce (started ce s)))"

definition RunCmd_captured :: "extern \<Rightarrow> CmdEnv \<Rightarrow> sys \<Rightarrow> status \<times> CmdEnv \<times> sys" where
  "RunCmd_captured x ce s =
     (case stdoutPipe x of
        Some e \<Rightarrow> (Returns (Some e), ce, logf Err ''Error creating StdoutPipe for Cmd: %s'' s)
      | None \<Rightarrow>
          (case stderrPipe x of
             Some e \<Rightarrow> (Returns (Some e), ce, logf Err ''Error creating StderrPipe for Cmd: %s'' s)
           | None \<Rightarrow>
               (case start x of
                  Some e \<Rightarrow> (Returns (Some e), ce, logf Err ''ce.Start: %s'' s)
                | None \<Rightarrow>
                    (case closeWrite x of
                       Some e \<Rightarrow> RunCmd_wait x False ce (logf Err ''Close: %s'' (started ce s))
                     | None \<Rightarrow> RunCmd_wait x True ce (started ce s)))))"

text \<open>
  From \<^verbatim>\<open>os.Pipe\<close> to the end. \<^verbatim>\<open>ce.Args[1:]\<close> in the call of \<^verbatim>\<open>Infof\<close> panics on
  a slice with no element.
\<close>

definition RunCmd_spawn :: "extern \<Rightarrow> CmdEnv \<Rightarrow> sys \<Rightarrow> status \<times> CmdEnv \<times> sys" where
  "RunCmd_spawn x ce s =
     (case osPipe x of
        Some e \<Rightarrow> (Returns (Some e), ce, logf Err ''os.Pipe: %s'' s)
      | None \<Rightarrow>
          if length (args_list ce) < 1 then (Panics ''slice bounds out of range'', ce, s)
          else if flag ce AND Einteractive \<noteq> 0
          then RunCmd_interactive x ce (logf Info ''Executing command: %s %s'' s)
          else RunCmd_captured x ce (logf Info ''Executing command: %s %s'' s))"

text \<open>Everything after \<^verbatim>\<open>defer ce.RemoveVolatileDirs()\<close>.\<close>

definition RunCmd_deferred :: "extern \<Rightarrow> CmdEnv \<Rightarrow> sys \<Rightarrow> status \<times> CmdEnv \<times> sys" where
  "RunCmd_deferred x ce s =
     and_then (RunCmd_setup x ce s)
       (\<lambda>ce s. and_then (case MakeArgs x ce of (st, ce1) \<Rightarrow> (st, ce1, s)) (RunCmd_spawn x))"

text \<open>
  \<^verbatim>\<open>RunCmd\<close>. The call of \<^verbatim>\<open>RemoveVolatileDirs\<close> is deferred after
  \<^verbatim>\<open>MakeVolatileDirs\<close> has returned nil: it runs when the rest returns or panics, and
  not when the process dies or the call blocks. The result is the status, the command
  environment as the call leaves it, and the state.
\<close>

definition RunCmd :: "extern \<Rightarrow> CmdEnv \<Rightarrow> sys \<Rightarrow> status \<times> CmdEnv \<times> sys" where
  "RunCmd x ce s =
     (let ce1 = ce\<lparr>chrootDir := Join [workDir ce, PATHNAME_ROOTFS],
                   fakerootSaveFile := Join [workDir ce, PATHNAME_FAKEROOTSAVE]\<rparr>
      in case MakeVolatileDirs x ce1 s of
           (Some e, ce2, s2) \<Rightarrow> (Returns (Some e), ce2, s2)
         | (None, ce2, s2) \<Rightarrow>
             (case RunCmd_deferred x ce2 s2 of
                (Returns err, ce3, s3) \<Rightarrow> (Returns err, ce3, RemoveVolatileDirs ce3 s3)
              | (Panics m, ce3, s3) \<Rightarrow> (Panics m, ce3, RemoveVolatileDirs ce3 s3)
              | (Dies m, ce3, s3) \<Rightarrow> (Dies m, ce3, s3)
              | (Blocks, ce3, s3) \<Rightarrow> (Blocks, ce3, s3)))"

section \<open>The build scripts and the sequencer\<close>

text \<open>
  The regular expression \<^verbatim>\<open>^(\d+)-([A-Z]*)-\<close> on a file name: \<^verbatim>\<open>\d\<close> is an ASCII
  digit. \<^verbatim>\<open>FindStringSubmatch\<close> gives nil (\<^const>\<open>None\<close>) when the name does not
  match, and the match with its two groups when it does. Both groups are followed by a
  dash, so each is the longest run of its class.
\<close>

definition isDigit :: "char \<Rightarrow> bool" where
  "isDigit c = (48 \<le> (of_char c :: nat) \<and> (of_char c :: nat) \<le> 57)"

definition isUpper :: "char \<Rightarrow> bool" where
  "isUpper c = (65 \<le> (of_char c :: nat) \<and> (of_char c :: nat) \<le> 90)"

definition FindStringSubmatch :: "string \<Rightarrow> string list option" where
  "FindStringSubmatch name =
     (let ds = takeWhile isDigit name; r1 = dropWhile isDigit name in
      if ds = [] then None
      else (case r1 of
              [] \<Rightarrow> None
            | c # r2 \<Rightarrow>
                if c \<noteq> CHR ''-'' then None
                else (let us = takeWhile isUpper r2; r3 = dropWhile isUpper r2 in
                      case r3 of
                        [] \<Rightarrow> None
                      | d # r4 \<Rightarrow>
                          if d \<noteq> CHR ''-'' then None
                          else Some [ds @ ''-'' @ us @ ''-'', ds, us])))"

text \<open>
  \<^verbatim>\<open>strconv.Atoi\<close> with a 64-bit \<^verbatim>\<open>int\<close>: an optional sign and decimal digits; a
  value outside the range of \<^verbatim>\<open>int\<close> is an error.
\<close>

definition decimal :: "string \<Rightarrow> int" where
  "decimal ds = foldl (\<lambda>n c. 10 * n + (of_char c - 48)) 0 ds"

definition maxInt :: int where
  "maxInt = 2 ^ 63 - 1"

definition Atoi :: "string \<Rightarrow> error + int" where
  "Atoi s =
     (let neg = (s \<noteq> [] \<and> hd s = CHR ''-'');
          ds = (if s \<noteq> [] \<and> (hd s = CHR ''-'' \<or> hd s = CHR ''+'') then tl s else s)
      in if ds = [] \<or> \<not> list_all isDigit ds then Inl (Error ''invalid syntax'')
         else (let n = (if neg then - decimal ds else decimal ds)
               in if n < - maxInt - 1 \<or> maxInt < n then Inl (Error ''value out of range'')
                  else Inr n))"

text \<open>The switch on one flag letter.\<close>

definition flag_letter :: "int \<Rightarrow> char \<Rightarrow> int" where
  "flag_letter f c =
     (if c = CHR ''I'' then f OR Einteractive
      else if c = CHR ''R'' then f OR Efakeroot
      else if c = CHR ''F'' then f OR Efakechroot
      else if c = CHR ''C'' then ((f OR Echroot) OR Efakeroot) OR Efakechroot
      else if c = CHR ''E'' then f OR Eignoreexit
      else if c = CHR ''S'' then f OR Eskip
      else f)"

text \<open>\<^verbatim>\<open>&CmdEnv{}\<close>: every field has its zero value.\<close>

definition CmdEnv_zero :: CmdEnv where
  "CmdEnv_zero =
     \<lparr>Path = [], Args = None, Env = [], flag = 0, workDir = [], chrootDir = [],
      fakerootSaveFile = [], vTmpDir = [], vExecDir = [], childDataHandler = None\<rparr>"

text \<open>
  The body of the loop of \<^verbatim>\<open>PrepareParts\<close> for one file name: the command
  environment it appends, or none when it goes on to the next file. (Calls of the logger
  are left out of \<^verbatim>\<open>PrepareParts\<close>.)
\<close>

definition PrepareParts_file :: "string \<Rightarrow> int \<Rightarrow> string \<Rightarrow> CmdEnv option" where
  "PrepareParts_file dir seqmin name =
     (let ce = CmdEnv_zero\<lparr>Path := Join [dir, name], Args := Some [Join [dir, name]]\<rparr> in
      case FindStringSubmatch name of
        None \<Rightarrow> None
      | Some groups \<Rightarrow>
          if length groups \<noteq> 3 then None
          else (case Atoi (groups ! 1) of
                  Inl e \<Rightarrow> None
                | Inr seq \<Rightarrow>
                    if seq < seqmin then None
                    else (let ce1 = ce\<lparr>flag := foldl flag_letter (flag ce) (groups ! 2)\<rparr> in
                          if flag ce1 AND Eskip \<noteq> 0 then None else Some ce1)))"

text \<open>
  \<^verbatim>\<open>PrepareParts\<close>, given what \<^verbatim>\<open>ioutil.ReadDir(dir)\<close> answers: an error, or the
  names of the entries in the order of the enumeration.
\<close>

definition PrepareParts :: "error + string list \<Rightarrow> string \<Rightarrow> int \<Rightarrow> error + CmdEnv list" where
  "PrepareParts readDir dir seqmin =
     (case readDir of
        Inl e \<Rightarrow> Inl e
      | Inr files \<Rightarrow>
          Inr (foldl (\<lambda>celist name. case PrepareParts_file dir seqmin name of
                                       None \<Rightarrow> celist
                                     | Some ce \<Rightarrow> celist @ [ce])
                     [] files))"

text \<open>
  The loop of \<^verbatim>\<open>cmdBuild\<close> over the command environments, each with what the
  operating system answers during its run.
\<close>

fun cmdBuild_loop :: "string \<Rightarrow> (CmdEnv \<times> extern) list \<Rightarrow> sys \<Rightarrow> status \<times> sys" where
  "cmdBuild_loop wd [] s = (Returns None, logf Info ''Build duration: %s'' s)"
| "cmdBuild_loop wd ((ce, x) # rest) s =
     (case RunCmd x (ce\<lparr>workDir := wd, childDataHandler := Some handleChildData\<rparr>) s of
        (Returns None, ce', s') \<Rightarrow> cmdBuild_loop wd rest s'
      | (Returns (Some e), ce', s') \<Rightarrow> (Returns (Some e), logf Err ''Command failed: %s'' s')
      | (st, ce', s') \<Rightarrow> (st, s'))"

text \<open>
  \<^verbatim>\<open>cmdBuild\<close> from the test of the list that \<^verbatim>\<open>PrepareParts\<close> returned: an empty
  list ends the build with a warning, before the loop.
\<close>

definition cmdBuild_run :: "string \<Rightarrow> (CmdEnv \<times> extern) list \<Rightarrow> sys \<Rightarrow> status \<times> sys" where
  "cmdBuild_run wd celist s =
     (if length celist = 0 then (Returns None, logf Warning ''No build scripts found in '%s'.'' s)
      else cmdBuild_loop wd celist s)"

section \<open>Specification-side definitions\<close>

text \<open>
  The language of the regular expression \<^verbatim>\<open>^(\d+)-([A-Z]*)-\<close> with its two groups,
  written out: a non-empty run of digits, a dash, a run of upper-case letters, a dash,
  and any rest.
\<close>

definition matches :: "string \<Rightarrow> string \<Rightarrow> string \<Rightarrow> bool" where
  "matches name ds us \<longleftrightarrow>
     (\<exists>rest. name = ds @ ''-'' @ us @ ''-'' @ rest) \<and> ds \<noteq> [] \<and> list_all isDigit ds
       \<and> list_all isUpper us"

text \<open>
  The entries the specification says \<^verbatim>\<open>PrepareParts\<close> returns: the name matches, the
  digit run as a base-10 integer is at least \<open>seqmin\<close>, and no flag letter is \<open>S\<close>.
\<close>

definition selected_spec :: "int \<Rightarrow> string \<Rightarrow> bool" where
  "selected_spec seqmin name \<longleftrightarrow>
     (\<exists>ds us. matches name ds us \<and> seqmin \<le> decimal ds \<and> CHR ''S'' \<notin> set us)"

text \<open>The same, for digit runs whose value fits the type \<^verbatim>\<open>int\<close>.\<close>

definition selected :: "int \<Rightarrow> string \<Rightarrow> bool" where
  "selected seqmin name \<longleftrightarrow>
     (\<exists>ds us. matches name ds us \<and> seqmin \<le> decimal ds \<and> decimal ds \<le> maxInt
        \<and> CHR ''S'' \<notin> set us)"

text \<open>The flag letters of a file name, and the command environment of a selected file.\<close>

definition flag_group :: "string \<Rightarrow> string" where
  "flag_group name = (case FindStringSubmatch name of None \<Rightarrow> [] | Some groups \<Rightarrow> groups ! 2)"

definition request :: "string \<Rightarrow> string \<Rightarrow> CmdEnv" where
  "request dir name =
     CmdEnv_zero\<lparr>Path := Join [dir, name], Args := Some [Join [dir, name]],
                 flag := foldl flag_letter 0 (flag_group name)\<rparr>"

text \<open>
  Two command environments agree on everything but \<open>Path\<close>, \<open>Args\<close> and \<open>Env\<close>.
\<close>

definition same_config :: "CmdEnv \<Rightarrow> CmdEnv \<Rightarrow> bool" where
  "same_config ce ce' \<longleftrightarrow>
     flag ce' = flag ce \<and> workDir ce' = workDir ce \<and> chrootDir ce' = chrootDir ce
     \<and> fakerootSaveFile ce' = fakerootSaveFile ce \<and> vTmpDir ce' = vTmpDir ce
     \<and> vExecDir ce' = vExecDir ce \<and> childDataHandler ce' = childDataHandler ce"

text \<open>
  A run in which every call to the operating system succeeds and the child writes one
  \<open>setenv\<close> record; and a state with nothing on disk, in the store or in the log.
\<close>

definition extern_ok :: extern where
  "extern_ok =
     \<lparr>lookPath = (\<lambda>prog. Inr (''/usr/bin/'' @ prog)),
      tempDirSuffix = Inr ''111'', execDirSuffix = Inr ''222'', copyFile = None,
      rangeOrder = rev, osPipe = None, stdoutPipe = None, stderrPipe = None, start = None,
      closeWrite = None,
      pipeReads = [''setenv'' @ [UNIT_SEP] @ ''FOO'' @ [UNIT_SEP] @ ''bar'' @ [NUL]],
      wait = None\<rparr>"

definition sys_empty :: sys where
  "sys_empty = \<lparr>disk = [], cmdPersistEnv = [], logged = [], trace = []\<rparr>"

text \<open>A command environment with the three wrapper flags and two arguments.\<close>

definition request_chroot :: CmdEnv where
  "request_chroot =
     CmdEnv_zero\<lparr>Path := ''/.exec.222/10-C-x'', Args := Some [''/w/build.d/10-C-x'', ''-v''],
                 flag := 14, workDir := ''/w'', chrootDir := ''/w/rootfs'',
                 fakerootSaveFile := ''/w/fakeroot.save''\<rparr>"

text \<open>
  The built-in variables of the two modes: in chroot mode, given the temp directory
  relative to the chroot root; otherwise, with one variable for every directory of the
  skeleton that names one.
\<close>

definition volatile_chroot :: "CmdEnv \<Rightarrow> string \<Rightarrow> (string \<times> string) list" where
  "volatile_chroot ce rel =
     [(''PATH'', ''/usr/sbin:/usr/bin:/sbin:/bin''), (''VTEMP'', Join [''/'', rel])]"

definition volatile_plain :: "CmdEnv \<Rightarrow> (string \<times> string) list" where
  "volatile_plain ce =
     [(''PATH'', Join [workDir ce, PATHNAME_BIN] @ '':'' @ ''/usr/sbin:/usr/bin:/sbin:/bin''),
      (''VTEMP'', vTmpDir ce),
      (''RIB_DIR_BUILDD'', Join [workDir ce, PATHNAME_BUILDD]),
      (''RIB_DIR_ROOTFS'', Join [workDir ce, PATHNAME_ROOTFS]),
      (''RIB_DIR_BIN'', Join [workDir ce, PATHNAME_BIN]),
      (''RIB_DIR_DIST'', Join [workDir ce, PATHNAME_DIST]),
      (''RIB_DIR_FILES'', Join [workDir ce, PATHNAME_FILES]),
      (''RIB_DIR_TEMP'', Join [workDir ce, PATHNAME_TMP]),
      (''RIB_DIR_LOG'', Join [workDir ce, PATHNAME_LOG])]"

text \<open>
  The run of the build script \<open>10-C-x\<close> under the work directory \<open>/w\<close>, step by
  step: the command environment and the state after the volatile directories are made,
  after the copy and the environment, after the arguments, after the process, and after
  the directories are removed.
\<close>

definition request_build :: CmdEnv where
  "request_build =
     (request ''/w/build.d'' ''10-C-x'')\<lparr>workDir := ''/w'', childDataHandler := Some handleChildData\<rparr>"

definition request_build_dirs :: CmdEnv where
  "request_build_dirs =
     request_build\<lparr>chrootDir := ''/w/rootfs'', fakerootSaveFile := ''/w/fakeroot.save'',
                   vTmpDir := ''/w/rootfs/.volatile.111'', vExecDir := ''/w/rootfs/.exec.222''\<rparr>"

definition sys_dirs :: sys where
  "sys_dirs =
     \<lparr>disk = [''/w/rootfs/.exec.222'', ''/w/rootfs/.volatile.111''], cmdPersistEnv = [],
      logged = [],
      trace = [SysMkdirTemp ''/w/rootfs/.volatile.111'', SysMkdirTemp ''/w/rootfs/.exec.222'']\<rparr>"

definition request_build_env :: CmdEnv where
  "request_build_env =
     request_build_dirs
       \<lparr>Path := ''/.exec.222/10-C-x'',
        Env := [''VTEMP=/.volatile.111'', ''PATH=/usr/sbin:/usr/bin:/sbin:/bin'',
                ''RIB_EXEC_ENV=1'']\<rparr>"

definition sys_copied :: sys where
  "sys_copied =
     sys_dirs\<lparr>logged := [(Debug, ''Copying '%s' to '%s'.'')],
               trace := trace sys_dirs @ [SysCopy ''/w/rootfs/.exec.222'' ''/w/build.d/10-C-x'']\<rparr>"

definition request_build_args :: CmdEnv where
  "request_build_args =
     request_build_env
       \<lparr>Path := ''/usr/bin/fakechroot'',
        Args := Some [''/usr/bin/fakechroot'', ''--environment'', ''debootstrap'', ''--'',
                      ''/usr/bin/fakeroot'', ''-s'', ''/w/fakeroot.save'', ''-i'',
                      ''/w/fakeroot.save'', ''--'', ''/usr/bin/chroot'', ''/w/rootfs'',
                      ''/.exec.222/10-C-x'']\<rparr>"

definition sys_ran :: sys where
  "sys_ran =
     sys_copied
       \<lparr>cmdPersistEnv := [(''FOO'', ''bar'')],
        logged := logged sys_copied @ [(Info, ''Executing command: %s %s'')],
        trace := trace sys_copied
                 @ [SysStart (Path request_build_args) (Args request_build_args)
                      (Env request_build_args)]\<rparr>"

definition sys_done :: sys where
  "sys_done =
     sys_ran\<lparr>disk := [],
              trace := trace sys_ran
                       @ [SysRemoveAll ''/w/rootfs/.volatile.111'', SysRemoveAll ''/w/rootfs/.exec.222'']\<rparr>"

text \<open>
  What \<^verbatim>\<open>RunCmd\<close> returns once the process is set up: the error of a failed start;
  after a start, nil when ignore-exit is set, and what the wait reports otherwise.
\<close>

definition policy :: "extern \<Rightarrow> CmdEnv \<Rightarrow> error option" where
  "policy x ce =
     (case start x of
        Some e \<Rightarrow> Some e
      | None \<Rightarrow> if flag ce AND Eignoreexit \<noteq> 0 then None else wait x)"

text \<open>The build script \<open>20-E-y\<close>: ignore-exit, no chroot.\<close>

definition request_ignore :: CmdEnv where
  "request_ignore =
     (request ''/w/build.d'' ''20-E-y'')\<lparr>workDir := ''/w'', childDataHandler := Some handleChildData\<rparr>"

text \<open>
  Two runs that go wrong: the second call of \<^verbatim>\<open>ioutil.TempDir\<close> fails; the child
  writes a record with two fields.
\<close>

definition extern_no_exec_dir :: extern where
  "extern_no_exec_dir = extern_ok\<lparr>execDirSuffix := Inl (Error ''no space left on device'')\<rparr>"

definition extern_short_record :: extern where
  "extern_short_record = extern_ok\<lparr>pipeReads := [''setenv'' @ [UNIT_SEP] @ ''FOO'' @ [NUL]]\<rparr>"

text \<open>
  From one state to a later one nothing is removed: the disk is the same and the trace
  grows by calls that are not removals.
\<close>

fun is_release :: "syscall \<Rightarrow> bool" where
  "is_release (SysRemoveAll path) = True"
| "is_release c = False"

definition no_release :: "sys \<Rightarrow> sys \<Rightarrow> bool" where
  "no_release s s' \<longleftrightarrow>
     disk s' = disk s \<and> (\<exists>tr. trace s' = trace s @ tr \<and> list_all (\<lambda>c. \<not> is_release c) tr)"

text \<open>
  \<^const>\<open>MakeArgs\<close> without the two branches: the chroot block does not test the chroot
  root, and the fakeroot block always passes the save file. The rest is the same.
\<close>

definition MakeArgs_chroot_pruned :: "extern \<Rightarrow> CmdEnv \<Rightarrow> status \<times> CmdEnv" where
  "MakeArgs_chroot_pruned x ce =
     (if flag ce AND Echroot \<noteq> 0 then
        if Path ce \<noteq> [] \<and> Args ce = Some [] then (Panics ''index out of range'', ce)
        else
          (let ce1 = (if Path ce \<noteq> [] then
                        (case Args ce of
                           None \<Rightarrow> ce\<lparr>Args := Some [Path ce]\<rparr>
                         | Some a \<Rightarrow> ce\<lparr>Args := Some (a[0 := Path ce])\<rparr>)
                      else ce)
           in case lookPath x ''chroot'' of
                Inl e \<Rightarrow> (Returns (Some e), ce1\<lparr>Path := []\<rparr>)
              | Inr p \<Rightarrow>
                  (Returns None,
                   ce1\<lparr>Path := p, Args := Some ([p, chrootDir ce1] @ args_list ce1)\<rparr>))
      else (Returns None, ce))"

definition MakeArgs_fakeroot_pruned :: "extern \<Rightarrow> CmdEnv \<Rightarrow> status \<times> CmdEnv" where
  "MakeArgs_fakeroot_pruned x ce =
     (if flag ce AND Efakeroot \<noteq> 0 then
        (case lookPath x ''fakeroot'' of
           Inl e \<Rightarrow> (Returns (Some e), ce\<lparr>Path := []\<rparr>)
         | Inr p \<Rightarrow>
             (Returns None,
              ce\<lparr>Path := p,
                 Args := Some ([p, ''-s'', fakerootSaveFile ce, ''-i'', fakerootSaveFile ce,
                                ''--''] @ args_list ce)\<rparr>))
      else (Returns None, ce))"

definition MakeArgs_pruned :: "extern \<Rightarrow> CmdEnv \<Rightarrow> status \<times> CmdEnv" where
  "MakeArgs_pruned x ce =
     (case MakeArgs_chroot_pruned x ce of
        (Returns None, ce1) \<Rightarrow>
          (case MakeArgs_fakeroot_pruned x ce1 of
             (Returns None, ce2) \<Rightarrow> MakeArgs_fakechroot x ce2
           | r \<Rightarrow> r)
      | r \<Rightarrow> r)"

text \<open>\<^const>\<open>RunCmd\<close> with \<^const>\<open>MakeArgs_pruned\<close> in the place of \<^const>\<open>MakeArgs\<close>.\<close>

definition RunCmd_deferred_pruned :: "extern \<Rightarrow> CmdEnv \<Rightarrow> sys \<Rightarrow> status \<times> CmdEnv \<times> sys" where
  "RunCmd_deferred_pruned x ce s =
     and_then (RunCmd_setup x ce s)
       (\<lambda>ce s. and_then (case MakeArgs_pruned x ce of (st, ce1) \<Rightarrow> (st, ce1, s)) (RunCmd_spawn x))"

definition RunCmd_pruned :: "extern \<Rightarrow> CmdEnv \<Rightarrow> sys \<Rightarrow> status \<times> CmdEnv \<times> sys" where
  "RunCmd_pruned x ce s =
     (let ce1 = ce\<lparr>chrootDir := Join [workDir ce, PATHNAME_ROOTFS],
                   fakerootSaveFile := Join [workDir ce, PATHNAME_FAKEROOTSAVE]\<rparr>
      in case MakeVolatileDirs x ce1 s of
           (Some e, ce2, s2) \<Rightarrow> (Returns (Some e), ce2, s2)
         | (None, ce2, s2) \<Rightarrow>
             (case RunCmd_deferred_pruned x ce2 s2 of
                (Returns err, ce3, s3) \<Rightarrow> (Returns err, ce3, RemoveVolatileDirs ce3 s3)
              | (Panics m, ce3, s3) \<Rightarrow> (Panics m, ce3, RemoveVolatileDirs ce3 s3)
              | (Dies m, ce3, s3) \<Rightarrow> (Dies m, ce3, s3)
              | (Blocks, ce3, s3) \<Rightarrow> (Blocks, ce3, s3)))"

text \<open>
  The argument vectors of the processes started from one state to a later one, read off
  the part of the trace that was added.
\<close>

fun started_argv :: "syscall \<Rightarrow> string list option list" where
  "started_argv (SysStart path args env) = [args]"
| "started_argv c = []"

definition new_starts :: "sys \<Rightarrow> sys \<Rightarrow> string list option list" where
  "new_starts s s' = concat (map started_argv (drop (length (trace s)) (trace s')))"

text \<open>From one state to a later one the trace grows, and these processes are started.\<close>

definition runs :: "sys \<Rightarrow> sys \<Rightarrow> string list option list \<Rightarrow> bool" where
  "runs s s' as \<longleftrightarrow> (\<exists>tr. trace s' = trace s @ tr \<and> concat (map started_argv tr) = as)"

text \<open>
  A plain name is one path element that is not \<open>.\<close> or \<open>..\<close>. The stack of a path
  is what \<^const>\<open>Clean\<close> has kept of it; a normal stack has no empty element, no
  \<open>.\<close> and no separator, and \<open>..\<close> only at its bottom, and not under a root.
\<close>

definition plain :: "string \<Rightarrow> bool" where
  "plain name \<longleftrightarrow> name \<noteq> [] \<and> CHR ''/'' \<notin> set name \<and> name \<noteq> ''.'' \<and> name \<noteq> ''..''"

definition stack :: "string \<Rightarrow> string list" where
  "stack p = foldl (clean_step (p \<noteq> [] \<and> hd p = CHR ''/'')) [] (split_on CHR ''/'' p)"

definition normal :: "bool \<Rightarrow> string list \<Rightarrow> bool" where
  "normal r st \<longleftrightarrow>
     (\<forall>e \<in> set st. e \<noteq> [] \<and> e \<noteq> ''.'' \<and> CHR ''/'' \<notin> set e)
     \<and> (\<exists>k reals. st = reals @ replicate k ''..'' \<and> ''..'' \<notin> set reals \<and> (r \<longrightarrow> k = 0))"

section \<open>Properties\<close>

subsection \<open>The tokenizer\<close>

declare Scan_all.simps [simp del]

lemma IndexByte_None: "c \<notin> set s \<Longrightarrow> IndexByte s c = None"
  by (induction s) auto

lemma IndexByte_first: "c \<notin> set a \<Longrightarrow> IndexByte (a @ c # b) c = Some (length a)"
  by (induction a) auto

lemma split_on_nonempty: "split_on c s \<noteq> []"
  by (induction s) (auto split: list.splits)

lemma split_on_Cons:
  "split_on c (x # xs) =
     (if x = c then [] # split_on c xs
      else (x # hd (split_on c xs)) # tl (split_on c xs))"
  by (cases "split_on c xs") (auto simp: split_on_nonempty)

declare split_on.simps(2) [simp del]

lemma split_on_no_sep: "c \<notin> set a \<Longrightarrow> split_on c a = [a]"
  by (induction a) (auto simp: split_on_Cons)

lemma split_on_first: "c \<notin> set a \<Longrightarrow> split_on c (a @ c # b) = a # split_on c b"
  by (induction a) (auto simp: split_on_Cons)

lemma split_on_append:
  "split_on c (a @ b) = butlast (split_on c a) @ split_on c (last (split_on c a) @ b)"
proof (induction a)
  case Nil
  then show ?case by simp
next
  case (Cons x xs)
  then show ?case
    by (cases "split_on c xs") (auto simp: split_on_nonempty split_on_Cons)
qed

lemma split_nul_spec_append:
  "split_nul_spec (a @ b) =
     butlast (split_on NUL a) @ split_nul_spec (last (split_on NUL a) @ b)"
proof -
  let ?t = "split_on NUL (last (split_on NUL a) @ b)"
  have ne: "?t \<noteq> []" by (rule split_on_nonempty)
  have eq: "split_on NUL (a @ b) = butlast (split_on NUL a) @ ?t"
    by (rule split_on_append)
  show ?thesis
    unfolding split_nul_spec_def Let_def eq using ne
    by (simp add: butlast_append)
qed

lemma last_split_on_no_sep: "c \<notin> set (last (split_on c s))"
proof (induction s)
  case Nil
  then show ?case by simp
next
  case (Cons x xs)
  then show ?case
    by (cases "split_on c xs") (auto simp: split_on_nonempty split_on_Cons)
qed




lemma split_nul_spec_first:
  "NUL \<notin> set a \<Longrightarrow> split_nul_spec (a @ NUL # b) = a # split_nul_spec b"
  by (simp add: split_nul_spec_def split_on_first split_on_nonempty Let_def)

lemma split_nul_spec_no_nul:
  "NUL \<notin> set a \<Longrightarrow> split_nul_spec a = (if a = [] then [] else [a])"
  by (simp add: split_nul_spec_def split_on_no_sep)

lemma hd_split_on: "c \<notin> set a \<Longrightarrow> hd (split_on c (a @ b)) = a @ hd (split_on c b)"
  by (induction a) (auto simp: split_on_Cons)

lemma split_nul_spec_subset: "set (split_nul_spec s) \<subseteq> set (split_on NUL s)"
  by (auto simp: split_nul_spec_def Let_def dest: in_set_butlastD)

lemma hd_split_nul_spec:
  "hd (split_on NUL s) \<noteq> [] \<Longrightarrow>
   split_nul_spec s \<noteq> [] \<and> hd (split_nul_spec s) = hd (split_on NUL s)"
  using split_on_nonempty [of NUL s]
  by (cases "split_on NUL s"; cases "tl (split_on NUL s)")
    (auto simp: split_nul_spec_def Let_def)

lemma MaxScanTokenSize_pos: "0 < MaxScanTokenSize"
  by (simp add: MaxScanTokenSize_def)


lemma scanNull_no_nul:
  "NUL \<notin> set buf \<Longrightarrow>
   scanNull buf atEOF = (if atEOF \<and> buf \<noteq> [] then (length buf, Some buf, None) else (0, None, None))"
  by (simp add: scanNull_def IndexByte_None)

lemma scanNull_first:
  "NUL \<notin> set a \<Longrightarrow> scanNull (a @ NUL # b) atEOF = (length a + 1, Some (take (length a) (a @ NUL # b)), None)"
  by (simp add: scanNull_def IndexByte_first)

lemma Scan_all_first:
  "NUL \<notin> set a \<Longrightarrow>
   Scan_all (a @ NUL # b) e input ns
     = (a # fst (Scan_all b e input ns), snd (Scan_all b e input ns))"
  by (subst Scan_all.simps) (simp add: scanNull_first Let_def split: prod.splits)

lemma Scan_all_EOF_Nil: "Scan_all [] True input ns = ([], None)"
  by (subst Scan_all.simps) (simp add: scanNull_def)

lemma Scan_all_EOF_no_nul:
  "NUL \<notin> set buf \<Longrightarrow> Scan_all buf True input ns = (if buf = [] then [] else [buf], None)"
  by (subst Scan_all.simps) (simp add: scanNull_no_nul Scan_all_EOF_Nil)

text \<open>At end-of-stream the scanner delivers what is buffered, whatever its length.\<close>

lemma Scan_all_EOF: "Scan_all buf True input ns = (split_nul_spec buf, None)"
proof (induction "length buf" arbitrary: buf rule: less_induct)
  case less
  show ?case
  proof (cases "NUL \<in> set buf")
    case False
    then show ?thesis by (simp add: Scan_all_EOF_no_nul split_nul_spec_no_nul)
  next
    case True
    then obtain a b where ab: "buf = a @ NUL # b" "NUL \<notin> set a"
      by (auto dest: split_list_first)
    have "length b < length buf" using ab by simp
    from less [OF this] show ?thesis
      using ab by (simp add: Scan_all_first split_nul_spec_first)
  qed
qed

lemma Scan_all_too_long:
  "NUL \<notin> set buf \<Longrightarrow> MaxScanTokenSize \<le> length buf \<Longrightarrow>
   Scan_all buf False input ns = ([], Some ErrTooLong)"
  by (subst Scan_all.simps) (simp add: scanNull_no_nul)

lemma Scan_all_end:
  "NUL \<notin> set buf \<Longrightarrow> length buf < MaxScanTokenSize \<Longrightarrow>
   Scan_all buf False [] ns = (if buf = [] then [] else [buf], None)"
  by (subst Scan_all.simps) (simp add: scanNull_no_nul Scan_all_EOF_no_nul)

lemma Scan_all_read:
  "NUL \<notin> set buf \<Longrightarrow> length buf < MaxScanTokenSize \<Longrightarrow> input \<noteq> [] \<Longrightarrow>
   Scan_all buf False input ns
     = Scan_all (buf @ take (read_size (MaxScanTokenSize - length buf) (length input) ns) input)
         False (drop (read_size (MaxScanTokenSize - length buf) (length input) ns) input) (tl ns)"
  by (subst Scan_all.simps) (simp add: scanNull_no_nul Let_def)

lemma read_size_bounds:
  assumes "0 < room" and "0 < left"
  shows "0 < read_size room left ns" and "read_size room left ns \<le> room"
    and "read_size room left ns \<le> left"
  using assms by (simp_all add: read_size_def)

text \<open>
  With at most \<^const>\<open>MaxScanTokenSize\<close> bytes buffered, whatever the sizes of the reads,
  the scanner delivers the records up to the first one that does not fit, and fails when
  there is such a record.
\<close>

lemma Scan_all_eq:
  "length buf \<le> MaxScanTokenSize \<Longrightarrow>
   Scan_all buf False input ns
     = (takeWhile within_limit (split_nul_spec (buf @ input)),
        if list_all within_limit (split_on NUL (buf @ input)) then None else Some ErrTooLong)"
proof (induction "2 * length input + length buf" arbitrary: buf input ns rule: less_induct)
  case less
  show ?case
  proof (cases "NUL \<in> set buf")
    case True
    then obtain a b where ab: "buf = a @ NUL # b" "NUL \<notin> set a"
      by (auto dest: split_list_first)
    have m: "2 * length input + length b < 2 * length input + length buf" using ab by simp
    have b: "length b \<le> MaxScanTokenSize" using ab less.prems by simp
    have a: "within_limit a" using ab less.prems by (simp add: within_limit_def)
    have "split_nul_spec (buf @ input) = a # split_nul_spec (b @ input)"
      using split_nul_spec_first [OF ab(2), of "b @ input"] ab by simp
    moreover have "split_on NUL (buf @ input) = a # split_on NUL (b @ input)"
      using split_on_first [OF ab(2), of "b @ input"] ab by simp
    ultimately show ?thesis
      using less.hyps [OF m b, of ns] ab a by (simp add: Scan_all_first)
  next
    case False
    show ?thesis
    proof (cases "MaxScanTokenSize \<le> length buf")
      case True
      let ?f = "hd (split_on NUL (buf @ input))"
      have f: "?f = buf @ hd (split_on NUL input)" using False by (rule hd_split_on)
      then have long: "\<not> within_limit ?f" using True by (simp add: within_limit_def)
      have "?f \<noteq> []" using f True MaxScanTokenSize_pos by auto
      then have "split_nul_spec (buf @ input) \<noteq> []"
        and "hd (split_nul_spec (buf @ input)) = ?f"
        using hd_split_nul_spec [of "buf @ input"] by simp_all
      then have 1: "takeWhile within_limit (split_nul_spec (buf @ input)) = []"
        using long by (cases "split_nul_spec (buf @ input)") simp_all
      have "?f \<in> set (split_on NUL (buf @ input))"
        using split_on_nonempty [of NUL "buf @ input"] by simp
      then have 2: "\<not> list_all within_limit (split_on NUL (buf @ input))"
        using long by (auto simp: list_all_iff)
      show ?thesis using False True 1 2 by (simp add: Scan_all_too_long)
    next
      case short: False
      show ?thesis
      proof (cases "input = []")
        case True
        then show ?thesis
          using False short
          by (simp add: Scan_all_end split_nul_spec_no_nul split_on_no_sep within_limit_def)
      next
        case ne: False
        let ?n = "read_size (MaxScanTokenSize - length buf) (length input) ns"
        have n: "0 < ?n" "?n \<le> MaxScanTokenSize - length buf" "?n \<le> length input"
          using read_size_bounds [of "MaxScanTokenSize - length buf" "length input" ns] short ne
          by simp_all
        have m: "2 * length (drop ?n input) + length (buf @ take ?n input)
                   < 2 * length input + length buf"
          using n by simp
        have b: "length (buf @ take ?n input) \<le> MaxScanTokenSize" using n short by simp
        show ?thesis
          using less.hyps [OF m b, of "tl ns"] Scan_all_read [OF False _ ne, of ns] short
          by simp
      qed
    qed
  qed
qed

lemma Scan_all_within:
  assumes "list_all within_limit (split_on NUL input)"
  shows "Scan_all [] False input ns = (split_nul_spec input, None)"
proof -
  have "\<forall>seg \<in> set (split_nul_spec input). within_limit seg"
    using assms split_nul_spec_subset [of input] by (auto simp: list_all_iff)
  then have "takeWhile within_limit (split_nul_spec input) = split_nul_spec input"
    by (simp add: takeWhile_eq_all_conv)
  then show ?thesis using assms Scan_all_eq [of "[]" input ns] by simp
qed





subsection \<open>The decoder and the store\<close>

lemma SplitN_three:
  assumes "c \<notin> set a" and "c \<notin> set b"
  shows "SplitN (a @ c # b @ c # rest) c 3 = [a, b, rest]"
  using assms by (simp add: numeral_3_eq_3 IndexByte_first)

lemma SplitN_one_sep:
  assumes "c \<notin> set a" and "c \<notin> set b"
  shows "SplitN (a @ c # b) c 3 = [a, b]"
  using assms by (simp add: numeral_3_eq_3 IndexByte_first IndexByte_None)

lemma SplitN_no_sep:
  assumes "c \<notin> set a"
  shows "SplitN a c 3 = [a]"
  using assms by (simp add: numeral_3_eq_3 IndexByte_None)

text \<open>
  A record with at least two unit separators is handed to the handler: the first field
  is the category, the second the key, the rest the value.
\<close>

lemma readPipe_record_wellformed:
  assumes "UNIT_SEP \<notin> set a" and "UNIT_SEP \<notin> set b"
  shows "readPipe_record (Some f) (a @ UNIT_SEP # b @ UNIT_SEP # rest) store =
           Done (f \<lparr>category = a, key = b, val = rest\<rparr> store)"
  using assms by (simp add: readPipe_record_def SplitN_three)

text \<open>A record with fewer than two unit separators makes the goroutine panic.\<close>

lemma readPipe_record_malformed:
  assumes "count_list tok UNIT_SEP < 2"
  shows "readPipe_record h tok store = Panic ''index out of range''"
proof (cases "UNIT_SEP \<in> set tok")
  case False
  then show ?thesis by (simp add: readPipe_record_def SplitN_no_sep)
next
  case True
  then obtain a b where ab: "tok = a @ UNIT_SEP # b" "UNIT_SEP \<notin> set a"
    by (auto dest: split_list_first)
  with assms have "count_list b UNIT_SEP = 0" by simp
  then have "UNIT_SEP \<notin> set b" by (simp add: count_list_0_iff)
  with ab show ?thesis by (simp add: readPipe_record_def SplitN_one_sep)
qed

text \<open>
  C4. A \<open>setenv\<close> record inserts or overwrites its key in the persistent environment
  store, an \<open>unsetenv\<close> record removes its key whatever its value field holds, and a
  record of any other category leaves the store as it is; the store keeps one entry per
  key. From any store, \<open>setenv(FOO, bar)\<close> makes \<open>FOO\<close> read \<open>bar\<close>, and
  \<open>unsetenv(FOO)\<close> after it removes \<open>FOO\<close>.
\<close>

theorem handleChildData_store:
  "map_of (handleChildData \<lparr>category = ''setenv'', key = k, val = v\<rparr> store)
     = (map_of store)(k \<mapsto> v)
   \<and> map_of (handleChildData \<lparr>category = ''unsetenv'', key = k, val = v\<rparr> store)
     = (map_of store)(k := None)
   \<and> (c \<noteq> ''setenv'' \<and> c \<noteq> ''unsetenv'' \<longrightarrow>
        handleChildData \<lparr>category = c, key = k, val = v\<rparr> store = store)
   \<and> (distinct (map fst store) \<longrightarrow>
        distinct (map fst (handleChildData \<lparr>category = c, key = k, val = v\<rparr> store)))
   \<and> map_of (handleChildData \<lparr>category = ''setenv'', key = ''FOO'', val = ''bar''\<rparr> store) ''FOO''
     = Some ''bar''
   \<and> map_of (handleChildData \<lparr>category = ''unsetenv'', key = ''FOO'', val = v\<rparr>
               (handleChildData \<lparr>category = ''setenv'', key = ''FOO'', val = ''bar''\<rparr> store))
        ''FOO''
     = None"
  by (simp add: handleChildData_def update_conv' delete_conv' distinct_update distinct_delete)

theorem handleChildData_store_witness:
  "handleChildData \<lparr>category = ''export'', key = ''FOO'', val = ''bar''\<rparr> [(''A'', ''1'')]
     = [(''A'', ''1'')]
   \<and> handleChildData \<lparr>category = ''setenv'', key = ''FOO'', val = ''bar''\<rparr> [(''A'', ''1'')]
     = [(''A'', ''1''), (''FOO'', ''bar'')]
   \<and> distinct (map fst (handleChildData \<lparr>category = ''setenv'', key = ''A'', val = ''2''\<rparr>
                          [(''A'', ''1'')]))"
  using handleChildData_store [of "''A''" "''2''" "[(''A'', ''1'')]" "''setenv''"]
    handleChildData_store [of "''FOO''" "''bar''" "[(''A'', ''1'')]" "''export''"]
  by (simp add: handleChildData_def)

subsection \<open>Flags and file names\<close>

lemma has_flag_bit: "(f :: int) AND push_bit n 1 \<noteq> 0 \<longleftrightarrow> bit f n"
  by (simp add: and_exp_eq_0_iff_not_bit)

lemma bit_flag_consts:
  "bit Einteractive n \<longleftrightarrow> n = 0" "bit Efakeroot n \<longleftrightarrow> n = 1" "bit Efakechroot n \<longleftrightarrow> n = 2"
  "bit Echroot n \<longleftrightarrow> n = 3" "bit Edirectexec n \<longleftrightarrow> n = 4" "bit Eignoreexit n \<longleftrightarrow> n = 5"
  "bit Eskip n \<longleftrightarrow> n = 6"
  unfolding Einteractive_def Efakeroot_def Efakechroot_def Echroot_def Edirectexec_def
    Eignoreexit_def Eskip_def bit_push_bit_iff bit_1_iff
  by auto

lemma has_flag:
  "f AND Einteractive \<noteq> 0 \<longleftrightarrow> bit f 0" "f AND Efakeroot \<noteq> 0 \<longleftrightarrow> bit f 1"
  "f AND Efakechroot \<noteq> 0 \<longleftrightarrow> bit f 2" "f AND Echroot \<noteq> 0 \<longleftrightarrow> bit f 3"
  "f AND Edirectexec \<noteq> 0 \<longleftrightarrow> bit f 4" "f AND Eignoreexit \<noteq> 0 \<longleftrightarrow> bit f 5"
  "f AND Eskip \<noteq> 0 \<longleftrightarrow> bit f 6"
  unfolding Einteractive_def Efakeroot_def Efakechroot_def Echroot_def Edirectexec_def
    Eignoreexit_def Eskip_def has_flag_bit
  by simp_all

lemma bit_flag_letter:
  "bit (flag_letter f c) n \<longleftrightarrow>
     bit f n \<or> (c = CHR ''I'' \<and> n = 0) \<or> (c = CHR ''R'' \<and> n = 1) \<or> (c = CHR ''F'' \<and> n = 2)
     \<or> (c = CHR ''C'' \<and> (n = 3 \<or> n = 1 \<or> n = 2)) \<or> (c = CHR ''E'' \<and> n = 5)
     \<or> (c = CHR ''S'' \<and> n = 6)"
  by (auto simp: flag_letter_def bit_or_iff bit_flag_consts)

lemma bit_foldl_flag_letter:
  "bit (foldl flag_letter f cs) n \<longleftrightarrow>
     bit f n \<or> (CHR ''I'' \<in> set cs \<and> n = 0) \<or> (CHR ''R'' \<in> set cs \<and> n = 1)
     \<or> (CHR ''F'' \<in> set cs \<and> n = 2)
     \<or> (CHR ''C'' \<in> set cs \<and> (n = 3 \<or> n = 1 \<or> n = 2)) \<or> (CHR ''E'' \<in> set cs \<and> n = 5)
     \<or> (CHR ''S'' \<in> set cs \<and> n = 6)"
proof (induction cs arbitrary: f)
  case Nil
  then show ?case by simp
next
  case (Cons c cs)
  show ?case
    unfolding foldl_Cons Cons.IH bit_flag_letter by auto
qed

lemma of_char_int: "(of_char c :: int) = int (of_char c)"
  by (simp add: of_nat_of_char)

lemma decimal_nonneg_aux: 
  "list_all isDigit ds \<Longrightarrow> 0 \<le> n \<Longrightarrow> 0 \<le> foldl (\<lambda>n c. 10 * n + (of_char c - 48)) (n::int) ds"
proof (induction ds arbitrary: n)
  case Nil
  then show ?case by simp
next
  case (Cons c cs)
  from Cons.prems have "48 \<le> (of_char c :: nat)" by (simp add: isDigit_def)
  then have "48 \<le> (of_char c :: int)" unfolding of_char_int by linarith
  with Cons.prems have "0 \<le> 10 * n + (of_char c - 48)" by simp
  with Cons show ?case by simp
qed

lemma decimal_nonneg: "list_all isDigit ds \<Longrightarrow> 0 \<le> decimal ds"
  unfolding decimal_def by (rule decimal_nonneg_aux) simp_all

lemma not_digit_dash: "\<not> isDigit CHR ''-''" "\<not> isDigit CHR ''+''" "\<not> isUpper CHR ''-''"
  by (simp_all add: isDigit_def isUpper_def)

lemma Atoi_digits:
  assumes "ds \<noteq> []" and "list_all isDigit ds"
  shows "Atoi ds = (if decimal ds \<le> maxInt then Inr (decimal ds) else Inl (Error ''value out of range''))"
proof -
  from assms obtain c cs where ds: "ds = c # cs" by (cases ds) auto
  with assms have "isDigit c" by simp
  then have "c \<noteq> CHR ''-''" "c \<noteq> CHR ''+''" using not_digit_dash by auto
  moreover have "0 \<le> decimal ds" by (rule decimal_nonneg) fact
  moreover have "0 \<le> maxInt" by (simp add: maxInt_def)
  ultimately show ?thesis using assms ds by (auto simp: Atoi_def Let_def)
qed

lemma FindStringSubmatch_complete:
  assumes "matches name ds us"
  shows "FindStringSubmatch name = Some [ds @ ''-'' @ us @ ''-'', ds, us]"
proof -
  from assms obtain rest where name: "name = ds @ CHR ''-'' # us @ CHR ''-'' # rest"
    and ds: "ds \<noteq> []" "list_all isDigit ds" and us: "list_all isUpper us"
    by (auto simp: matches_def)
  have t1: "takeWhile isDigit name = ds" and d1: "dropWhile isDigit name = CHR ''-'' # us @ CHR ''-'' # rest"
    using ds not_digit_dash by (simp_all add: name takeWhile_append2 dropWhile_append2 list_all_iff)
  have t2: "takeWhile isUpper (us @ CHR ''-'' # rest) = us"
    and d2: "dropWhile isUpper (us @ CHR ''-'' # rest) = CHR ''-'' # rest"
    using us not_digit_dash by (simp_all add: takeWhile_append2 dropWhile_append2 list_all_iff)
  show ?thesis
    using ds by (simp add: FindStringSubmatch_def t1 d1 t2 d2 Let_def)
qed

lemma FindStringSubmatch_sound:
  assumes "FindStringSubmatch name = Some g"
  shows "\<exists>ds us. g = [ds @ ''-'' @ us @ ''-'', ds, us] \<and> matches name ds us"
proof -
  let ?ds = "takeWhile isDigit name" and ?r1 = "dropWhile isDigit name"
  from assms have ds: "?ds \<noteq> []" by (auto simp: FindStringSubmatch_def Let_def)
  from assms obtain r2 where r1: "?r1 = CHR ''-'' # r2"
    by (auto simp: FindStringSubmatch_def Let_def split: list.splits if_splits)
  let ?us = "takeWhile isUpper r2" and ?r3 = "dropWhile isUpper r2"
  from assms r1 obtain r4 where r3: "?r3 = CHR ''-'' # r4"
    by (auto simp: FindStringSubmatch_def Let_def split: list.splits if_splits)
  from assms r1 r3 have g: "g = [?ds @ ''-'' @ ?us @ ''-'', ?ds, ?us]"
    by (auto simp: FindStringSubmatch_def Let_def split: list.splits if_splits)
  have "name = ?ds @ ?r1" by simp
  also have "?r1 = CHR ''-'' # ?us @ ?r3" using r1 by simp
  finally have "name = ?ds @ ''-'' @ ?us @ ''-'' @ r4" using r3 by simp
  moreover have "list_all isDigit ?ds" "list_all isUpper ?us"
    by (auto simp: list_all_iff dest: set_takeWhileD)
  ultimately have "matches name ?ds ?us" using ds unfolding matches_def by blast
  with g show ?thesis by blast
qed

lemma matches_unique:
  assumes "matches name ds us" and "matches name ds' us'"
  shows "ds' = ds \<and> us' = us"
  using FindStringSubmatch_complete [OF assms(1)] FindStringSubmatch_complete [OF assms(2)]
  by simp

lemma PrepareParts_file_eq:
  "PrepareParts_file dir seqmin name =
     (if selected seqmin name then Some (request dir name) else None)"
proof (cases "FindStringSubmatch name")
  case None
  then have "\<not> matches name ds us" for ds us
    using FindStringSubmatch_complete [of name ds us] by auto
  then have "\<not> selected seqmin name" by (simp add: selected_def)
  with None show ?thesis by (simp add: PrepareParts_file_def)
next
  case (Some g)
  then obtain ds us where g: "g = [ds @ ''-'' @ us @ ''-'', ds, us]" and m: "matches name ds us"
    using FindStringSubmatch_sound by blast
  have sel: "selected seqmin name \<longleftrightarrow>
      seqmin \<le> decimal ds \<and> decimal ds \<le> maxInt \<and> CHR ''S'' \<notin> set us"
    unfolding selected_def using m matches_unique [OF m] by blast
  have digits: "ds \<noteq> []" "list_all isDigit ds" using m by (auto simp: matches_def)
  have skip: "foldl flag_letter 0 us AND Eskip \<noteq> 0 \<longleftrightarrow> CHR ''S'' \<in> set us"
    by (simp add: has_flag bit_foldl_flag_letter)
  have grp: "flag_group name = us" by (simp add: flag_group_def Some g)
  show ?thesis
    unfolding PrepareParts_file_def Some g sel request_def grp
    using skip by (simp add: Atoi_digits [OF digits] Let_def CmdEnv_zero_def)
qed

lemma foldl_append_selected:
  "foldl (\<lambda>celist name. case (if P name then Some (f name) else None) of
                           None \<Rightarrow> celist | Some ce \<Rightarrow> celist @ [ce]) acc names
     = acc @ map f (filter P names)"
  by (induction names arbitrary: acc) auto

lemma PrepareParts_eq:
  "PrepareParts (Inr files) dir seqmin = Inr (map (request dir) (filter (selected seqmin) files))"
  by (simp add: PrepareParts_def PrepareParts_file_eq foldl_append_selected)

lemma flag_letter_unknown:
  "c \<notin> set ''IRFCES'' \<Longrightarrow> flag_letter f c = f"
  by (simp add: flag_letter_def)

text \<open>
  C8 (amended). \<^const>\<open>PrepareParts\<close> returns without error, in the order of the
  enumeration, exactly the entries whose name matches \<^verbatim>\<open>^(\d+)-([A-Z]*)-\<close>, whose
  digit run is a base-10 integer that fits \<^verbatim>\<open>int\<close> and is at least \<open>seqmin\<close>,
  and whose flag letters do not include \<open>S\<close>; each with its path under the directory
  and the flags of its letters. A letter outside \<open>I R F C E S\<close> changes no flag.
\<close>

theorem PrepareParts_selection:
  "PrepareParts (Inr files) dir seqmin
     = Inr (map (request dir) (filter (selected seqmin) files))
   \<and> (c \<notin> set ''IRFCES'' \<longrightarrow> flag_letter f c = f)"
  by (simp add: PrepareParts_eq flag_letter_unknown)

lemma matches_example: "matches ''9223372036854775808--x'' ''9223372036854775808'' []"
  by (simp add: matches_def isDigit_def)

lemma decimal_example: "decimal ''9223372036854775808'' = 9223372036854775808"
  by (simp add: decimal_def)

text \<open>
  C8 as stated fails: the name \<open>9223372036854775808--x\<close> matches, its digit run is a
  base-10 integer above any \<open>seqmin\<close> of type \<^verbatim>\<open>int\<close>, no letter is \<open>S\<close>, and the
  entry is left out, because \<^verbatim>\<open>strconv.Atoi\<close> reports a value out of range.
\<close>

theorem PrepareParts_overflow_counterexample:
  "selected_spec 0 ''9223372036854775808--x''
   \<and> PrepareParts (Inr [''9223372036854775808--x'']) ''build.d'' 0 = Inr []
   \<and> PrepareParts (Inr [''9223372036854775808--x'']) ''build.d'' 0
       \<noteq> Inr (map (request ''build.d'') (filter (selected_spec 0) [''9223372036854775808--x'']))"
proof -
  have c: "selected_spec 0 ''9223372036854775808--x''"
    unfolding selected_spec_def using matches_example decimal_example by fastforce
  have "\<not> selected 0 ''9223372036854775808--x''"
    unfolding selected_def using matches_unique [OF matches_example] decimal_example
    by (auto simp: maxInt_def)
  then have "PrepareParts (Inr [''9223372036854775808--x'']) ''build.d'' 0 = Inr []"
    by (simp add: PrepareParts_eq)
  with c show ?thesis by simp
qed

lemma selected_eval:
  "selected seqmin name \<longleftrightarrow>
     (case FindStringSubmatch name of
        None \<Rightarrow> False
      | Some g \<Rightarrow> seqmin \<le> decimal (g ! 1) \<and> decimal (g ! 1) \<le> maxInt \<and> CHR ''S'' \<notin> set (g ! 2))"
proof (cases "FindStringSubmatch name")
  case None
  then have "\<not> matches name ds us" for ds us
    using FindStringSubmatch_complete [of name ds us] by auto
  with None show ?thesis by (simp add: selected_def)
next
  case (Some g)
  then obtain ds us where g: "g = [ds @ ''-'' @ us @ ''-'', ds, us]" and m: "matches name ds us"
    using FindStringSubmatch_sound by blast
  have "selected seqmin name \<longleftrightarrow>
      seqmin \<le> decimal ds \<and> decimal ds \<le> maxInt \<and> CHR ''S'' \<notin> set us"
    unfolding selected_def using m matches_unique [OF m] by blast
  then show ?thesis by (simp add: Some g)
qed

lemmas regex_eval = FindStringSubmatch_def isDigit_def isUpper_def decimal_def maxInt_def Let_def

theorem PrepareParts_selection_witness:
  "PrepareParts (Inr [''10-S-skip'', ''README'', ''20-IXC-net'', ''05--early'']) ''build.d'' 10
     = Inr [request ''build.d'' ''20-IXC-net'']
   \<and> CHR ''X'' \<notin> set ''IRFCES'' \<and> flag_letter 1 CHR ''X'' = 1"
proof -
  have 1: "\<not> selected 10 ''10-S-skip''"
    by (simp add: selected_eval regex_eval)
  have 2: "\<not> selected 10 ''README''"
    by (simp add: selected_eval regex_eval)
  have 3: "selected 10 ''20-IXC-net''"
    by (simp add: selected_eval regex_eval)
  have 4: "\<not> selected 10 ''05--early''"
    by (simp add: selected_eval regex_eval)
  show ?thesis
    using PrepareParts_selection [of "[''10-S-skip'', ''README'', ''20-IXC-net'', ''05--early'']"
        "''build.d''" 10 "CHR ''X''" 1] 1 2 3 4
    by simp
qed

subsection \<open>What the steps of a run leave unchanged\<close>

lemma same_config_refl [simp]: "same_config ce ce"
  by (simp add: same_config_def)

lemma same_config_trans: "same_config a b \<Longrightarrow> same_config b c \<Longrightarrow> same_config a c"
  by (simp add: same_config_def)

lemma MakeArgs_chroot_frame:
  "MakeArgs_chroot x ce = (st, ce') \<Longrightarrow> ce' = ce\<lparr>Path := Path ce', Args := Args ce'\<rparr>"
  by (auto simp: MakeArgs_chroot_def Let_def split: if_splits sum.splits option.splits)

lemma MakeArgs_fakeroot_frame:
  "MakeArgs_fakeroot x ce = (st, ce') \<Longrightarrow> ce' = ce\<lparr>Path := Path ce', Args := Args ce'\<rparr>"
  by (auto simp: MakeArgs_fakeroot_def Let_def split: if_splits sum.splits option.splits)

lemma MakeArgs_fakechroot_frame:
  "MakeArgs_fakechroot x ce = (st, ce') \<Longrightarrow> ce' = ce\<lparr>Path := Path ce', Args := Args ce'\<rparr>"
  by (auto simp: MakeArgs_fakechroot_def Let_def split: if_splits sum.splits option.splits)

lemma MakeArgs_frame:
  assumes "MakeArgs x ce = (st, ce')"
  shows "ce' = ce\<lparr>Path := Path ce', Args := Args ce'\<rparr>"
proof -
  obtain st1 ce1 where 1: "MakeArgs_chroot x ce = (st1, ce1)" by fastforce
  obtain st2 ce2 where 2: "MakeArgs_fakeroot x ce1 = (st2, ce2)" by fastforce
  obtain st3 ce3 where 3: "MakeArgs_fakechroot x ce2 = (st3, ce3)" by fastforce
  note f1 = MakeArgs_chroot_frame [OF 1] and f2 = MakeArgs_fakeroot_frame [OF 2]
    and f3 = MakeArgs_fakechroot_frame [OF 3]
  have "ce' = ce1 \<or> ce' = ce2 \<or> ce' = ce3"
    using assms 1 2 3 by (auto simp: MakeArgs_def split: status.splits option.splits)
  moreover have "ce2 = ce\<lparr>Path := Path ce2, Args := Args ce2\<rparr>"
    by (subst f2, subst f1) simp
  moreover have "ce3 = ce\<lparr>Path := Path ce3, Args := Args ce3\<rparr>"
    by (subst f3, subst f2, subst f1) simp
  ultimately show ?thesis using f1 by auto
qed

lemma same_config_args: "same_config ce (ce\<lparr>Path := p, Args := a\<rparr>)"
  by (simp add: same_config_def)

lemma MakeArgs_same_config: "MakeArgs x ce = (st, ce') \<Longrightarrow> same_config ce ce'"
  by (subst MakeArgs_frame, assumption) (rule same_config_args)

lemma and_then_cases:
  assumes "and_then r f = (st, ce', s')"
  obtains "r = (st, ce', s')" and "st \<noteq> Returns None"
  | ce1 s1 where "r = (Returns None, ce1, s1)" and "f ce1 s1 = (st, ce', s')"
  using assms by (auto simp: and_then_def split: prod.splits status.splits option.splits)

lemma TempDir_cases:
  assumes "TempDir a dir prefix s = (r, s')"
  obtains e where "a = Inl e" and "r = Inl e" and "s' = s"
  | suffix where "a = Inr suffix" and "r = Inr (Join [dir, prefix @ suffix])"
      and "s' = s\<lparr>disk := Join [dir, prefix @ suffix] # disk s,
                    trace := trace s @ [SysMkdirTemp (Join [dir, prefix @ suffix])]\<rparr>"
  using assms by (auto simp: TempDir_def Let_def split: sum.splits)

lemma MakeVolatileDirs_frame:
  "MakeVolatileDirs x ce s = (r, ce', s') \<Longrightarrow>
     ce' = ce\<lparr>vTmpDir := vTmpDir ce', vExecDir := vExecDir ce'\<rparr>"
  by (auto simp: MakeVolatileDirs_def Let_def split: if_splits sum.splits prod.splits)

lemma RunCmd_copy_frame:
  "RunCmd_copy x ce s = (st, ce', s') \<Longrightarrow> ce' = ce\<lparr>Path := Path ce'\<rparr>"
  by (auto simp: RunCmd_copy_def split: if_splits option.splits prod.splits)

lemma SetEnv_frame:
  "SetEnv x ce s = (r, ce', s') \<Longrightarrow> ce' = ce\<lparr>Env := Env ce'\<rparr>"
  by (auto simp: SetEnv_def Let_def split: if_splits sum.splits)

lemma same_config_path: "same_config ce (ce\<lparr>Path := p\<rparr>)"
  by (simp add: same_config_def)

lemma same_config_env: "same_config ce (ce\<lparr>Env := e\<rparr>)"
  by (simp add: same_config_def)

lemma RunCmd_setup_same_config:
  assumes "RunCmd_setup x ce s = (st, ce', s')"
  shows "same_config ce ce'"
  using assms unfolding RunCmd_setup_def
proof (cases rule: and_then_cases)
  case 1
  show ?thesis
    by (subst RunCmd_copy_frame [OF 1(1)]) (rule same_config_path)
next
  case (2 ce1 s1)
  obtain r ce2 s2 where se: "SetEnv x ce1 s1 = (r, ce2, s2)" by (cases "SetEnv x ce1 s1")
  with 2 have ce': "ce' = ce2" by simp
  have a: "same_config ce ce1"
    by (subst RunCmd_copy_frame [OF 2(1)]) (rule same_config_path)
  have b: "same_config ce1 ce2"
    by (subst SetEnv_frame [OF se]) (rule same_config_env)
  show ?thesis unfolding ce' using a b by (rule same_config_trans)
qed

lemma RunCmd_exit_ce: "RunCmd_exit err ce s = (st, ce', s') \<Longrightarrow> ce' = ce"
  by (auto simp: RunCmd_exit_def split: if_splits)

lemma RunCmd_wait_ce: "RunCmd_wait x closed ce s = (st, ce', s') \<Longrightarrow> ce' = ce"
  by (auto simp: RunCmd_wait_def split: goroutine.splits prod.splits option.splits if_splits
      dest: RunCmd_exit_ce)

lemma RunCmd_interactive_ce: "RunCmd_interactive x ce s = (st, ce', s') \<Longrightarrow> ce' = ce"
  by (auto simp: RunCmd_interactive_def split: option.splits dest: RunCmd_wait_ce)

lemma RunCmd_captured_ce: "RunCmd_captured x ce s = (st, ce', s') \<Longrightarrow> ce' = ce"
  by (auto simp: RunCmd_captured_def split: option.splits dest: RunCmd_wait_ce)

lemma RunCmd_spawn_ce: "RunCmd_spawn x ce s = (st, ce', s') \<Longrightarrow> ce' = ce"
  by (auto simp: RunCmd_spawn_def split: option.splits if_splits
      dest: RunCmd_interactive_ce RunCmd_captured_ce)

lemma RunCmd_deferred_same_config:
  assumes "RunCmd_deferred x ce s = (st, ce', s')"
  shows "same_config ce ce'"
  using assms unfolding RunCmd_deferred_def
proof (cases rule: and_then_cases)
  case 1
  from 1(1) show ?thesis by (rule RunCmd_setup_same_config)
next
  case (2 ce1 s1)
  have a: "same_config ce ce1" using 2(1) by (rule RunCmd_setup_same_config)
  obtain st2 ce2 where ma: "MakeArgs x ce1 = (st2, ce2)" by (cases "MakeArgs x ce1")
  have b: "same_config ce1 ce2" using ma by (rule MakeArgs_same_config)
  from 2(2) have "same_config ce1 ce'"
  proof (cases rule: and_then_cases)
    case 1
    with ma b show ?thesis by simp
  next
    case (2 ce3 s3)
    with ma have "ce3 = ce2" by simp
    with 2(2) have "ce' = ce2" by (simp add: RunCmd_spawn_ce)
    with b show ?thesis by simp
  qed
  with a show ?thesis by (rule same_config_trans)
qed

lemma RunCmd_fields:
  assumes "RunCmd x ce s = (st, ce', s')"
  shows "flag ce' = flag ce \<and> workDir ce' = workDir ce
         \<and> childDataHandler ce' = childDataHandler ce
         \<and> chrootDir ce' = Join [workDir ce, PATHNAME_ROOTFS]
         \<and> fakerootSaveFile ce' = Join [workDir ce, PATHNAME_FAKEROOTSAVE]"
proof -
  let ?ce1 = "ce\<lparr>chrootDir := Join [workDir ce, PATHNAME_ROOTFS],
                  fakerootSaveFile := Join [workDir ce, PATHNAME_FAKEROOTSAVE]\<rparr>"
  obtain r ce2 s2 where mv: "MakeVolatileDirs x ?ce1 s = (r, ce2, s2)"
    by (cases "MakeVolatileDirs x ?ce1 s")
  have f2: "flag ce2 = flag ce \<and> workDir ce2 = workDir ce
         \<and> childDataHandler ce2 = childDataHandler ce
         \<and> chrootDir ce2 = Join [workDir ce, PATHNAME_ROOTFS]
         \<and> fakerootSaveFile ce2 = Join [workDir ce, PATHNAME_FAKEROOTSAVE]"
    by (subst (1 2 3 4 5) MakeVolatileDirs_frame [OF mv]) simp
  show ?thesis
  proof (cases r)
    case (Some e)
    with assms mv have "ce' = ce2" by (simp add: RunCmd_def)
    with f2 show ?thesis by simp
  next
    case None
    obtain st3 ce3 s3 where d: "RunCmd_deferred x ce2 s2 = (st3, ce3, s3)"
      by (cases "RunCmd_deferred x ce2 s2")
    from assms mv None d have "ce' = ce3" by (auto simp: RunCmd_def split: status.splits)
    with RunCmd_deferred_same_config [OF d] f2 show ?thesis by (simp add: same_config_def)
  qed
qed

lemma request_flag_invariant:
  "flag (request dir name) AND Echroot \<noteq> 0 \<longrightarrow>
     flag (request dir name) AND Efakeroot \<noteq> 0 \<and> flag (request dir name) AND Efakechroot \<noteq> 0"
  by (simp add: request_def has_flag bit_foldl_flag_letter)

lemma request_flag_C:
  "CHR ''C'' \<in> set (flag_group name) \<Longrightarrow>
     flag (request dir name) AND Echroot \<noteq> 0 \<and>
     flag (request dir name) AND Efakeroot \<noteq> 0 \<and> flag (request dir name) AND Efakechroot \<noteq> 0"
  by (simp add: request_def has_flag bit_foldl_flag_letter)

text \<open>
  C7. Every command environment \<^const>\<open>PrepareParts\<close> returns satisfies: chroot set
  implies fakeroot and fakechroot set. A file name whose flag letters contain \<open>C\<close>
  gets all three. \<^const>\<open>RunCmd\<close> leaves the flags as they were parsed.
\<close>

theorem PrepareParts_flag_invariant:
  "(PrepareParts (Inr files) dir seqmin = Inr celist \<longrightarrow>
      (\<forall>ce \<in> set celist.
         flag ce AND Echroot \<noteq> 0 \<longrightarrow> flag ce AND Efakeroot \<noteq> 0 \<and> flag ce AND Efakechroot \<noteq> 0))
   \<and> (PrepareParts_file dir seqmin name = Some ce \<and> CHR ''C'' \<in> set (flag_group name) \<longrightarrow>
        flag ce AND Echroot \<noteq> 0 \<and> flag ce AND Efakeroot \<noteq> 0 \<and> flag ce AND Efakechroot \<noteq> 0)
   \<and> (RunCmd x ce0 s = (st, ce1, s1) \<longrightarrow> flag ce1 = flag ce0)"
proof (intro conjI impI ballI)
  fix c assume "PrepareParts (Inr files) dir seqmin = Inr celist" and "c \<in> set celist"
    and "flag c AND Echroot \<noteq> 0"
  then show "flag c AND Efakeroot \<noteq> 0" "flag c AND Efakechroot \<noteq> 0"
    using request_flag_invariant by (auto simp: PrepareParts_eq)
next
  assume "PrepareParts_file dir seqmin name = Some ce \<and> CHR ''C'' \<in> set (flag_group name)"
  then show "flag ce AND Echroot \<noteq> 0" "flag ce AND Efakeroot \<noteq> 0" "flag ce AND Efakechroot \<noteq> 0"
    using request_flag_C [of name dir] by (auto simp: PrepareParts_file_eq split: if_splits)
next
  assume "RunCmd x ce0 s = (st, ce1, s1)"
  then show "flag ce1 = flag ce0" by (simp add: RunCmd_fields)
qed

lemmas flag_consts = Einteractive_def Efakeroot_def Efakechroot_def Echroot_def Edirectexec_def
  Eignoreexit_def Eskip_def

lemma flag_request_C: "flag (request ''build.d'' ''10-C-x'') = 14"
  by (simp add: request_def flag_group_def regex_eval flag_letter_def flag_consts)

theorem PrepareParts_flag_invariant_witness:
  "PrepareParts (Inr [''10-C-x'']) ''build.d'' 0 = Inr [request ''build.d'' ''10-C-x'']
   \<and> CHR ''C'' \<in> set (flag_group ''10-C-x'')
   \<and> flag (request ''build.d'' ''10-C-x'') = 14
   \<and> (14 :: int) AND Echroot \<noteq> 0 \<and> (14 :: int) AND Efakeroot \<noteq> 0 \<and> (14 :: int) AND Efakechroot \<noteq> 0
   \<and> flag (fst (snd (RunCmd extern_ok (request ''build.d'' ''10-C-x'') sys_empty))) = 14"
proof -
  have sel: "selected 0 ''10-C-x''" by (simp add: selected_eval regex_eval)
  have pp: "PrepareParts (Inr [''10-C-x'']) ''build.d'' 0 = Inr [request ''build.d'' ''10-C-x'']"
    by (simp add: PrepareParts_eq sel)
  have pf: "PrepareParts_file ''build.d'' 0 ''10-C-x'' = Some (request ''build.d'' ''10-C-x'')"
    by (simp add: PrepareParts_file_eq sel)
  have grp: "CHR ''C'' \<in> set (flag_group ''10-C-x'')"
    by (simp add: flag_group_def regex_eval)
  show ?thesis
    using PrepareParts_flag_invariant [where files = "[''10-C-x'']" and dir = "''build.d''"
        and seqmin = 0 and celist = "[request ''build.d'' ''10-C-x'']" and name = "''10-C-x''"
        and ce = "request ''build.d'' ''10-C-x''" and x = extern_ok
        and ?ce0.0 = "request ''build.d'' ''10-C-x''" and s = sys_empty
        and st = "fst (RunCmd extern_ok (request ''build.d'' ''10-C-x'') sys_empty)"
        and ?ce1.0 = "fst (snd (RunCmd extern_ok (request ''build.d'' ''10-C-x'') sys_empty))"
        and ?s1.0 = "snd (snd (RunCmd extern_ok (request ''build.d'' ''10-C-x'') sys_empty))"]
      pp pf grp flag_request_C
    by simp
qed

subsection \<open>Argument composition\<close>

text \<open>
  C3 (amended). With chroot, fakeroot and fakechroot set, a chroot root, a save file, a
  path, a non-empty argument vector, and the three programs found by
  \<^verbatim>\<open>exec.LookPath\<close>, \<^const>\<open>MakeArgs\<close> sets the path to the location of
  \<open>fakechroot\<close> and the argument vector to the three wrappers, each by the location
  found for it, around the original path and the original arguments after the first;
  with chroot alone, to the location of \<open>chroot\<close>, the root, the original path and
  those arguments. Whatever it returns, it changes no field but \<open>Path\<close> and \<open>Args\<close>.
\<close>

theorem MakeArgs_composition:
  "(flag ce AND Echroot \<noteq> 0 \<and> flag ce AND Efakeroot \<noteq> 0 \<and> flag ce AND Efakechroot \<noteq> 0
      \<and> chrootDir ce \<noteq> [] \<and> fakerootSaveFile ce \<noteq> [] \<and> Path ce \<noteq> []
      \<and> Args ce = Some (arg0 # args)
      \<and> lookPath x ''chroot'' = Inr chroot \<and> lookPath x ''fakeroot'' = Inr fakeroot
      \<and> lookPath x ''fakechroot'' = Inr fakechroot
    \<longrightarrow> MakeArgs x ce =
          (Returns None,
           ce\<lparr>Path := fakechroot,
              Args := Some ([fakechroot, ''--environment'', ''debootstrap'', ''--'',
                             fakeroot, ''-s'', fakerootSaveFile ce, ''-i'', fakerootSaveFile ce, ''--'',
                             chroot, chrootDir ce, Path ce] @ args)\<rparr>))
   \<and> (flag ce AND Echroot \<noteq> 0 \<and> flag ce AND Efakeroot = 0 \<and> flag ce AND Efakechroot = 0
      \<and> chrootDir ce \<noteq> [] \<and> Path ce \<noteq> [] \<and> Args ce = Some (arg0 # args)
      \<and> lookPath x ''chroot'' = Inr chroot
    \<longrightarrow> MakeArgs x ce =
          (Returns None, ce\<lparr>Path := chroot, Args := Some ([chroot, chrootDir ce, Path ce] @ args)\<rparr>))
   \<and> (MakeArgs x ce = (st, ce') \<longrightarrow> ce' = ce\<lparr>Path := Path ce', Args := Args ce'\<rparr>)"
proof (intro conjI impI)
  assume "flag ce AND Echroot \<noteq> 0 \<and> flag ce AND Efakeroot \<noteq> 0 \<and> flag ce AND Efakechroot \<noteq> 0
      \<and> chrootDir ce \<noteq> [] \<and> fakerootSaveFile ce \<noteq> [] \<and> Path ce \<noteq> []
      \<and> Args ce = Some (arg0 # args)
      \<and> lookPath x ''chroot'' = Inr chroot \<and> lookPath x ''fakeroot'' = Inr fakeroot
      \<and> lookPath x ''fakechroot'' = Inr fakechroot"
  then show "MakeArgs x ce =
          (Returns None,
           ce\<lparr>Path := fakechroot,
              Args := Some ([fakechroot, ''--environment'', ''debootstrap'', ''--'',
                             fakeroot, ''-s'', fakerootSaveFile ce, ''-i'', fakerootSaveFile ce, ''--'',
                             chroot, chrootDir ce, Path ce] @ args)\<rparr>)"
    by (simp add: MakeArgs_def MakeArgs_chroot_def MakeArgs_fakeroot_def MakeArgs_fakechroot_def
        args_list_def)
next
  assume "flag ce AND Echroot \<noteq> 0 \<and> flag ce AND Efakeroot = 0 \<and> flag ce AND Efakechroot = 0
      \<and> chrootDir ce \<noteq> [] \<and> Path ce \<noteq> [] \<and> Args ce = Some (arg0 # args)
      \<and> lookPath x ''chroot'' = Inr chroot"
  then show "MakeArgs x ce =
          (Returns None, ce\<lparr>Path := chroot, Args := Some ([chroot, chrootDir ce, Path ce] @ args)\<rparr>)"
    by (simp add: MakeArgs_def MakeArgs_chroot_def MakeArgs_fakeroot_def MakeArgs_fakechroot_def
        args_list_def)
next
  assume "MakeArgs x ce = (st, ce')"
  then show "ce' = ce\<lparr>Path := Path ce', Args := Args ce'\<rparr>" by (rule MakeArgs_frame)
qed

theorem MakeArgs_composition_witness:
  "MakeArgs extern_ok request_chroot =
     (Returns None,
      request_chroot
        \<lparr>Path := ''/usr/bin/fakechroot'',
         Args := Some [''/usr/bin/fakechroot'', ''--environment'', ''debootstrap'', ''--'',
                       ''/usr/bin/fakeroot'', ''-s'', ''/w/fakeroot.save'', ''-i'',
                       ''/w/fakeroot.save'', ''--'', ''/usr/bin/chroot'', ''/w/rootfs'',
                       ''/.exec.222/10-C-x'', ''-v'']\<rparr>)
   \<and> MakeArgs extern_ok (request_chroot\<lparr>flag := 8\<rparr>) =
     (Returns None,
      request_chroot
        \<lparr>flag := 8, Path := ''/usr/bin/chroot'',
         Args := Some [''/usr/bin/chroot'', ''/w/rootfs'', ''/.exec.222/10-C-x'', ''-v'']\<rparr>)"
  using MakeArgs_composition [where ce = request_chroot and x = extern_ok
      and ?arg0.0 = "''/w/build.d/10-C-x''" and args = "[''-v'']"
      and chroot = "''/usr/bin/chroot''" and fakeroot = "''/usr/bin/fakeroot''"
      and fakechroot = "''/usr/bin/fakechroot''"]
    MakeArgs_composition [where ce = "request_chroot\<lparr>flag := 8\<rparr>" and x = extern_ok
      and ?arg0.0 = "''/w/build.d/10-C-x''" and args = "[''-v'']"
      and chroot = "''/usr/bin/chroot''"]
  by (simp add: request_chroot_def extern_ok_def CmdEnv_zero_def flag_consts)

text \<open>
  C3 as stated fails: it puts the names \<open>fakechroot\<close>, \<open>fakeroot\<close> and \<open>chroot\<close> in
  the argument vector, and \<^const>\<open>MakeArgs\<close> puts there the locations that
  \<^verbatim>\<open>exec.LookPath\<close> found for them.
\<close>

theorem MakeArgs_bare_names_counterexample:
  "flag request_chroot AND Echroot \<noteq> 0 \<and> flag request_chroot AND Efakeroot \<noteq> 0
   \<and> flag request_chroot AND Efakechroot \<noteq> 0
   \<and> lookPath extern_ok ''fakechroot'' = Inr ''/usr/bin/fakechroot''
   \<and> lookPath extern_ok ''fakeroot'' = Inr ''/usr/bin/fakeroot''
   \<and> lookPath extern_ok ''chroot'' = Inr ''/usr/bin/chroot''
   \<and> Args (snd (MakeArgs extern_ok request_chroot))
       = Some [''/usr/bin/fakechroot'', ''--environment'', ''debootstrap'', ''--'',
               ''/usr/bin/fakeroot'', ''-s'', ''/w/fakeroot.save'', ''-i'',
               ''/w/fakeroot.save'', ''--'', ''/usr/bin/chroot'', ''/w/rootfs'',
               ''/.exec.222/10-C-x'', ''-v'']
   \<and> Args (snd (MakeArgs extern_ok request_chroot))
       \<noteq> Some [''fakechroot'', ''--environment'', ''debootstrap'', ''--'',
               ''fakeroot'', ''-s'', ''/w/fakeroot.save'', ''-i'',
               ''/w/fakeroot.save'', ''--'', ''chroot'', ''/w/rootfs'',
               ''/.exec.222/10-C-x'', ''-v'']
   \<and> Args (snd (MakeArgs extern_ok (request_chroot\<lparr>flag := 8\<rparr>)))
       = Some [''/usr/bin/chroot'', ''/w/rootfs'', ''/.exec.222/10-C-x'', ''-v'']
   \<and> Args (snd (MakeArgs extern_ok (request_chroot\<lparr>flag := 8\<rparr>)))
       \<noteq> Some [''chroot'', ''/w/rootfs'', ''/.exec.222/10-C-x'', ''-v'']"
  by (simp add: MakeArgs_def MakeArgs_chroot_def MakeArgs_fakeroot_def MakeArgs_fakechroot_def
      args_list_def request_chroot_def extern_ok_def CmdEnv_zero_def flag_consts)

subsection \<open>The environment\<close>

lemmas pathnames = PATHNAME_RIB_def PATHNAME_BUILDD_def PATHNAME_ROOTFS_def PATHNAME_BIN_def
  PATHNAME_DIST_def PATHNAME_FILES_def PATHNAME_TMP_def PATHNAME_LOG_def
  PATHNAME_FAKEROOTSAVE_def

lemma skeleton_env_plain:
  "skeleton_env wd [(''PATH'', p), (''VTEMP'', t)] =
     [(''PATH'', p), (''VTEMP'', t),
      (''RIB_DIR_BUILDD'', Join [wd, PATHNAME_BUILDD]),
      (''RIB_DIR_ROOTFS'', Join [wd, PATHNAME_ROOTFS]),
      (''RIB_DIR_BIN'', Join [wd, PATHNAME_BIN]),
      (''RIB_DIR_DIST'', Join [wd, PATHNAME_DIST]),
      (''RIB_DIR_FILES'', Join [wd, PATHNAME_FILES]),
      (''RIB_DIR_TEMP'', Join [wd, PATHNAME_TMP]),
      (''RIB_DIR_LOG'', Join [wd, PATHNAME_LOG])]"
  by (simp add: skeleton_env_def dirSkeleton_def)

lemma SetEnv_chroot:
  assumes "flag ce AND Echroot \<noteq> 0"
  shows "SetEnv x ce s =
     (case Rel (Join [workDir ce, PATHNAME_ROOTFS]) (vTmpDir ce) of
        Inl e \<Rightarrow> (Some e, ce, logf Err ''filepath.Rel: %s'' s)
      | Inr rel \<Rightarrow>
          (None,
           ce\<lparr>Env := Env ce @ map render (rangeOrder x (volatile_chroot ce rel))
                      @ map render (rangeOrder x (cmdPersistEnv s)) @ [''RIB_EXEC_ENV=1'']\<rparr>,
           s))"
  using assms by (simp add: SetEnv_def volatile_chroot_def split: sum.splits)

lemma SetEnv_plain:
  assumes "flag ce AND Echroot = 0"
  shows "SetEnv x ce s =
          (None,
           ce\<lparr>Env := Env ce @ map render (rangeOrder x (volatile_plain ce))
                      @ map render (rangeOrder x (cmdPersistEnv s)) @ [''RIB_EXEC_ENV=1'']\<rparr>,
           s)"
  using assms by (simp add: SetEnv_def skeleton_env_plain volatile_plain_def)

text \<open>
  C5. When the iteration over a map visits every entry once and \<^const>\<open>SetEnv\<close>
  returns nil, the environment is what it was, then the built-in variables, then every
  entry of the persistent store as \<open>NAME=value\<close>, then \<open>RIB_EXEC_ENV=1\<close> as the last
  element: a persistent entry stands after every built-in one. In chroot mode the
  built-in variables are \<open>PATH=/usr/sbin:/usr/bin:/sbin:/bin\<close> and \<open>VTEMP\<close>, the temp
  directory relative to the chroot root, joined to \<open>/\<close>; otherwise \<open>PATH\<close> is the
  local bin directory before the system path, \<open>VTEMP\<close> is the temp directory as it
  is, and the skeleton's variables follow.
\<close>

theorem SetEnv_environment:
  assumes "\<forall>m. mset (rangeOrder x m) = mset m"
    and "SetEnv x ce s = (None, ce', s')"
  shows "\<exists>builtin persistent.
           Env ce' = Env ce @ map render builtin @ map render persistent @ [''RIB_EXEC_ENV=1'']
           \<and> mset persistent = mset (cmdPersistEnv s)
           \<and> (\<forall>nv \<in> set (cmdPersistEnv s). render nv \<in> set (Env ce'))
           \<and> last (Env ce') = ''RIB_EXEC_ENV=1''
           \<and> (flag ce AND Echroot \<noteq> 0 \<longrightarrow>
                (\<exists>rel. Rel (Join [workDir ce, PATHNAME_ROOTFS]) (vTmpDir ce) = Inr rel
                   \<and> mset builtin = mset (volatile_chroot ce rel)))
           \<and> (flag ce AND Echroot = 0 \<longrightarrow> mset builtin = mset (volatile_plain ce))"
proof (cases "flag ce AND Echroot = 0")
  case True
  let ?b = "rangeOrder x (volatile_plain ce)" and ?p = "rangeOrder x (cmdPersistEnv s)"
  from assms(2) True
  have env: "Env ce' = Env ce @ map render ?b @ map render ?p @ [''RIB_EXEC_ENV=1'']"
    by (auto simp: SetEnv_plain)
  have p: "mset ?p = mset (cmdPersistEnv s)" and b: "mset ?b = mset (volatile_plain ce)"
    using assms(1) by simp_all
  have "set ?p = set (cmdPersistEnv s)" using p by (rule mset_eq_setD)
  then have "\<forall>nv \<in> set (cmdPersistEnv s). render nv \<in> set (Env ce')"
    unfolding env by simp
  moreover have "last (Env ce') = ''RIB_EXEC_ENV=1''" unfolding env by simp
  ultimately show ?thesis using env p b True by blast
next
  case False
  with assms(2) obtain rel where rel: "Rel (Join [workDir ce, PATHNAME_ROOTFS]) (vTmpDir ce) = Inr rel"
    by (auto simp: SetEnv_chroot split: sum.splits)
  let ?b = "rangeOrder x (volatile_chroot ce rel)" and ?p = "rangeOrder x (cmdPersistEnv s)"
  from assms(2) False rel
  have env: "Env ce' = Env ce @ map render ?b @ map render ?p @ [''RIB_EXEC_ENV=1'']"
    by (auto simp: SetEnv_chroot)
  have p: "mset ?p = mset (cmdPersistEnv s)" and b: "mset ?b = mset (volatile_chroot ce rel)"
    using assms(1) by simp_all
  have "set ?p = set (cmdPersistEnv s)" using p by (rule mset_eq_setD)
  then have "\<forall>nv \<in> set (cmdPersistEnv s). render nv \<in> set (Env ce')"
    unfolding env by simp
  moreover have "last (Env ce') = ''RIB_EXEC_ENV=1''" unfolding env by simp
  ultimately show ?thesis using env p b False rel by blast
qed

lemmas path_eval = Join_def Clean_def clean_step_def Rel_def Base_def Let_def split_on.simps

theorem SetEnv_environment_witness:
  "(\<forall>m. mset (rangeOrder extern_ok m) = mset m)
   \<and> SetEnv extern_ok (request_chroot\<lparr>vTmpDir := ''/w/rootfs/.volatile.111''\<rparr>)
        (sys_empty\<lparr>cmdPersistEnv := [(''FOO'', ''bar'')]\<rparr>)
      = (None,
         request_chroot
           \<lparr>vTmpDir := ''/w/rootfs/.volatile.111'',
            Env := [''VTEMP=/.volatile.111'', ''PATH=/usr/sbin:/usr/bin:/sbin:/bin'', ''FOO=bar'',
                    ''RIB_EXEC_ENV=1'']\<rparr>,
         sys_empty\<lparr>cmdPersistEnv := [(''FOO'', ''bar'')]\<rparr>)
   \<and> Rel (Join [''/w'', PATHNAME_ROOTFS]) ''/w/rootfs/.volatile.111'' = Inr ''.volatile.111''"
proof -
  have ord: "\<forall>m. mset (rangeOrder extern_ok m) = mset m"
    by (simp add: extern_ok_def)
  have rel: "Rel (Join [''/w'', PATHNAME_ROOTFS]) ''/w/rootfs/.volatile.111'' = Inr ''.volatile.111''"
    by (simp add: path_eval PATHNAME_ROOTFS_def)
  have run: "SetEnv extern_ok (request_chroot\<lparr>vTmpDir := ''/w/rootfs/.volatile.111''\<rparr>)
        (sys_empty\<lparr>cmdPersistEnv := [(''FOO'', ''bar'')]\<rparr>)
      = (None,
         request_chroot
           \<lparr>vTmpDir := ''/w/rootfs/.volatile.111'',
            Env := [''VTEMP=/.volatile.111'', ''PATH=/usr/sbin:/usr/bin:/sbin:/bin'', ''FOO=bar'',
                    ''RIB_EXEC_ENV=1'']\<rparr>,
         sys_empty\<lparr>cmdPersistEnv := [(''FOO'', ''bar'')]\<rparr>)"
    by (simp add: SetEnv_chroot request_chroot_def CmdEnv_zero_def flag_consts
        volatile_chroot_def extern_ok_def sys_empty_def render_def path_eval pathnames)
  from SetEnv_environment [OF ord run] ord run rel show ?thesis by simp
qed

subsection \<open>A run, step by step\<close>

lemma request_build_eq:
  "request_build =
     \<lparr>Path = ''/w/build.d/10-C-x'', Args = Some [''/w/build.d/10-C-x''], Env = [], flag = 14,
      workDir = ''/w'', chrootDir = [], fakerootSaveFile = [], vTmpDir = [], vExecDir = [],
      childDataHandler = Some handleChildData\<rparr>"
  by (simp add: request_build_def request_def CmdEnv_zero_def flag_group_def regex_eval
      flag_letter_def flag_consts path_eval)

lemma MakeVolatileDirs_example:
  "MakeVolatileDirs extern_ok
     (request_build\<lparr>chrootDir := Join [workDir request_build, PATHNAME_ROOTFS],
                    fakerootSaveFile := Join [workDir request_build, PATHNAME_FAKEROOTSAVE]\<rparr>)
     sys_empty
   = (None, request_build_dirs, sys_dirs)"
  by (simp add: MakeVolatileDirs_def TempDir_def request_build_eq request_build_dirs_def
      sys_dirs_def sys_empty_def extern_ok_def flag_consts path_eval pathnames)

lemma RunCmd_setup_example:
  "RunCmd_setup extern_ok request_build_dirs sys_dirs = (Returns None, request_build_env, sys_copied)"
  by (simp add: RunCmd_setup_def RunCmd_copy_def CopyFile_def and_then_def SetEnv_chroot
      volatile_chroot_def render_def logf_def
      request_build_eq request_build_dirs_def request_build_env_def sys_copied_def
      sys_dirs_def extern_ok_def flag_consts path_eval pathnames)

lemma MakeArgs_example:
  "MakeArgs extern_ok request_build_env = (Returns None, request_build_args)"
  by (simp add: MakeArgs_def MakeArgs_chroot_def MakeArgs_fakeroot_def MakeArgs_fakechroot_def
      args_list_def request_build_eq request_build_dirs_def request_build_env_def
      request_build_args_def extern_ok_def flag_consts)

lemma readPipe_example:
  "readPipe (Some handleChildData) (pipeReads extern_ok) [] = Done ([(''FOO'', ''bar'')], None)"
proof -
  have "list_all within_limit (split_on NUL (concat (pipeReads extern_ok)))"
    by (simp add: extern_ok_def split_on.simps NUL_def UNIT_SEP_def within_limit_def
        MaxScanTokenSize_def)
  from Scan_all_within [OF this]
  have "Scan_all [] False (concat (pipeReads extern_ok)) (map length (pipeReads extern_ok))
      = ([''setenv'' @ [UNIT_SEP] @ ''FOO'' @ [UNIT_SEP] @ ''bar''], None)"
    by (simp add: extern_ok_def split_nul_spec_def split_on.simps NUL_def UNIT_SEP_def)
  moreover have "readPipe_record (Some handleChildData)
      (''setenv'' @ UNIT_SEP # ''FOO'' @ UNIT_SEP # ''bar'') [] = Done [(''FOO'', ''bar'')]"
    by (subst readPipe_record_wellformed) (simp_all add: UNIT_SEP_def handleChildData_def)
  ultimately show ?thesis by (simp add: readPipe_def)
qed

lemma RunCmd_spawn_example:
  "RunCmd_spawn extern_ok request_build_args sys_copied = (Returns None, request_build_args, sys_ran)"
proof -
  have h: "childDataHandler request_build_args = Some handleChildData"
    and f: "flag request_build_args = 14"
    and a: "args_list request_build_args \<noteq> []"
    by (simp_all add: request_build_args_def request_build_env_def request_build_dirs_def
        request_build_eq args_list_def)
  have p: "cmdPersistEnv (started request_build_args (logf Info ''Executing command: %s %s'' sys_copied)) = []"
    by (simp add: started_def logf_def sys_copied_def sys_dirs_def)
  have w: "RunCmd_wait extern_ok True request_build_args
             (started request_build_args (logf Info ''Executing command: %s %s'' sys_copied))
           = (Returns None, request_build_args, sys_ran)"
    unfolding RunCmd_wait_def h p readPipe_example
    by (simp add: RunCmd_exit_def extern_ok_def sys_ran_def started_def logf_def)
  show ?thesis
    unfolding RunCmd_spawn_def using a
    by (simp add: f w [symmetric] RunCmd_captured_def flag_consts extern_ok_def)
qed

lemma RunCmd_deferred_example:
  "RunCmd_deferred extern_ok request_build_dirs sys_dirs = (Returns None, request_build_args, sys_ran)"
  by (simp add: RunCmd_deferred_def RunCmd_setup_example MakeArgs_example RunCmd_spawn_example
      and_then_def)

lemma RemoveVolatileDirs_example: "RemoveVolatileDirs request_build_args sys_ran = sys_done"
  by (simp add: RemoveVolatileDirs_def os_RemoveAll_def sys_done_def sys_ran_def sys_copied_def
      sys_dirs_def request_build_args_def request_build_env_def request_build_dirs_def)

lemma RunCmd_example:
  "RunCmd extern_ok request_build sys_empty = (Returns None, request_build_args, sys_done)"
  by (simp add: RunCmd_def MakeVolatileDirs_example RunCmd_deferred_example
      RemoveVolatileDirs_example del: Product_Type.split_paired_All)

subsection \<open>The directories \<^verbatim>\<open>RunCmd\<close> sets\<close>

lemma clean_step_nonempty:
  "\<forall>e \<in> set out. e \<noteq> [] \<Longrightarrow> \<forall>e \<in> set (clean_step r out elem). e \<noteq> []"
  by (auto simp: clean_step_def split: list.splits)

lemma foldl_clean_step_nonempty:
  "\<forall>e \<in> set out. e \<noteq> [] \<Longrightarrow> \<forall>e \<in> set (foldl (clean_step r) out elems). e \<noteq> []"
proof (induction elems arbitrary: out)
  case Nil
  then show ?case by simp
next
  case (Cons a elems)
  show ?case
    unfolding foldl_Cons
    by (rule Cons.IH) (rule clean_step_nonempty, rule Cons.prems)
qed

lemma strings_Join_nonempty:
  assumes "xs \<noteq> []" and "hd xs \<noteq> []"
  shows "strings_Join xs sep \<noteq> []"
proof (cases xs)
  case Nil
  with assms show ?thesis by simp
next
  case (Cons a as)
  with assms show ?thesis by (cases as) auto
qed

lemma Clean_nonempty: "Clean path \<noteq> []"
proof -
  let ?out = "rev (foldl (clean_step (path \<noteq> [] \<and> hd path = CHR ''/'')) [] (split_on CHR ''/'' path))"
  have "\<forall>e \<in> set ?out. e \<noteq> []"
    using foldl_clean_step_nonempty [of "[]"] by simp
  then have "?out \<noteq> [] \<Longrightarrow> strings_Join ?out ''/'' \<noteq> []"
    by (intro strings_Join_nonempty) (auto simp: hd_in_set simp del: set_rev hd_rev)
  then show ?thesis by (auto simp: Clean_def Let_def)
qed

lemma Join_nonempty: "e \<noteq> [] \<Longrightarrow> Join [d, e] \<noteq> []"
  by (auto simp: Join_def Clean_nonempty split: list.splits)

lemma MakeArgs_stages:
  assumes "MakeArgs x ce = (Returns None, ce')"
  obtains ce1 ce2 where "MakeArgs_chroot x ce = (Returns None, ce1)"
    and "MakeArgs_fakeroot x ce1 = (Returns None, ce2)"
    and "MakeArgs_fakechroot x ce2 = (Returns None, ce')"
  using assms
  by (auto simp: MakeArgs_def split: prod.splits status.splits option.splits)

lemma MakeArgs_save_form:
  assumes "MakeArgs x ce = (Returns None, ce')" and "flag ce AND Efakeroot \<noteq> 0"
    and "fakerootSaveFile ce \<noteq> []"
  shows "\<exists>fr pre post. lookPath x ''fakeroot'' = Inr fr \<and>
           Args ce' = Some (pre @ [fr, ''-s'', fakerootSaveFile ce, ''-i'', fakerootSaveFile ce, ''--'']
                            @ post)"
proof -
  from assms(1) obtain ce1 ce2 where 1: "MakeArgs_chroot x ce = (Returns None, ce1)"
    and 2: "MakeArgs_fakeroot x ce1 = (Returns None, ce2)"
    and 3: "MakeArgs_fakechroot x ce2 = (Returns None, ce')"
    by (rule MakeArgs_stages)
  have "flag ce1 = flag ce" "fakerootSaveFile ce1 = fakerootSaveFile ce"
    by (subst MakeArgs_chroot_frame [OF 1], simp)+
  with 2 assms(2,3) obtain fr where fr: "lookPath x ''fakeroot'' = Inr fr"
    and a2: "Args ce2 = Some ([] @ [fr, ''-s'', fakerootSaveFile ce, ''-i'', fakerootSaveFile ce, ''--'']
                            @ args_list ce1)"
    by (auto simp: MakeArgs_fakeroot_def split: sum.splits)
  show ?thesis
  proof (cases "flag ce2 AND Efakechroot \<noteq> 0")
    case False
    with 3 have "ce' = ce2" by (simp add: MakeArgs_fakechroot_def)
    with fr a2 show ?thesis by blast
  next
    case True
    with 3 obtain fc where "Args ce' = Some ([fc, ''--environment'', ''debootstrap'', ''--'']
        @ args_list ce2)"
      by (auto simp: MakeArgs_fakechroot_def split: sum.splits)
    with a2 have "Args ce' = Some ([fc, ''--environment'', ''debootstrap'', ''--'']
        @ [fr, ''-s'', fakerootSaveFile ce, ''-i'', fakerootSaveFile ce, ''--''] @ args_list ce1)"
      by (simp add: args_list_def)
    with fr show ?thesis by blast
  qed
qed

lemma pathnames_nonempty: "PATHNAME_ROOTFS \<noteq> []" "PATHNAME_FAKEROOTSAVE \<noteq> []"
  by (simp_all add: pathnames)

lemma MakeArgs_chroot_pruned_eq:
  "chrootDir ce \<noteq> [] \<Longrightarrow> MakeArgs_chroot_pruned x ce = MakeArgs_chroot x ce"
  by (simp add: MakeArgs_chroot_pruned_def MakeArgs_chroot_def)

lemma MakeArgs_fakeroot_pruned_eq:
  "fakerootSaveFile ce \<noteq> [] \<Longrightarrow> MakeArgs_fakeroot_pruned x ce = MakeArgs_fakeroot x ce"
  by (auto simp: MakeArgs_fakeroot_pruned_def MakeArgs_fakeroot_def split: sum.splits)

lemma MakeArgs_pruned_eq:
  assumes "chrootDir ce \<noteq> []" and "fakerootSaveFile ce \<noteq> []"
  shows "MakeArgs_pruned x ce = MakeArgs x ce"
proof -
  obtain st1 ce1 where 1: "MakeArgs_chroot x ce = (st1, ce1)" by fastforce
  have "fakerootSaveFile ce1 = fakerootSaveFile ce"
    by (subst MakeArgs_chroot_frame [OF 1]) simp
  then have "MakeArgs_fakeroot_pruned x ce1 = MakeArgs_fakeroot x ce1"
    using assms(2) by (simp add: MakeArgs_fakeroot_pruned_eq)
  then show ?thesis
    by (simp add: MakeArgs_pruned_def MakeArgs_def MakeArgs_chroot_pruned_eq [OF assms(1)] 1
        split: status.splits option.splits)
qed

lemma and_then_go: "and_then (Returns None, ce, s) f = f ce s"
  by (simp add: and_then_def)

lemma and_then_stop: "st \<noteq> Returns None \<Longrightarrow> and_then (st, ce, s) f = (st, ce, s)"
  by (auto simp: and_then_def split: status.splits option.splits)

lemma RunCmd_deferred_pruned_eq:
  assumes "chrootDir ce \<noteq> []" and "fakerootSaveFile ce \<noteq> []"
  shows "RunCmd_deferred_pruned x ce s = RunCmd_deferred x ce s"
proof -
  obtain st ce3 s3 where su: "RunCmd_setup x ce s = (st, ce3, s3)"
    by (cases "RunCmd_setup x ce s")
  have "same_config ce ce3" using su by (rule RunCmd_setup_same_config)
  then have eq: "MakeArgs_pruned x ce3 = MakeArgs x ce3"
    using assms by (simp add: same_config_def MakeArgs_pruned_eq)
  show ?thesis
  proof (cases "st = Returns None")
    case True
    then show ?thesis
      by (simp add: RunCmd_deferred_pruned_def RunCmd_deferred_def su and_then_go eq)
  next
    case False
    then show ?thesis
      by (simp add: RunCmd_deferred_pruned_def RunCmd_deferred_def su and_then_stop)
  qed
qed

lemma RunCmd_pruned_eq: "RunCmd_pruned x ce s = RunCmd x ce s"
proof -
  let ?ce1 = "ce\<lparr>chrootDir := Join [workDir ce, PATHNAME_ROOTFS],
                  fakerootSaveFile := Join [workDir ce, PATHNAME_FAKEROOTSAVE]\<rparr>"
  obtain r ce2 s2 where mv: "MakeVolatileDirs x ?ce1 s = (r, ce2, s2)"
    by (cases "MakeVolatileDirs x ?ce1 s")
  have "chrootDir ce2 = Join [workDir ce, PATHNAME_ROOTFS]
      \<and> fakerootSaveFile ce2 = Join [workDir ce, PATHNAME_FAKEROOTSAVE]"
    by (subst (1 2) MakeVolatileDirs_frame [OF mv]) simp
  then have "chrootDir ce2 \<noteq> []" and "fakerootSaveFile ce2 \<noteq> []"
    by (simp_all add: Join_nonempty pathnames_nonempty)
  then have "RunCmd_deferred_pruned x ce2 s2 = RunCmd_deferred x ce2 s2"
    by (rule RunCmd_deferred_pruned_eq)
  then show ?thesis
    by (simp add: RunCmd_pruned_def RunCmd_def mv split: option.splits)
qed

text \<open>Where the errors come from.\<close>

lemma MakeVolatileDirs_error:
  "MakeVolatileDirs x ce s = (Some e, ce', s') \<Longrightarrow>
   tempDirSuffix x = Inl e \<or> execDirSuffix x = Inl e"
  by (auto simp: MakeVolatileDirs_def TempDir_def Let_def split: if_splits sum.splits prod.splits)

lemma RunCmd_setup_error:
  "RunCmd_setup x ce s = (Returns (Some e), ce', s') \<Longrightarrow>
   copyFile x = Some e \<or> Rel (Join [workDir ce, PATHNAME_ROOTFS]) (vTmpDir ce) = Inl e"
  by (auto simp: RunCmd_setup_def RunCmd_copy_def CopyFile_def SetEnv_def and_then_def Let_def
      split: if_splits sum.splits prod.splits option.splits)

lemma MakeArgs_error:
  assumes "MakeArgs x ce = (Returns (Some e), ce')" and "chrootDir ce \<noteq> []"
  shows "lookPath x ''chroot'' = Inl e \<or> lookPath x ''fakeroot'' = Inl e
         \<or> lookPath x ''fakechroot'' = Inl e"
  using assms
  by (auto simp: MakeArgs_def MakeArgs_chroot_def MakeArgs_fakeroot_def MakeArgs_fakechroot_def
      Let_def split: if_splits sum.splits option.splits prod.splits status.splits)

lemma RunCmd_exit_error:
  "RunCmd_exit err ce s = (Returns (Some e), ce', s') \<Longrightarrow> err = Some e"
  by (auto simp: RunCmd_exit_def split: if_splits)

lemma RunCmd_wait_error:
  "RunCmd_wait x closed ce s = (Returns (Some e), ce', s') \<Longrightarrow> wait x = Some e"
  by (auto simp: RunCmd_wait_def split: goroutine.splits prod.splits option.splits if_splits
      dest: RunCmd_exit_error)

lemma RunCmd_spawn_error:
  "RunCmd_spawn x ce s = (Returns (Some e), ce', s') \<Longrightarrow>
   osPipe x = Some e \<or> stdoutPipe x = Some e \<or> stderrPipe x = Some e \<or> start x = Some e
   \<or> closeWrite x = Some e \<or> wait x = Some e"
  by (auto simp: RunCmd_spawn_def RunCmd_interactive_def RunCmd_captured_def
      split: option.splits if_splits dest: RunCmd_wait_error)

lemma RunCmd_deferred_error:
  assumes "RunCmd_deferred x ce s = (Returns (Some e), ce', s')" and "chrootDir ce \<noteq> []"
  shows "copyFile x = Some e \<or> Rel (Join [workDir ce, PATHNAME_ROOTFS]) (vTmpDir ce) = Inl e
         \<or> lookPath x ''chroot'' = Inl e \<or> lookPath x ''fakeroot'' = Inl e
         \<or> lookPath x ''fakechroot'' = Inl e
         \<or> osPipe x = Some e \<or> stdoutPipe x = Some e \<or> stderrPipe x = Some e \<or> start x = Some e
         \<or> closeWrite x = Some e \<or> wait x = Some e"
  using assms(1) unfolding RunCmd_deferred_def
proof (cases rule: and_then_cases)
  case 1
  from RunCmd_setup_error [OF 1(1)] show ?thesis by blast
next
  case (2 ce1 s1)
  have c: "chrootDir ce1 \<noteq> []"
    using RunCmd_setup_same_config [OF 2(1)] assms(2) by (simp add: same_config_def)
  obtain st2 ce2 where ma: "MakeArgs x ce1 = (st2, ce2)" by (cases "MakeArgs x ce1")
  from 2(2) show ?thesis
  proof (cases rule: and_then_cases)
    case 1
    with ma have "MakeArgs x ce1 = (Returns (Some e), ce')" by simp
    from MakeArgs_error [OF this c] show ?thesis by blast
  next
    case (2 ce3 s3)
    from RunCmd_spawn_error [OF 2(2)] show ?thesis by blast
  qed
qed

lemma RunCmd_error:
  assumes "RunCmd x ce s = (Returns (Some e), ce', s')"
  shows "tempDirSuffix x = Inl e \<or> execDirSuffix x = Inl e \<or> copyFile x = Some e
         \<or> Rel (Join [workDir ce, PATHNAME_ROOTFS]) (vTmpDir ce') = Inl e
         \<or> lookPath x ''chroot'' = Inl e \<or> lookPath x ''fakeroot'' = Inl e
         \<or> lookPath x ''fakechroot'' = Inl e
         \<or> osPipe x = Some e \<or> stdoutPipe x = Some e \<or> stderrPipe x = Some e \<or> start x = Some e
         \<or> closeWrite x = Some e \<or> wait x = Some e"
proof -
  let ?ce1 = "ce\<lparr>chrootDir := Join [workDir ce, PATHNAME_ROOTFS],
                  fakerootSaveFile := Join [workDir ce, PATHNAME_FAKEROOTSAVE]\<rparr>"
  obtain r ce2 s2 where mv: "MakeVolatileDirs x ?ce1 s = (r, ce2, s2)"
    by (cases "MakeVolatileDirs x ?ce1 s")
  show ?thesis
  proof (cases r)
    case (Some e2)
    with assms mv have "e2 = e" by (simp add: RunCmd_def)
    with Some mv MakeVolatileDirs_error [of x ?ce1 s e ce2 s2] show ?thesis by blast
  next
    case None
    obtain st3 ce3 s3 where d: "RunCmd_deferred x ce2 s2 = (st3, ce3, s3)"
      by (cases "RunCmd_deferred x ce2 s2")
    from assms mv None d have st3: "st3 = Returns (Some e)" and ce': "ce' = ce3"
      by (auto simp: RunCmd_def split: status.splits)
    have f2: "chrootDir ce2 = Join [workDir ce, PATHNAME_ROOTFS] \<and> workDir ce2 = workDir ce"
      by (subst (1 2) MakeVolatileDirs_frame [OF mv]) simp
    then have c2: "chrootDir ce2 \<noteq> []" by (simp add: Join_nonempty pathnames_nonempty)
    have v: "vTmpDir ce' = vTmpDir ce2"
      using RunCmd_deferred_same_config [OF d] ce' by (simp add: same_config_def)
    from RunCmd_deferred_error [OF d [unfolded st3] c2] f2 v show ?thesis by auto
  qed
qed

text \<open>The processes a run starts.\<close>

lemma runs_refl: "runs s s []"
  by (simp add: runs_def)

lemma runs_trans: "runs a b xs \<Longrightarrow> runs b c ys \<Longrightarrow> runs a c (xs @ ys)"
  by (auto simp: runs_def)

lemma runs_new_starts: "runs s s' as \<Longrightarrow> new_starts s s' = as"
  by (auto simp: runs_def new_starts_def)

lemma MakeVolatileDirs_runs: "MakeVolatileDirs x ce s = (r, ce', s') \<Longrightarrow> runs s s' []"
  by (auto simp: MakeVolatileDirs_def TempDir_def logf_def Let_def runs_def
      split: if_splits sum.splits prod.splits)

lemma RunCmd_setup_runs: "RunCmd_setup x ce s = (st, ce', s') \<Longrightarrow> runs s s' []"
  by (auto simp: RunCmd_setup_def RunCmd_copy_def CopyFile_def SetEnv_def and_then_def
      runs_def logf_def Let_def split: if_splits sum.splits prod.splits option.splits)

lemma RunCmd_wait_runs: "RunCmd_wait x c ce s = (st, ce', s') \<Longrightarrow> runs s s' []"
  by (auto simp: RunCmd_wait_def RunCmd_exit_def runs_def logf_def
      split: goroutine.splits prod.splits option.splits if_splits)

lemma started_runs: "runs s (started ce s) [Args ce]"
  by (simp add: runs_def started_def)

lemma logf_runs: "runs s (logf l m s) []"
  by (simp add: runs_def logf_def)

lemma runs_logf_left: "runs (logf l m s) s' as \<Longrightarrow> runs s s' as"
  by (simp add: runs_def logf_def)

lemma runs_started: "runs (started ce s) s' [] \<Longrightarrow> runs s s' [Args ce]"
  by (auto simp: runs_def started_def)

lemma RunCmd_interactive_runs:
  "RunCmd_interactive x ce s = (st, ce', s') \<Longrightarrow> runs s s' [] \<or> runs s s' [Args ce]"
  by (auto simp: RunCmd_interactive_def logf_runs split: option.splits
      dest!: RunCmd_wait_runs intro: runs_started runs_started [OF logf_runs])

lemma RunCmd_captured_runs:
  "RunCmd_captured x ce s = (st, ce', s') \<Longrightarrow> runs s s' [] \<or> runs s s' [Args ce]"
  by (auto simp: RunCmd_captured_def logf_runs split: option.splits
      dest!: RunCmd_wait_runs runs_logf_left intro: runs_started runs_started [OF logf_runs])

lemma RunCmd_spawn_runs:
  "RunCmd_spawn x ce s = (st, ce', s') \<Longrightarrow> runs s s' [] \<or> runs s s' [Args ce]"
  by (auto simp: RunCmd_spawn_def logf_runs runs_refl split: option.splits if_splits
      dest!: RunCmd_interactive_runs RunCmd_captured_runs runs_logf_left)

lemma RemoveVolatileDirs_runs: "runs s (RemoveVolatileDirs ce s) []"
  by (simp add: RemoveVolatileDirs_def os_RemoveAll_def runs_def)

lemma RunCmd_deferred_runs:
  assumes "RunCmd_deferred x ce s = (st, ce', s')"
  shows "runs s s' []
         \<or> (\<exists>ce3 s3. RunCmd_setup x ce s = (Returns None, ce3, s3)
                     \<and> MakeArgs x ce3 = (Returns None, ce') \<and> runs s s' [Args ce'])"
  using assms unfolding RunCmd_deferred_def
proof (cases rule: and_then_cases)
  case 1
  from RunCmd_setup_runs [OF 1(1)] show ?thesis by simp
next
  case (2 ce1 s1)
  have a: "runs s s1 []" using 2(1) by (rule RunCmd_setup_runs)
  obtain st2 ce2 where ma: "MakeArgs x ce1 = (st2, ce2)" by (cases "MakeArgs x ce1")
  from 2(2) show ?thesis
  proof (cases rule: and_then_cases)
    case 1
    with ma a show ?thesis by simp
  next
    case (2 ce3 s3)
    with ma have e: "st2 = Returns None" "ce3 = ce2" "s3 = s1" by simp_all
    have ce': "ce' = ce2" using RunCmd_spawn_ce [OF 2(2)] e by simp
    from RunCmd_spawn_runs [OF 2(2)] e ce'
    have "runs s1 s' [] \<or> runs s1 s' [Args ce']" by simp
    then have "runs s s' [] \<or> runs s s' [Args ce']"
      using runs_trans [OF a, of s'] by auto
    with \<open>RunCmd_setup x ce s = (Returns None, ce1, s1)\<close> ma e ce' show ?thesis by auto
  qed
qed

lemma RunCmd_runs:
  assumes "RunCmd x ce s = (st, ce', s')"
  shows "runs s s' []
         \<or> (\<exists>ce2 s2 ce3 s3.
              MakeVolatileDirs x
                (ce\<lparr>chrootDir := Join [workDir ce, PATHNAME_ROOTFS],
                    fakerootSaveFile := Join [workDir ce, PATHNAME_FAKEROOTSAVE]\<rparr>) s
                = (None, ce2, s2)
              \<and> RunCmd_setup x ce2 s2 = (Returns None, ce3, s3)
              \<and> MakeArgs x ce3 = (Returns None, ce') \<and> runs s s' [Args ce'])"
proof -
  let ?ce1 = "ce\<lparr>chrootDir := Join [workDir ce, PATHNAME_ROOTFS],
                  fakerootSaveFile := Join [workDir ce, PATHNAME_FAKEROOTSAVE]\<rparr>"
  obtain r ce2 s2 where mv: "MakeVolatileDirs x ?ce1 s = (r, ce2, s2)"
    by (cases "MakeVolatileDirs x ?ce1 s")
  have a: "runs s s2 []" using mv by (rule MakeVolatileDirs_runs)
  show ?thesis
  proof (cases r)
    case (Some e)
    with assms mv a show ?thesis by (auto simp: RunCmd_def)
  next
    case None
    obtain st3 ce3 s3 where d: "RunCmd_deferred x ce2 s2 = (st3, ce3, s3)"
      by (cases "RunCmd_deferred x ce2 s2")
    from assms mv None d have ce': "ce' = ce3"
      and s': "s' = s3 \<or> s' = RemoveVolatileDirs ce3 s3"
      by (auto simp: RunCmd_def split: status.splits)
    have b: "runs s3 s' []" using s' runs_refl RemoveVolatileDirs_runs by auto
    from RunCmd_deferred_runs [OF d]
    show ?thesis
    proof
      assume "runs s2 s3 []"
      from runs_trans [OF a this] have "runs s s3 []" by simp
      from runs_trans [OF this b] have "runs s s' []" by simp
      then show ?thesis ..
    next
      assume "\<exists>ce4 s4. RunCmd_setup x ce2 s2 = (Returns None, ce4, s4)
                     \<and> MakeArgs x ce4 = (Returns None, ce3) \<and> runs s2 s3 [Args ce3]"
      then obtain ce4 s4 where su: "RunCmd_setup x ce2 s2 = (Returns None, ce4, s4)"
        and ma: "MakeArgs x ce4 = (Returns None, ce3)" and r: "runs s2 s3 [Args ce3]" by blast
      from runs_trans [OF a r] have "runs s s3 [Args ce3]" by simp
      from runs_trans [OF this b] have "runs s s' [Args ce']" using ce' by simp
      with mv None su ma ce' show ?thesis by blast
    qed
  qed
qed

lemma RunCmd_started_save_form:
  assumes r: "RunCmd x ce s = (st, ce', s')" and fl: "flag ce AND Efakeroot \<noteq> 0"
    and a: "a \<in> set (new_starts s s')"
  shows "\<exists>fr pre post. lookPath x ''fakeroot'' = Inr fr \<and>
           a = Some (pre @ [fr, ''-s'', Join [workDir ce, PATHNAME_FAKEROOTSAVE],
                            ''-i'', Join [workDir ce, PATHNAME_FAKEROOTSAVE], ''--''] @ post)"
proof -
  let ?ce1 = "ce\<lparr>chrootDir := Join [workDir ce, PATHNAME_ROOTFS],
                  fakerootSaveFile := Join [workDir ce, PATHNAME_FAKEROOTSAVE]\<rparr>"
  from RunCmd_runs [OF r] a obtain ce2 s2 ce3 s3 where
    mv: "MakeVolatileDirs x ?ce1 s = (None, ce2, s2)"
    and su: "RunCmd_setup x ce2 s2 = (Returns None, ce3, s3)"
    and ma: "MakeArgs x ce3 = (Returns None, ce')" and ru: "runs s s' [Args ce']"
    by (auto dest: runs_new_starts)
  from ru a have a': "a = Args ce'" by (simp add: runs_new_starts)
  have f2: "flag ce2 = flag ce
         \<and> fakerootSaveFile ce2 = Join [workDir ce, PATHNAME_FAKEROOTSAVE]"
    by (subst (1 2) MakeVolatileDirs_frame [OF mv]) simp
  with RunCmd_setup_same_config [OF su]
  have f3: "flag ce3 = flag ce" "fakerootSaveFile ce3 = Join [workDir ce, PATHNAME_FAKEROOTSAVE]"
    by (simp_all add: same_config_def)
  have "fakerootSaveFile ce3 \<noteq> []" by (simp add: f3 Join_nonempty pathnames_nonempty)
  from MakeArgs_save_form [OF ma _ this] fl f3 a' show ?thesis by simp
qed

text \<open>
  C10. \<^const>\<open>RunCmd\<close> does the same whatever chroot root and save file the caller
  put in the command environment, and leaves both fields set to the paths under the
  work directory, which are not empty. Under \<^const>\<open>RunCmd\<close> the two branches of
  \<^const>\<open>MakeArgs\<close> are dead: \<^const>\<open>RunCmd\<close> is equal to \<^const>\<open>RunCmd_pruned\<close>,
  where \<^const>\<open>MakeArgs\<close> has neither the test of the chroot root nor the fakeroot
  arguments without a save file. What a caller can see of it: an error that
  \<^const>\<open>RunCmd\<close> returns is one that a call to the operating system or
  \<^verbatim>\<open>filepath.Rel\<close> reported, and every process that \<^const>\<open>RunCmd\<close> starts for a
  request with fakeroot set has the save file (\<open>-s\<close>, \<open>-i\<close>) in its argument vector.
\<close>

theorem RunCmd_sets_dirs:
  "RunCmd x (ce\<lparr>chrootDir := c, fakerootSaveFile := f\<rparr>) s = RunCmd x ce s
   \<and> (RunCmd x ce s = (st, ce', s') \<longrightarrow>
        chrootDir ce' = Join [workDir ce, PATHNAME_ROOTFS] \<and> chrootDir ce' \<noteq> []
        \<and> fakerootSaveFile ce' = Join [workDir ce, PATHNAME_FAKEROOTSAVE]
        \<and> fakerootSaveFile ce' \<noteq> [])
   \<and> RunCmd x ce s = RunCmd_pruned x ce s
   \<and> (RunCmd x ce s = (Returns (Some e), ce', s') \<longrightarrow>
        tempDirSuffix x = Inl e \<or> execDirSuffix x = Inl e \<or> copyFile x = Some e
        \<or> Rel (Join [workDir ce, PATHNAME_ROOTFS]) (vTmpDir ce') = Inl e
        \<or> lookPath x ''chroot'' = Inl e \<or> lookPath x ''fakeroot'' = Inl e
        \<or> lookPath x ''fakechroot'' = Inl e
        \<or> osPipe x = Some e \<or> stdoutPipe x = Some e \<or> stderrPipe x = Some e
        \<or> start x = Some e \<or> closeWrite x = Some e \<or> wait x = Some e)
   \<and> (RunCmd x ce s = (st, ce', s') \<and> flag ce AND Efakeroot \<noteq> 0
       \<and> a \<in> set (new_starts s s') \<longrightarrow>
        (\<exists>fr pre post. lookPath x ''fakeroot'' = Inr fr \<and>
           a = Some (pre @ [fr, ''-s'', Join [workDir ce, PATHNAME_FAKEROOTSAVE],
                            ''-i'', Join [workDir ce, PATHNAME_FAKEROOTSAVE], ''--''] @ post)))"
proof (intro conjI impI)
  show "RunCmd x (ce\<lparr>chrootDir := c, fakerootSaveFile := f\<rparr>) s = RunCmd x ce s"
    by (simp add: RunCmd_def)
next
  assume r: "RunCmd x ce s = (st, ce', s')"
  from RunCmd_fields [OF r]
  show "chrootDir ce' = Join [workDir ce, PATHNAME_ROOTFS]"
    and "fakerootSaveFile ce' = Join [workDir ce, PATHNAME_FAKEROOTSAVE]"
    and "chrootDir ce' \<noteq> []" and "fakerootSaveFile ce' \<noteq> []"
    by (simp_all add: Join_nonempty pathnames_nonempty)
next
  show "RunCmd x ce s = RunCmd_pruned x ce s" by (rule RunCmd_pruned_eq [symmetric])
next
  assume "RunCmd x ce s = (Returns (Some e), ce', s')"
  then show "tempDirSuffix x = Inl e \<or> execDirSuffix x = Inl e \<or> copyFile x = Some e
        \<or> Rel (Join [workDir ce, PATHNAME_ROOTFS]) (vTmpDir ce') = Inl e
        \<or> lookPath x ''chroot'' = Inl e \<or> lookPath x ''fakeroot'' = Inl e
        \<or> lookPath x ''fakechroot'' = Inl e
        \<or> osPipe x = Some e \<or> stdoutPipe x = Some e \<or> stderrPipe x = Some e
        \<or> start x = Some e \<or> closeWrite x = Some e \<or> wait x = Some e"
    by (rule RunCmd_error)
next
  assume "RunCmd x ce s = (st, ce', s') \<and> flag ce AND Efakeroot \<noteq> 0
       \<and> a \<in> set (new_starts s s')"
  then show "\<exists>fr pre post. lookPath x ''fakeroot'' = Inr fr \<and>
           a = Some (pre @ [fr, ''-s'', Join [workDir ce, PATHNAME_FAKEROOTSAVE],
                            ''-i'', Join [workDir ce, PATHNAME_FAKEROOTSAVE], ''--''] @ post)"
    using RunCmd_started_save_form [of x ce s st ce' s' a] by simp
qed

lemma new_starts_example: "new_starts sys_empty sys_done = [Args request_build_args]"
  by (simp add: new_starts_def sys_empty_def sys_done_def sys_ran_def sys_copied_def sys_dirs_def)

lemma RunCmd_no_exec_dir_example:
  "RunCmd extern_no_exec_dir request_build sys_empty
     = (Returns (Some (Error ''no space left on device'')),
        request_build\<lparr>chrootDir := ''/w/rootfs'', fakerootSaveFile := ''/w/fakeroot.save'',
                      vTmpDir := ''/w/rootfs/.volatile.111'', vExecDir := []\<rparr>,
        \<lparr>disk = [''/w/rootfs/.volatile.111''], cmdPersistEnv = [],
         logged = [(Err, ''ioutil.TempDir: %s'')],
         trace = [SysMkdirTemp ''/w/rootfs/.volatile.111'']\<rparr>)"
  by (simp add: RunCmd_def MakeVolatileDirs_def TempDir_def logf_def request_build_eq
      sys_empty_def extern_no_exec_dir_def extern_ok_def flag_consts path_eval pathnames)

theorem RunCmd_sets_dirs_witness:
  "RunCmd extern_ok (request_build\<lparr>chrootDir := ''/elsewhere'', fakerootSaveFile := []\<rparr>) sys_empty
     = (Returns None, request_build_args, sys_done)
   \<and> RunCmd extern_ok request_build sys_empty = (Returns None, request_build_args, sys_done)
   \<and> RunCmd_pruned extern_ok request_build sys_empty = (Returns None, request_build_args, sys_done)
   \<and> chrootDir request_build_args = ''/w/rootfs''
   \<and> fakerootSaveFile request_build_args = ''/w/fakeroot.save''
   \<and> flag request_build AND Efakeroot \<noteq> 0
   \<and> new_starts sys_empty sys_done
        = [Some [''/usr/bin/fakechroot'', ''--environment'', ''debootstrap'', ''--'',
                 ''/usr/bin/fakeroot'', ''-s'', ''/w/fakeroot.save'', ''-i'',
                 ''/w/fakeroot.save'', ''--'', ''/usr/bin/chroot'', ''/w/rootfs'',
                 ''/.exec.222/10-C-x'']]
   \<and> fst (RunCmd extern_no_exec_dir request_build sys_empty)
        = Returns (Some (Error ''no space left on device''))
   \<and> execDirSuffix extern_no_exec_dir = Inl (Error ''no space left on device'')"
proof -
  have fl: "flag request_build AND Efakeroot \<noteq> 0"
    by (simp add: request_build_eq flag_consts)
  have j: "Join [workDir request_build, PATHNAME_FAKEROOTSAVE] = ''/w/fakeroot.save''"
    "Join [workDir request_build, PATHNAME_ROOTFS] = ''/w/rootfs''"
    by (simp_all add: request_build_eq path_eval pathnames)
  have a: "Args request_build_args
        = Some [''/usr/bin/fakechroot'', ''--environment'', ''debootstrap'', ''--'',
                 ''/usr/bin/fakeroot'', ''-s'', ''/w/fakeroot.save'', ''-i'',
                 ''/w/fakeroot.save'', ''--'', ''/usr/bin/chroot'', ''/w/rootfs'',
                 ''/.exec.222/10-C-x'']"
    by (simp add: request_build_args_def)
  have x: "execDirSuffix extern_no_exec_dir = Inl (Error ''no space left on device'')"
    by (simp add: extern_no_exec_dir_def)
  note ok = RunCmd_sets_dirs [where x = extern_ok and ce = request_build and s = sys_empty
        and c = "''/elsewhere''" and f = "[]" and st = "Returns None"
        and ce' = request_build_args and s' = sys_done
        and a = "Args request_build_args"]
  note bad = RunCmd_sets_dirs [where x = extern_no_exec_dir and ce = request_build
        and s = sys_empty and e = "Error ''no space left on device''"
        and ce' = "fst (snd (RunCmd extern_no_exec_dir request_build sys_empty))"
        and s' = "snd (snd (RunCmd extern_no_exec_dir request_build sys_empty))"]
  have 1: "RunCmd extern_ok (request_build\<lparr>chrootDir := ''/elsewhere'', fakerootSaveFile := []\<rparr>)
             sys_empty = (Returns None, request_build_args, sys_done)"
    using ok RunCmd_example by simp
  have 2: "RunCmd_pruned extern_ok request_build sys_empty
             = (Returns None, request_build_args, sys_done)"
    using ok RunCmd_example by simp
  have 3: "chrootDir request_build_args = ''/w/rootfs''"
    "fakerootSaveFile request_build_args = ''/w/fakeroot.save''"
    using ok RunCmd_example by (simp_all add: j)
  have 4: "fst (RunCmd extern_no_exec_dir request_build sys_empty)
        = Returns (Some (Error ''no space left on device''))"
    using bad RunCmd_no_exec_dir_example by simp
  from 1 2 3 4 RunCmd_example fl x new_starts_example a show ?thesis by simp
qed

subsection \<open>The exit-code policy and the sequencer\<close>

lemma MakeVolatileDirs_store:
  "MakeVolatileDirs x ce s = (r, ce', s') \<Longrightarrow> cmdPersistEnv s' = cmdPersistEnv s"
  by (auto simp: MakeVolatileDirs_def TempDir_def logf_def Let_def
      split: if_splits sum.splits prod.splits)

lemma RunCmd_setup_store:
  "RunCmd_setup x ce s = (st, ce', s') \<Longrightarrow> cmdPersistEnv s' = cmdPersistEnv s"
  by (auto simp: RunCmd_setup_def RunCmd_copy_def CopyFile_def SetEnv_def and_then_def logf_def
      Let_def split: if_splits sum.splits prod.splits option.splits)

lemma RunCmd_setup_args:
  assumes "RunCmd_setup x ce s = (st, ce', s')"
  shows "Args ce' = Args ce"
  using assms unfolding RunCmd_setup_def
proof (cases rule: and_then_cases)
  case 1
  show ?thesis by (subst RunCmd_copy_frame [OF 1(1)]) simp
next
  case (2 ce1 s1)
  obtain r ce2 s2 where se: "SetEnv x ce1 s1 = (r, ce2, s2)" by (cases "SetEnv x ce1 s1")
  with 2 have ce': "ce' = ce2" by simp
  have "Args ce1 = Args ce" by (subst RunCmd_copy_frame [OF 2(1)]) simp
  moreover have "Args ce2 = Args ce1" by (subst SetEnv_frame [OF se]) simp
  ultimately show ?thesis using ce' by simp
qed

lemma MakeArgs_args_nonempty:
  assumes "MakeArgs x ce = (Returns None, ce')" and "args_list ce \<noteq> []"
  shows "args_list ce' \<noteq> []"
proof -
  from assms(1) obtain ce1 ce2 where 1: "MakeArgs_chroot x ce = (Returns None, ce1)"
    and 2: "MakeArgs_fakeroot x ce1 = (Returns None, ce2)"
    and 3: "MakeArgs_fakechroot x ce2 = (Returns None, ce')"
    by (rule MakeArgs_stages)
  from 1 assms(2) have "args_list ce1 \<noteq> []"
    by (auto simp: MakeArgs_chroot_def args_list_def Let_def split: if_splits sum.splits option.splits)
  with 2 have "args_list ce2 \<noteq> []"
    by (auto simp: MakeArgs_fakeroot_def args_list_def split: if_splits sum.splits)
  with 3 show ?thesis
    by (auto simp: MakeArgs_fakechroot_def args_list_def split: if_splits sum.splits)
qed

lemma RunCmd_spawn_policy:
  assumes "args_list ce \<noteq> []"
    and "osPipe x = None" and "stdoutPipe x = None" and "stderrPipe x = None"
    and "closeWrite x = None"
    and "readPipe (childDataHandler ce) (pipeReads x) (cmdPersistEnv s) = Done store"
  shows "\<exists>s'. RunCmd_spawn x ce s = (Returns (policy x ce), ce, s')
           \<and> (start x = None \<and> wait x \<noteq> None \<and> flag ce AND Eignoreexit \<noteq> 0 \<longrightarrow>
                last (logged s') = (Warning, ''Ignoring '%s' error: %s''))
           \<and> (start x \<noteq> None \<longrightarrow> trace s' = trace s)"
  using assms
  by (auto simp: RunCmd_spawn_def RunCmd_interactive_def RunCmd_captured_def RunCmd_wait_def
      RunCmd_exit_def policy_def started_def logf_def split: option.splits prod.splits)

lemma RemoveVolatileDirs_logged: "logged (RemoveVolatileDirs ce s) = logged s"
  by (simp add: RemoveVolatileDirs_def os_RemoveAll_def)

lemma policy_cong: "flag ce' = flag ce \<Longrightarrow> policy x ce' = policy x ce"
  by (simp add: policy_def)

lemma RunCmd_after_setup:
  assumes mv: "MakeVolatileDirs x
         (ce\<lparr>chrootDir := Join [workDir ce, PATHNAME_ROOTFS],
             fakerootSaveFile := Join [workDir ce, PATHNAME_FAKEROOTSAVE]\<rparr>) s = (None, ce2, s2)"
    and su: "RunCmd_setup x ce2 s2 = (Returns None, ce3, s3)"
    and ma: "MakeArgs x ce3 = (Returns None, ce4)"
    and args: "args_list ce \<noteq> []"
    and pipes: "osPipe x = None" "stdoutPipe x = None" "stderrPipe x = None" "closeWrite x = None"
    and rd: "readPipe (childDataHandler ce) (pipeReads x) (cmdPersistEnv s) = Done store"
  shows "\<exists>s'. RunCmd x ce s = (Returns (policy x ce), ce4, s')
           \<and> (start x = None \<and> wait x \<noteq> None \<and> flag ce AND Eignoreexit \<noteq> 0 \<longrightarrow>
                last (logged s') = (Warning, ''Ignoring '%s' error: %s''))"
proof -
  let ?ce1 = "ce\<lparr>chrootDir := Join [workDir ce, PATHNAME_ROOTFS],
             fakerootSaveFile := Join [workDir ce, PATHNAME_FAKEROOTSAVE]\<rparr>"
  have f2: "flag ce2 = flag ce \<and> childDataHandler ce2 = childDataHandler ce \<and> Args ce2 = Args ce"
    by (subst (1 2 3) MakeVolatileDirs_frame [OF mv]) simp
  have c3: "same_config ce2 ce3" using su by (rule RunCmd_setup_same_config)
  have c4: "same_config ce3 ce4" using ma by (rule MakeArgs_same_config)
  have fl: "flag ce4 = flag ce" and h: "childDataHandler ce4 = childDataHandler ce"
    using f2 c3 c4 by (simp_all add: same_config_def)
  have "args_list ce3 \<noteq> []"
    using args f2 RunCmd_setup_args [OF su] by (simp add: args_list_def)
  then have a4: "args_list ce4 \<noteq> []" using ma by (simp add: MakeArgs_args_nonempty)
  have st: "cmdPersistEnv s3 = cmdPersistEnv s"
    using MakeVolatileDirs_store [OF mv] RunCmd_setup_store [OF su] by simp
  from RunCmd_spawn_policy [OF a4 pipes, of s3 store] rd h st
  obtain s4 where sp: "RunCmd_spawn x ce4 s3 = (Returns (policy x ce4), ce4, s4)"
    and w: "start x = None \<and> wait x \<noteq> None \<and> flag ce4 AND Eignoreexit \<noteq> 0 \<longrightarrow>
                last (logged s4) = (Warning, ''Ignoring '%s' error: %s'')"
    by auto
  have "RunCmd_deferred x ce2 s2 = (Returns (policy x ce4), ce4, s4)"
    by (simp add: RunCmd_deferred_def su ma sp and_then_def)
  then have "RunCmd x ce s = (Returns (policy x ce), ce4, RemoveVolatileDirs ce4 s4)"
    by (simp add: RunCmd_def mv policy_cong [OF fl])
  with w fl show ?thesis by (simp add: RemoveVolatileDirs_logged)
qed

text \<open>Without chroot and wrappers the setup is the temp directory and the environment.\<close>

lemma MakeVolatileDirs_plain:
  assumes "flag ce AND Echroot = 0" and "tempDirSuffix x = Inr suffix"
  shows "MakeVolatileDirs x ce s =
           (None, ce\<lparr>vTmpDir := Join [Join [workDir ce, PATHNAME_TMP], ''.volatile.'' @ suffix]\<rparr>,
            s\<lparr>disk := Join [Join [workDir ce, PATHNAME_TMP], ''.volatile.'' @ suffix] # disk s,
              trace := trace s
                @ [SysMkdirTemp (Join [Join [workDir ce, PATHNAME_TMP], ''.volatile.'' @ suffix])]\<rparr>)"
  using assms by (simp add: MakeVolatileDirs_def TempDir_def Let_def)

lemma RunCmd_setup_plain:
  assumes "flag ce AND Echroot = 0"
  shows "RunCmd_setup x ce s =
           (Returns None,
            ce\<lparr>Env := Env ce @ map render (rangeOrder x (volatile_plain ce))
                       @ map render (rangeOrder x (cmdPersistEnv s)) @ [''RIB_EXEC_ENV=1'']\<rparr>,
            s)"
  using assms by (simp add: RunCmd_setup_def RunCmd_copy_def and_then_def SetEnv_plain)

lemma MakeArgs_plain:
  assumes "flag ce AND Echroot = 0" and "flag ce AND Efakeroot = 0" and "flag ce AND Efakechroot = 0"
  shows "MakeArgs x ce = (Returns None, ce)"
  using assms
  by (simp add: MakeArgs_def MakeArgs_chroot_def MakeArgs_fakeroot_def MakeArgs_fakechroot_def)

lemma triple_collapse: "fst p = a \<Longrightarrow> p = (a, fst (snd p), snd (snd p))"
  by (cases p) auto

lemma cmdBuild_loop_halts:
  assumes "RunCmd x (ce\<lparr>workDir := wd, childDataHandler := Some handleChildData\<rparr>) s
             = (Returns (Some e), ce', s')"
  shows "cmdBuild_loop wd ((ce, x) # rest) s = (Returns (Some e), logf Err ''Command failed: %s'' s')"
  using assms by simp

lemma cmdBuild_loop_proceeds:
  assumes "RunCmd x (ce\<lparr>workDir := wd, childDataHandler := Some handleChildData\<rparr>) s
             = (Returns None, ce', s')"
  shows "cmdBuild_loop wd ((ce, x) # rest) s = cmdBuild_loop wd rest s'"
  using assms by simp

text \<open>
  C6 (amended). In a run whose setup succeeds (volatile directories, copy, environment,
  arguments, pipes) and whose side channel is read to its end, \<^const>\<open>RunCmd\<close>
  returns an error exactly when the process fails to start, or the wait reports an error
  and ignore-exit is not set; with ignore-exit the error of the wait is logged as a
  warning and nil is returned, and a failure to start is still returned. When
  \<^const>\<open>RunCmd\<close> returns an error the loop of the sequencer ends with it and runs no
  later request; when it returns nil the loop goes on with the next one.
\<close>

theorem RunCmd_exit_policy:
  "(MakeVolatileDirs x
      (ce\<lparr>chrootDir := Join [workDir ce, PATHNAME_ROOTFS],
          fakerootSaveFile := Join [workDir ce, PATHNAME_FAKEROOTSAVE]\<rparr>) s = (None, ce2, s2)
    \<and> RunCmd_setup x ce2 s2 = (Returns None, ce3, s3)
    \<and> MakeArgs x ce3 = (Returns None, ce4)
    \<and> args_list ce \<noteq> []
    \<and> osPipe x = None \<and> stdoutPipe x = None \<and> stderrPipe x = None \<and> closeWrite x = None
    \<and> readPipe (childDataHandler ce) (pipeReads x) (cmdPersistEnv s) = Done store
    \<longrightarrow> fst (RunCmd x ce s) = Returns (policy x ce)
        \<and> (start x = None \<and> wait x \<noteq> None \<and> flag ce AND Eignoreexit \<noteq> 0 \<longrightarrow>
             last (logged (snd (snd (RunCmd x ce s)))) = (Warning, ''Ignoring '%s' error: %s'')))
   \<and> (RunCmd x (ce\<lparr>workDir := wd, childDataHandler := Some handleChildData\<rparr>) s
         = (Returns (Some e), ce', s')
      \<longrightarrow> cmdBuild_loop wd ((ce, x) # rest) s
            = (Returns (Some e), logf Err ''Command failed: %s'' s'))
   \<and> (RunCmd x (ce\<lparr>workDir := wd, childDataHandler := Some handleChildData\<rparr>) s
         = (Returns None, ce', s')
      \<longrightarrow> cmdBuild_loop wd ((ce, x) # rest) s = cmdBuild_loop wd rest s')"
proof (intro conjI impI)
  assume a: "MakeVolatileDirs x
      (ce\<lparr>chrootDir := Join [workDir ce, PATHNAME_ROOTFS],
          fakerootSaveFile := Join [workDir ce, PATHNAME_FAKEROOTSAVE]\<rparr>) s = (None, ce2, s2)
    \<and> RunCmd_setup x ce2 s2 = (Returns None, ce3, s3)
    \<and> MakeArgs x ce3 = (Returns None, ce4)
    \<and> args_list ce \<noteq> []
    \<and> osPipe x = None \<and> stdoutPipe x = None \<and> stderrPipe x = None \<and> closeWrite x = None
    \<and> readPipe (childDataHandler ce) (pipeReads x) (cmdPersistEnv s) = Done store"
  then obtain s' where r: "RunCmd x ce s = (Returns (policy x ce), ce4, s')"
    and w: "start x = None \<and> wait x \<noteq> None \<and> flag ce AND Eignoreexit \<noteq> 0 \<longrightarrow>
                last (logged s') = (Warning, ''Ignoring '%s' error: %s'')"
    using RunCmd_after_setup [of x ce s ce2 s2 ce3 s3 ce4 store] by blast
  show "fst (RunCmd x ce s) = Returns (policy x ce)" using r by simp
  show "last (logged (snd (snd (RunCmd x ce s)))) = (Warning, ''Ignoring '%s' error: %s'')"
    if "start x = None \<and> wait x \<noteq> None \<and> flag ce AND Eignoreexit \<noteq> 0"
    using r w that by simp
next
  assume "RunCmd x (ce\<lparr>workDir := wd, childDataHandler := Some handleChildData\<rparr>) s
         = (Returns (Some e), ce', s')"
  then show "cmdBuild_loop wd ((ce, x) # rest) s
            = (Returns (Some e), logf Err ''Command failed: %s'' s')"
    by (rule cmdBuild_loop_halts)
next
  assume "RunCmd x (ce\<lparr>workDir := wd, childDataHandler := Some handleChildData\<rparr>) s
         = (Returns None, ce', s')"
  then show "cmdBuild_loop wd ((ce, x) # rest) s = cmdBuild_loop wd rest s'"
    by (rule cmdBuild_loop_proceeds)
qed

text \<open>The run of \<open>20-E-y\<close> (ignore-exit, no chroot) reaches the start of the process.\<close>

lemma request_ignore_eq:
  "request_ignore =
     \<lparr>Path = ''/w/build.d/20-E-y'', Args = Some [''/w/build.d/20-E-y''], Env = [], flag = 32,
      workDir = ''/w'', chrootDir = [], fakerootSaveFile = [], vTmpDir = [], vExecDir = [],
      childDataHandler = Some handleChildData\<rparr>"
  by (simp add: request_ignore_def request_def CmdEnv_zero_def flag_group_def regex_eval
      flag_letter_def flag_consts path_eval)

lemma request_ignore_workDir:
  "(request ''/w/build.d'' ''20-E-y'')\<lparr>workDir := ''/w'', childDataHandler := Some handleChildData\<rparr>
     = request_ignore"
  by (simp add: request_ignore_def)

lemma request_ignore_reaches:
  assumes "tempDirSuffix x = Inr suffix"
  shows "\<exists>ce2 s2 ce3 s3 ce4.
           MakeVolatileDirs x
             (request_ignore\<lparr>chrootDir := Join [workDir request_ignore, PATHNAME_ROOTFS],
                fakerootSaveFile := Join [workDir request_ignore, PATHNAME_FAKEROOTSAVE]\<rparr>)
             sys_empty = (None, ce2, s2)
           \<and> RunCmd_setup x ce2 s2 = (Returns None, ce3, s3)
           \<and> MakeArgs x ce3 = (Returns None, ce4)"
proof -
  let ?ce1 = "request_ignore\<lparr>chrootDir := Join [workDir request_ignore, PATHNAME_ROOTFS],
          fakerootSaveFile := Join [workDir request_ignore, PATHNAME_FAKEROOTSAVE]\<rparr>"
  have fl: "flag request_ignore AND Echroot = 0" "flag request_ignore AND Efakeroot = 0"
    "flag request_ignore AND Efakechroot = 0"
    by (simp_all add: request_ignore_eq flag_consts)
  obtain ce2 s2 where mv: "MakeVolatileDirs x ?ce1 sys_empty = (None, ce2, s2)"
    and f2: "flag ce2 = flag request_ignore"
    using MakeVolatileDirs_plain [of ?ce1 x suffix sys_empty] fl assms(1) by simp
  obtain ce3 where su: "RunCmd_setup x ce2 s2 = (Returns None, ce3, s2)"
    and f3: "flag ce3 = flag request_ignore"
    using RunCmd_setup_plain [of ce2 x s2] fl f2 by simp
  have ma: "MakeArgs x ce3 = (Returns None, ce3)"
    using MakeArgs_plain [of ce3 x] fl f3 by simp
  from mv su ma show ?thesis by blast
qed

lemma request_ignore_facts:
  "args_list request_ignore \<noteq> []" "flag request_ignore AND Eignoreexit \<noteq> 0"
  "readPipe (childDataHandler request_ignore) (pipeReads extern_ok) (cmdPersistEnv sys_empty)
     = Done ([(''FOO'', ''bar'')], None)"
  using readPipe_example
  by (simp_all add: request_ignore_eq args_list_def flag_consts sys_empty_def)

text \<open>
  C6 as stated fails: with ignore-exit set, a failure to start the process is returned
  as an error; only the error of the wait is downgraded.
\<close>

theorem RunCmd_ignore_exit_start_counterexample:
  "flag request_ignore AND Eignoreexit \<noteq> 0
   \<and> start (extern_ok\<lparr>start := Some (Error ''exec format error'')\<rparr>)
       = Some (Error ''exec format error'')
   \<and> fst (RunCmd (extern_ok\<lparr>start := Some (Error ''exec format error'')\<rparr>) request_ignore sys_empty)
       = Returns (Some (Error ''exec format error''))"
proof -
  let ?x = "extern_ok\<lparr>start := Some (Error ''exec format error'')\<rparr>"
  have x: "tempDirSuffix ?x = Inr ''111''" "osPipe ?x = None" "stdoutPipe ?x = None"
    "stderrPipe ?x = None" "closeWrite ?x = None" "pipeReads ?x = pipeReads extern_ok"
    by (simp_all add: extern_ok_def)
  obtain ce2 s2 ce3 s3 ce4 where
    "MakeVolatileDirs ?x
       (request_ignore\<lparr>chrootDir := Join [workDir request_ignore, PATHNAME_ROOTFS],
          fakerootSaveFile := Join [workDir request_ignore, PATHNAME_FAKEROOTSAVE]\<rparr>)
       sys_empty = (None, ce2, s2)"
    "RunCmd_setup ?x ce2 s2 = (Returns None, ce3, s3)"
    "MakeArgs ?x ce3 = (Returns None, ce4)"
    using request_ignore_reaches [OF x(1)] by blast
  from RunCmd_after_setup [OF this request_ignore_facts(1) x(2-5)] request_ignore_facts(3) x(6)
  have "fst (RunCmd ?x request_ignore sys_empty) = Returns (policy ?x request_ignore)"
    by auto
  then show ?thesis using request_ignore_facts(2) by (simp add: policy_def)
qed

theorem RunCmd_exit_policy_witness:
  "fst (RunCmd (extern_ok\<lparr>wait := Some (Error ''exit status 1'')\<rparr>) request_ignore sys_empty)
     = Returns None
   \<and> last (logged (snd (snd (RunCmd (extern_ok\<lparr>wait := Some (Error ''exit status 1'')\<rparr>)
                                request_ignore sys_empty))))
     = (Warning, ''Ignoring '%s' error: %s'')
   \<and> cmdBuild_loop ''/w''
        [(request ''/w/build.d'' ''20-E-y'', extern_ok\<lparr>start := Some (Error ''exec format error'')\<rparr>),
         (request ''/w/build.d'' ''10-C-x'', extern_ok)] sys_empty
     = (Returns (Some (Error ''exec format error'')),
        logf Err ''Command failed: %s''
          (snd (snd (RunCmd (extern_ok\<lparr>start := Some (Error ''exec format error'')\<rparr>)
                       request_ignore sys_empty))))
   \<and> cmdBuild_loop ''/w''
        [(request ''/w/build.d'' ''20-E-y'', extern_ok\<lparr>wait := Some (Error ''exit status 1'')\<rparr>),
         (request ''/w/build.d'' ''10-C-x'', extern_ok)] sys_empty
     = cmdBuild_loop ''/w'' [(request ''/w/build.d'' ''10-C-x'', extern_ok)]
         (snd (snd (RunCmd (extern_ok\<lparr>wait := Some (Error ''exit status 1'')\<rparr>)
                      request_ignore sys_empty)))"
proof -
  let ?w = "extern_ok\<lparr>wait := Some (Error ''exit status 1'')\<rparr>"
  let ?n = "extern_ok\<lparr>start := Some (Error ''exec format error'')\<rparr>"
  let ?r = "request ''/w/build.d'' ''20-E-y''"
  have w: "tempDirSuffix ?w = Inr ''111''" "osPipe ?w = None" "stdoutPipe ?w = None"
    "stderrPipe ?w = None" "closeWrite ?w = None" "pipeReads ?w = pipeReads extern_ok"
    "start ?w = None" "wait ?w = Some (Error ''exit status 1'')"
    by (simp_all add: extern_ok_def)
  have n: "tempDirSuffix ?n = Inr ''111''" "osPipe ?n = None" "stdoutPipe ?n = None"
    "stderrPipe ?n = None" "closeWrite ?n = None" "pipeReads ?n = pipeReads extern_ok"
    "start ?n = Some (Error ''exec format error'')"
    by (simp_all add: extern_ok_def)
  obtain ce2 s2 ce3 s3 ce4 where setup_w:
    "MakeVolatileDirs ?w
       (request_ignore\<lparr>chrootDir := Join [workDir request_ignore, PATHNAME_ROOTFS],
          fakerootSaveFile := Join [workDir request_ignore, PATHNAME_FAKEROOTSAVE]\<rparr>)
       sys_empty = (None, ce2, s2)"
    "RunCmd_setup ?w ce2 s2 = (Returns None, ce3, s3)"
    "MakeArgs ?w ce3 = (Returns None, ce4)"
    using request_ignore_reaches [OF w(1)] by blast
  obtain ce2' s2' ce3' s3' ce4' where setup_n:
    "MakeVolatileDirs ?n
       (request_ignore\<lparr>chrootDir := Join [workDir request_ignore, PATHNAME_ROOTFS],
          fakerootSaveFile := Join [workDir request_ignore, PATHNAME_FAKEROOTSAVE]\<rparr>)
       sys_empty = (None, ce2', s2')"
    "RunCmd_setup ?n ce2' s2' = (Returns None, ce3', s3')"
    "MakeArgs ?n ce3' = (Returns None, ce4')"
    using request_ignore_reaches [OF n(1)] by blast
  have pw: "policy ?w request_ignore = None" and pn: "policy ?n request_ignore = Some (Error ''exec format error'')"
    using request_ignore_facts(2) by (simp_all add: policy_def extern_ok_def)
  note thm_w = RunCmd_exit_policy [where x = ?w and ce = request_ignore and s = sys_empty
      and ?ce2.0 = ce2 and ?s2.0 = s2 and ?ce3.0 = ce3 and ?s3.0 = s3 and ?ce4.0 = ce4
      and store = "([(''FOO'', ''bar'')], None)"]
  have 1: "fst (RunCmd ?w request_ignore sys_empty) = Returns None"
    and 2: "last (logged (snd (snd (RunCmd ?w request_ignore sys_empty))))
              = (Warning, ''Ignoring '%s' error: %s'')"
    using thm_w setup_w request_ignore_facts w pw by simp_all
  note thm_n = RunCmd_exit_policy [where x = ?n and ce = request_ignore and s = sys_empty
      and ?ce2.0 = ce2' and ?s2.0 = s2' and ?ce3.0 = ce3' and ?s3.0 = s3' and ?ce4.0 = ce4'
      and store = "([(''FOO'', ''bar'')], None)"]
  have 3: "fst (RunCmd ?n request_ignore sys_empty) = Returns (Some (Error ''exec format error''))"
    using thm_n setup_n request_ignore_facts n pn by simp
  have 4: "cmdBuild_loop ''/w'' [(?r, ?n), (request ''/w/build.d'' ''10-C-x'', extern_ok)] sys_empty
     = (Returns (Some (Error ''exec format error'')),
        logf Err ''Command failed: %s'' (snd (snd (RunCmd ?n request_ignore sys_empty))))"
    using RunCmd_exit_policy [where x = ?n and ce = ?r and wd = "''/w''" and s = sys_empty
        and e = "Error ''exec format error''"
        and ce' = "fst (snd (RunCmd ?n request_ignore sys_empty))"
        and s' = "snd (snd (RunCmd ?n request_ignore sys_empty))"
        and rest = "[(request ''/w/build.d'' ''10-C-x'', extern_ok)]"]
      triple_collapse [OF 3]
    unfolding request_ignore_workDir by blast
  have 5: "cmdBuild_loop ''/w'' [(?r, ?w), (request ''/w/build.d'' ''10-C-x'', extern_ok)] sys_empty
     = cmdBuild_loop ''/w'' [(request ''/w/build.d'' ''10-C-x'', extern_ok)]
         (snd (snd (RunCmd ?w request_ignore sys_empty)))"
    using RunCmd_exit_policy [where x = ?w and ce = ?r and wd = "''/w''" and s = sys_empty
        and ce' = "fst (snd (RunCmd ?w request_ignore sys_empty))"
        and s' = "snd (snd (RunCmd ?w request_ignore sys_empty))"
        and rest = "[(request ''/w/build.d'' ''10-C-x'', extern_ok)]"]
      triple_collapse [OF 1]
    unfolding request_ignore_workDir by blast
  from 1 2 4 5 show ?thesis by blast
qed

subsection \<open>Release of the volatile directories, and a malformed record\<close>

text \<open>
  C1, at the input where it fails. In chroot mode, when the temp directory is made and
  the exec-staging directory is not, \<^const>\<open>RunCmd\<close> returns the error before the call
  of \<^const>\<open>RemoveVolatileDirs\<close> is deferred: nothing is removed, and the temp
  directory is still on disk when the request has completed.
\<close>

theorem RunCmd_partial_allocation_leak:
  "RunCmd extern_no_exec_dir request_build sys_empty
     = (Returns (Some (Error ''no space left on device'')),
        request_build\<lparr>chrootDir := ''/w/rootfs'', fakerootSaveFile := ''/w/fakeroot.save'',
                      vTmpDir := ''/w/rootfs/.volatile.111'', vExecDir := []\<rparr>,
        \<lparr>disk = [''/w/rootfs/.volatile.111''], cmdPersistEnv = [],
         logged = [(Err, ''ioutil.TempDir: %s'')],
         trace = [SysMkdirTemp ''/w/rootfs/.volatile.111'']\<rparr>)"
  by (simp add: RunCmd_def MakeVolatileDirs_def TempDir_def logf_def request_build_eq
      sys_empty_def extern_no_exec_dir_def extern_ok_def flag_consts path_eval pathnames)

lemma short_record_fields:
  "lookPath extern_short_record = lookPath extern_ok"
  "tempDirSuffix extern_short_record = tempDirSuffix extern_ok"
  "execDirSuffix extern_short_record = execDirSuffix extern_ok"
  "copyFile extern_short_record = copyFile extern_ok"
  "rangeOrder extern_short_record = rangeOrder extern_ok"
  by (simp_all add: extern_short_record_def)

lemma short_record_stages:
  "MakeVolatileDirs extern_short_record ce s = MakeVolatileDirs extern_ok ce s"
  "RunCmd_setup extern_short_record ce s = RunCmd_setup extern_ok ce s"
  "MakeArgs extern_short_record ce = MakeArgs extern_ok ce"
  unfolding MakeVolatileDirs_def RunCmd_setup_def RunCmd_copy_def CopyFile_def SetEnv_def
    MakeArgs_def MakeArgs_chroot_def MakeArgs_fakeroot_def MakeArgs_fakechroot_def
    short_record_fields
  by (rule refl)+

lemma readPipe_short_record:
  "readPipe h (pipeReads extern_short_record) store = Panic ''index out of range''"
proof -
  have "list_all within_limit (split_on NUL (concat (pipeReads extern_short_record)))"
    by (simp add: extern_short_record_def split_on.simps NUL_def UNIT_SEP_def within_limit_def
        MaxScanTokenSize_def)
  from Scan_all_within [OF this]
  have "Scan_all [] False (concat (pipeReads extern_short_record))
          (map length (pipeReads extern_short_record))
      = ([''setenv'' @ [UNIT_SEP] @ ''FOO''], None)"
    by (simp add: extern_short_record_def split_nul_spec_def split_on.simps NUL_def UNIT_SEP_def)
  moreover have "readPipe_record h (''setenv'' @ [UNIT_SEP] @ ''FOO'') store
      = Panic ''index out of range''"
    by (rule readPipe_record_malformed) (simp add: UNIT_SEP_def)
  ultimately show ?thesis by (simp add: readPipe_def)
qed

text \<open>
  C2, at the input where it fails. A record with two fields makes \<^const>\<open>readPipe\<close>
  panic on \<^verbatim>\<open>r[2]\<close>: the process dies under \<^const>\<open>RunCmd\<close>, which returns nothing
  and removes nothing.
\<close>

theorem RunCmd_short_record_dies:
  "readPipe (Some handleChildData) [''setenv'' @ [UNIT_SEP] @ ''FOO'' @ [NUL]] []
     = Panic ''index out of range''
   \<and> fst (RunCmd extern_short_record request_build sys_empty) = Dies ''index out of range''
   \<and> disk (snd (snd (RunCmd extern_short_record request_build sys_empty)))
       = [''/w/rootfs/.exec.222'', ''/w/rootfs/.volatile.111'']"
proof -
  have 1: "readPipe (Some handleChildData) [''setenv'' @ [UNIT_SEP] @ ''FOO'' @ [NUL]] []
     = Panic ''index out of range''"
    using readPipe_short_record [of "Some handleChildData" "[]"]
    by (simp add: extern_short_record_def)
  have a: "args_list request_build_args \<noteq> []" and f: "flag request_build_args = 14"
    by (simp_all add: request_build_args_def request_build_env_def request_build_dirs_def
        request_build_eq args_list_def)
  have x: "osPipe extern_short_record = None" "stdoutPipe extern_short_record = None"
    "stderrPipe extern_short_record = None" "start extern_short_record = None"
    "closeWrite extern_short_record = None"
    by (simp_all add: extern_short_record_def extern_ok_def)
  have sp: "RunCmd_spawn extern_short_record request_build_args sys_copied
      = (Dies ''index out of range'', request_build_args,
         started request_build_args (logf Info ''Executing command: %s %s'' sys_copied))"
    using a by (simp add: RunCmd_spawn_def RunCmd_captured_def RunCmd_wait_def f x flag_consts
        readPipe_short_record)
  have d: "RunCmd_deferred extern_short_record request_build_dirs sys_dirs
      = (Dies ''index out of range'', request_build_args,
         started request_build_args (logf Info ''Executing command: %s %s'' sys_copied))"
    by (simp add: RunCmd_deferred_def short_record_stages RunCmd_setup_example MakeArgs_example
        and_then_def sp)
  have "RunCmd extern_short_record request_build sys_empty
      = (Dies ''index out of range'', request_build_args,
         started request_build_args (logf Info ''Executing command: %s %s'' sys_copied))"
    by (simp add: RunCmd_def short_record_stages MakeVolatileDirs_example d)
  with 1 show ?thesis
    by (simp add: started_def logf_def sys_copied_def sys_dirs_def)
qed

lemma no_release_refl [simp]: "no_release s s"
  by (simp add: no_release_def)

lemma no_release_trans: "no_release a b \<Longrightarrow> no_release b c \<Longrightarrow> no_release a c"
  by (auto simp: no_release_def)

lemma no_release_logf [simp]: "no_release s (logf l m s') \<longleftrightarrow> no_release s s'"
  by (simp add: no_release_def logf_def)

lemma no_release_store [simp]: "no_release s (s'\<lparr>cmdPersistEnv := e\<rparr>) \<longleftrightarrow> no_release s s'"
  by (simp add: no_release_def)

lemma no_release_logf_left [simp]: "no_release (logf l m s) s' \<longleftrightarrow> no_release s s'"
  by (simp add: no_release_def logf_def)

lemma no_release_store_left [simp]:
  "no_release (s\<lparr>cmdPersistEnv := e\<rparr>) s' \<longleftrightarrow> no_release s s'"
  by (simp add: no_release_def)

lemma no_release_started: "no_release s (started ce s)"
  by (simp add: no_release_def started_def)

lemma no_release_CopyFile: "CopyFile x dst src s = (r, s') \<Longrightarrow> no_release s s'"
  by (auto simp: no_release_def CopyFile_def)

lemma RunCmd_setup_no_release:
  "RunCmd_setup x ce s = (st, ce', s') \<Longrightarrow> no_release s s'"
  by (auto simp: RunCmd_setup_def RunCmd_copy_def CopyFile_def SetEnv_def and_then_def
      no_release_def logf_def Let_def split: if_splits sum.splits prod.splits option.splits)

lemma RunCmd_exit_no_release: "RunCmd_exit err ce s = (st, ce', s') \<Longrightarrow> no_release s s'"
  by (auto simp: RunCmd_exit_def split: if_splits)

lemma RunCmd_wait_no_release: "RunCmd_wait x c ce s = (st, ce', s') \<Longrightarrow> no_release s s'"
  by (auto simp: RunCmd_wait_def split: goroutine.splits prod.splits option.splits if_splits
      dest!: RunCmd_exit_no_release)

lemma RunCmd_interactive_no_release:
  "RunCmd_interactive x ce s = (st, ce', s') \<Longrightarrow> no_release s s'"
  by (auto simp: RunCmd_interactive_def no_release_started split: option.splits
      dest!: RunCmd_wait_no_release intro: no_release_trans [OF no_release_started])

lemma RunCmd_captured_no_release:
  "RunCmd_captured x ce s = (st, ce', s') \<Longrightarrow> no_release s s'"
  by (auto simp: RunCmd_captured_def no_release_started split: option.splits
      dest!: RunCmd_wait_no_release intro: no_release_trans [OF no_release_started])


lemma RunCmd_spawn_no_release:
  "RunCmd_spawn x ce s = (st, ce', s') \<Longrightarrow> no_release s s'"
  by (auto simp: RunCmd_spawn_def split: option.splits if_splits
      dest!: RunCmd_interactive_no_release RunCmd_captured_no_release)

lemma RunCmd_deferred_no_release:
  assumes "RunCmd_deferred x ce s = (st, ce', s')"
  shows "no_release s s'"
  using assms unfolding RunCmd_deferred_def
proof (cases rule: and_then_cases)
  case 1
  from 1(1) show ?thesis by (rule RunCmd_setup_no_release)
next
  case (2 ce1 s1)
  have a: "no_release s s1" using 2(1) by (rule RunCmd_setup_no_release)
  obtain st2 ce2 where ma: "MakeArgs x ce1 = (st2, ce2)" by (cases "MakeArgs x ce1")
  from 2(2) have "no_release s1 s'"
  proof (cases rule: and_then_cases)
    case 1
    with ma show ?thesis by simp
  next
    case (2 ce3 s3)
    with ma have "s3 = s1" by simp
    with 2(2) show ?thesis by (simp add: RunCmd_spawn_no_release)
  qed
  with a show ?thesis by (rule no_release_trans)
qed

lemma os_RemoveAll_removes: "path \<notin> set (disk (os_RemoveAll path s))"
  by (simp add: os_RemoveAll_def)

lemma os_RemoveAll_absent: "d \<notin> set (disk s) \<Longrightarrow> d \<notin> set (disk (os_RemoveAll path s))"
  by (simp add: os_RemoveAll_def)

lemma RemoveVolatileDirs_releases:
  assumes "vTmpDir ce \<noteq> []"
  shows "vTmpDir ce \<notin> set (disk (RemoveVolatileDirs ce s))"
    and "vExecDir ce \<noteq> [] \<longrightarrow> vExecDir ce \<notin> set (disk (RemoveVolatileDirs ce s))"
    and "trace (RemoveVolatileDirs ce s) =
           trace s @ SysRemoveAll (vTmpDir ce)
                     # (if vExecDir ce \<noteq> [] then [SysRemoveAll (vExecDir ce)] else [])"
  using assms
  by (simp_all add: RemoveVolatileDirs_def os_RemoveAll_removes os_RemoveAll_absent)
    (simp_all add: os_RemoveAll_def)

lemma MakeVolatileDirs_tmp_nonempty:
  "MakeVolatileDirs x ce s = (None, ce', s') \<Longrightarrow> vTmpDir ce' \<noteq> []"
  by (auto simp: MakeVolatileDirs_def TempDir_def Let_def Join_nonempty
      split: if_splits sum.splits prod.splits)

text \<open>
  When both directories are made, every way \<^const>\<open>RunCmd\<close> returns or panics removes
  them, with one call for each and no other removal.
\<close>

lemma RunCmd_releases_once:
  assumes mv: "MakeVolatileDirs x
         (ce\<lparr>chrootDir := Join [workDir ce, PATHNAME_ROOTFS],
             fakerootSaveFile := Join [workDir ce, PATHNAME_FAKEROOTSAVE]\<rparr>) s = (None, ce2, s2)"
    and r: "RunCmd x ce s = (st, ce', s')"
    and st: "st = Returns err \<or> st = Panics m"
  shows "vTmpDir ce2 \<notin> set (disk s')"
    and "vExecDir ce2 \<noteq> [] \<longrightarrow> vExecDir ce2 \<notin> set (disk s')"
    and "\<exists>tr. trace s' = trace s2 @ tr @ SysRemoveAll (vTmpDir ce2)
                  # (if vExecDir ce2 \<noteq> [] then [SysRemoveAll (vExecDir ce2)] else [])
            \<and> list_all (\<lambda>c. \<not> is_release c) tr"
proof -
  obtain st3 ce3 s3 where d: "RunCmd_deferred x ce2 s2 = (st3, ce3, s3)"
    by (cases "RunCmd_deferred x ce2 s2")
  from r mv d st have s': "s' = RemoveVolatileDirs ce3 s3"
    by (auto simp: RunCmd_def split: status.splits)
  have c: "vTmpDir ce3 = vTmpDir ce2" "vExecDir ce3 = vExecDir ce2"
    using RunCmd_deferred_same_config [OF d] by (simp_all add: same_config_def)
  have ne: "vTmpDir ce3 \<noteq> []" using MakeVolatileDirs_tmp_nonempty [OF mv] c by simp
  from RunCmd_deferred_no_release [OF d] obtain tr where
    tr: "trace s3 = trace s2 @ tr" "list_all (\<lambda>c. \<not> is_release c) tr"
    by (auto simp: no_release_def)
  show "vTmpDir ce2 \<notin> set (disk s')"
    using RemoveVolatileDirs_releases(1) [OF ne, of s3] c s' by simp
  show "vExecDir ce2 \<noteq> [] \<longrightarrow> vExecDir ce2 \<notin> set (disk s')"
    using RemoveVolatileDirs_releases(2) [OF ne, of s3] c s' by simp
  show "\<exists>tr. trace s' = trace s2 @ tr @ SysRemoveAll (vTmpDir ce2)
                  # (if vExecDir ce2 \<noteq> [] then [SysRemoveAll (vExecDir ce2)] else [])
            \<and> list_all (\<lambda>c. \<not> is_release c) tr"
    using RemoveVolatileDirs_releases(3) [OF ne, of s3] c s' tr by auto
qed

subsection \<open>Cleaned paths, and the temp directory inside the chroot\<close>

lemma split_on_append_plain:
  assumes "c \<notin> set name"
  shows "split_on c (p @ c # name) = split_on c p @ [name]"
proof -
  have "split_on c (last (split_on c p) @ c # name) = [last (split_on c p), name]"
    using split_on_first [OF last_split_on_no_sep, of c p name] assms
    by (simp add: split_on_no_sep)
  then show ?thesis
    using split_on_append [of c p "c # name"] split_on_nonempty [of c p] by simp
qed

lemma strings_Join_snoc:
  "strings_Join (xs @ [x]) sep = (if xs = [] then x else strings_Join xs sep @ sep @ x)"
  by (induction xs sep rule: strings_Join.induct) auto

lemma clean_step_plain: "plain name \<Longrightarrow> clean_step r out name = name # out"
  by (auto simp: clean_step_def plain_def)

lemma clean_stack_append_plain:
  assumes "plain name"
  shows "foldl (clean_step r) [] (split_on CHR ''/'' (p @ CHR ''/'' # name))
           = name # foldl (clean_step r) [] (split_on CHR ''/'' p)"
proof -
  have "CHR ''/'' \<notin> set name" using assms by (simp add: plain_def)
  then show ?thesis
    using split_on_append_plain [of "CHR ''/''" name p]
    by (simp add: clean_step_plain [OF assms])
qed

lemma Clean_stack:
  "Clean p =
     (if p \<noteq> [] \<and> hd p = CHR ''/'' then ''/'' @ strings_Join (rev (stack p)) ''/''
      else if stack p = [] then ''.''
      else strings_Join (rev (stack p)) ''/'')"
  by (simp add: Clean_def stack_def Let_def)

lemma normal_Nil [simp]: "normal r []"
  by (simp add: normal_def)

lemma normal_dots: "\<not> r \<Longrightarrow> normal r (replicate k ''..'')"
  unfolding normal_def by (intro conjI) (auto intro!: exI [of _ k] exI [of _ "[]"])

lemma clean_step_normal:
  assumes "normal r st" and "CHR ''/'' \<notin> set elem"
  shows "normal r (clean_step r st elem)"
proof -
  from assms(1) obtain k reals where st: "st = reals @ replicate k ''..''"
    and reals: "''..'' \<notin> set reals" and k: "r \<longrightarrow> k = 0"
    and el: "\<forall>e \<in> set st. e \<noteq> [] \<and> e \<noteq> ''.'' \<and> CHR ''/'' \<notin> set e"
    by (auto simp: normal_def)
  consider "elem = [] \<or> elem = ''.''" | "elem = ''..''" | "elem \<noteq> []" "elem \<noteq> ''.''" "elem \<noteq> ''..''"
    by blast
  then show ?thesis
  proof cases
    case 1
    with assms(1) show ?thesis by (auto simp: clean_step_def)
  next
    case 2
    show ?thesis
    proof (cases reals)
      case Nil
      with st have st': "st = replicate k ''..''" by simp
      show ?thesis
      proof (cases r)
        case True
        with k st' 2 show ?thesis by (simp add: clean_step_def)
      next
        case False
        from st' 2 False have "clean_step r st elem = replicate (Suc k) ''..''"
          by (cases k) (simp_all add: clean_step_def)
        then show ?thesis using normal_dots [OF False, of "Suc k"] by simp
      qed
    next
      case (Cons t ts)
      with reals have "t \<noteq> ''..''" by auto
      with st Cons 2 have cs: "clean_step r st elem = ts @ replicate k ''..''"
        by (simp add: clean_step_def)
      have "\<forall>e \<in> set (ts @ replicate k ''..''). e \<noteq> [] \<and> e \<noteq> ''.'' \<and> CHR ''/'' \<notin> set e"
        using el st Cons by auto
      moreover have "''..'' \<notin> set ts" using reals Cons by simp
      ultimately show ?thesis unfolding cs normal_def using k by blast
    qed
  next
    case 3
    then have cs: "clean_step r st elem = (elem # reals) @ replicate k ''..''"
      by (simp add: clean_step_def st)
    have "\<forall>e \<in> set ((elem # reals) @ replicate k ''..''). e \<noteq> [] \<and> e \<noteq> ''.'' \<and> CHR ''/'' \<notin> set e"
      using el st 3 assms(2) by auto
    moreover have "''..'' \<notin> set (elem # reals)" using reals 3 by simp
    ultimately show ?thesis unfolding cs normal_def using k by blast
  qed
qed


lemma split_on_components_no_sep: "\<forall>e \<in> set (split_on c s). c \<notin> set e"
proof (induction s)
  case Nil
  then show ?case by simp
next
  case (Cons x xs)
  then show ?case
    by (cases "split_on c xs") (auto simp: split_on_nonempty split_on_Cons)
qed

lemma foldl_clean_step_normal:
  assumes "normal r st" and "\<forall>e \<in> set elems. CHR ''/'' \<notin> set e"
  shows "normal r (foldl (clean_step r) st elems)"
  using assms
proof (induction elems arbitrary: st)
  case Nil
  then show ?case by simp
next
  case (Cons a elems)
  then show ?case by (simp add: clean_step_normal)
qed

lemma stack_normal: "normal (p \<noteq> [] \<and> hd p = CHR ''/'') (stack p)"
  unfolding stack_def
  by (rule foldl_clean_step_normal) (simp_all add: split_on_components_no_sep)

lemma replay_reals:
  assumes "\<forall>e \<in> set xs. e \<noteq> [] \<and> e \<noteq> ''.'' \<and> e \<noteq> ''..''"
  shows "foldl (clean_step r) acc xs = rev xs @ acc"
  using assms by (induction xs arbitrary: acc) (auto simp: clean_step_def)

lemma replay_dots: "foldl (clean_step False) (replicate j ''..'') (replicate k ''..'') = replicate (j + k) ''..''"
proof (induction k arbitrary: j)
  case 0
  then show ?case by simp
next
  case (Suc k)
  have "clean_step False (replicate j ''..'') ''..'' = replicate (Suc j) ''..''"
    by (cases j) (simp_all add: clean_step_def)
  with Suc [of "Suc j"] show ?case by simp
qed

lemma replay_normal:
  assumes "normal r st"
  shows "foldl (clean_step r) [] (rev st) = st"
proof -
  from assms obtain k reals where st: "st = reals @ replicate k ''..''"
    and reals: "''..'' \<notin> set reals" and k: "r \<longrightarrow> k = 0"
    and el: "\<forall>e \<in> set st. e \<noteq> [] \<and> e \<noteq> ''.'' \<and> CHR ''/'' \<notin> set e"
    by (auto simp: normal_def)
  have r: "\<forall>e \<in> set (rev reals). e \<noteq> [] \<and> e \<noteq> ''.'' \<and> e \<noteq> ''..''"
    using el reals st by auto
  have d: "foldl (clean_step r) [] (replicate k ''..'') = replicate k ''..''"
  proof (cases r)
    case True
    with k show ?thesis by simp
  next
    case False
    with replay_dots [of 0 k] show ?thesis by simp
  qed
  have "rev st = replicate k ''..'' @ rev reals" by (simp add: st)
  then show ?thesis by (simp add: d replay_reals [OF r] st)
qed

lemma split_on_strings_Join:
  assumes "out \<noteq> []" and "\<forall>e \<in> set out. c \<notin> set e"
  shows "split_on c (strings_Join out [c]) = out"
  using assms
proof (induction out "[c]" rule: strings_Join.induct)
  case 1
  then show ?case by simp
next
  case (2 x)
  then show ?case by (simp add: split_on_no_sep)
next
  case (3 x y ys)
  then show ?case by (simp add: split_on_first)
qed

lemma hd_strings_Join:
  assumes "out \<noteq> []" and "hd out \<noteq> []"
  shows "hd (strings_Join out sep) = hd (hd out)"
proof (cases out)
  case Nil
  with assms show ?thesis by simp
next
  case (Cons a as)
  with assms show ?thesis by (cases as) auto
qed

lemma normal_last:
  assumes "normal r st" and "st \<noteq> []"
  shows "last st \<noteq> []" and "CHR ''/'' \<notin> set (last st)"
  using assms by (auto simp: normal_def)

lemma stack_Clean: "stack (Clean p) = stack p"
  and rooted_Clean: "(Clean p \<noteq> [] \<and> hd (Clean p) = CHR ''/'') = (p \<noteq> [] \<and> hd p = CHR ''/'')"
proof -
  let ?r = "p \<noteq> [] \<and> hd p = CHR ''/''"
  have n: "normal ?r (stack p)" by (rule stack_normal)
  then have seps: "\<forall>e \<in> set (rev (stack p)). CHR ''/'' \<notin> set e"
    by (auto simp: normal_def)
  have replay: "foldl (clean_step ?r) [] (rev (stack p)) = stack p"
    using n by (rule replay_normal)
  show rooted: "(Clean p \<noteq> [] \<and> hd (Clean p) = CHR ''/'') = ?r"
  proof (cases ?r)
    case True
    then show ?thesis by (simp add: Clean_stack)
  next
    case False
    show ?thesis
    proof (cases "stack p = []")
      case True
      with False show ?thesis by (simp add: Clean_stack)
    next
      case ne: False
      have "hd (strings_Join (rev (stack p)) ''/'') = hd (last (stack p))"
        using ne normal_last(1) [OF n ne] by (simp add: hd_strings_Join hd_rev)
      moreover have "hd (last (stack p)) \<noteq> CHR ''/''"
        using normal_last [OF n ne] by (cases "last (stack p)") auto
      ultimately show ?thesis using False ne by (simp add: Clean_stack)
    qed
  qed
  show "stack (Clean p) = stack p"
  proof (cases "stack p = []")
    case True
    show ?thesis
      unfolding stack_def [of "Clean p"] rooted
      using True by (auto simp: Clean_stack split_on_Cons clean_step_def)
  next
    case False
    then have sp: "split_on CHR ''/'' (strings_Join (rev (stack p)) ''/'') = rev (stack p)"
      using split_on_strings_Join [of "rev (stack p)" "CHR ''/''"] seps by simp
    show ?thesis
      unfolding stack_def [of "Clean p"] rooted
      using False replay by (auto simp: Clean_stack split_on_Cons sp clean_step_def)
  qed
qed

lemma Clean_idem: "Clean (Clean p) = Clean p"
proof -
  have "Clean (Clean p) =
     (if Clean p \<noteq> [] \<and> hd (Clean p) = CHR ''/''
      then ''/'' @ strings_Join (rev (stack (Clean p))) ''/''
      else if stack (Clean p) = [] then ''.''
      else strings_Join (rev (stack (Clean p))) ''/'')"
    by (rule Clean_stack)
  also have "\<dots> =
     (if p \<noteq> [] \<and> hd p = CHR ''/'' then ''/'' @ strings_Join (rev (stack p)) ''/''
      else if stack p = [] then ''.''
      else strings_Join (rev (stack p)) ''/'')"
    unfolding rooted_Clean stack_Clean by (rule refl)
  also have "\<dots> = Clean p" by (rule Clean_stack [symmetric])
  finally show ?thesis .
qed

lemma stack_append_plain:
  assumes "plain name" and "p \<noteq> []"
  shows "stack (p @ CHR ''/'' # name) = name # stack p"
  using assms by (simp add: stack_def clean_stack_append_plain)

lemma Clean_append_plain:
  assumes "plain name" and "p \<noteq> []" and "stack p \<noteq> []"
  shows "Clean (p @ CHR ''/'' # name) = Clean p @ CHR ''/'' # name"
proof -
  have "Clean (p @ CHR ''/'' # name) =
     (if hd p = CHR ''/'' then ''/'' @ strings_Join (rev (stack p) @ [name]) ''/''
      else strings_Join (rev (stack p) @ [name]) ''/'')"
    using assms(2) by (simp add: Clean_stack [of "p @ CHR ''/'' # name"] stack_append_plain [OF assms(1,2)])
  also have "strings_Join (rev (stack p) @ [name]) ''/''
      = strings_Join (rev (stack p)) ''/'' @ CHR ''/'' # name"
    using assms(3) by (simp add: strings_Join_snoc)
  finally show ?thesis
    using assms(2,3) by (simp add: Clean_stack [of p])
qed

declare rel_loop.simps [simp del]

lemma takeWhile_component:
  "CHR ''/'' \<notin> set a \<Longrightarrow> takeWhile (\<lambda>c. c \<noteq> CHR ''/'') (a @ CHR ''/'' # rest) = a"
  "CHR ''/'' \<notin> set a \<Longrightarrow> takeWhile (\<lambda>c. c \<noteq> CHR ''/'') a = a"
  by (auto simp: takeWhile_tail takeWhile_eq_all_conv)

lemma rel_loop_Nil: "rel_loop [] t = ([], [], t)"
  by (subst rel_loop.simps) simp

lemma rel_loop_step:
  assumes "CHR ''/'' \<notin> set a"
  shows "rel_loop (a @ CHR ''/'' # b) (a @ CHR ''/'' # t) = rel_loop b t"
  by (subst rel_loop.simps) (simp add: takeWhile_component [OF assms] Let_def)

lemma rel_loop_last:
  assumes "CHR ''/'' \<notin> set b" and "b \<noteq> []"
  shows "rel_loop b (b @ CHR ''/'' # n) = ([], [], n)"
  using assms(2)
  by (subst rel_loop.simps) (simp add: takeWhile_component [OF assms(1)] Let_def rel_loop_Nil)

lemma rel_loop_child:
  assumes "b \<noteq> []" and "last b \<noteq> CHR ''/''"
  shows "rel_loop b (b @ CHR ''/'' # n) = ([], [], n)"
  using assms
proof (induction "length b" arbitrary: b rule: less_induct)
  case less
  show ?case
  proof (cases "CHR ''/'' \<in> set b")
    case False
    then show ?thesis using less.prems(1) by (simp add: rel_loop_last)
  next
    case True
    then obtain a b' where ab: "b = a @ CHR ''/'' # b'" "CHR ''/'' \<notin> set a"
      by (auto dest: split_list_first)
    have b': "b' \<noteq> []" "last b' \<noteq> CHR ''/''"
      using less.prems ab by (auto split: if_splits)
    have "length b' < length b" using ab by simp
    from less.hyps [OF this b'] have "rel_loop b' (b' @ CHR ''/'' # n) = ([], [], n)" .
    then have "rel_loop (a @ CHR ''/'' # b') (a @ CHR ''/'' # b' @ CHR ''/'' # n) = ([], [], n)"
      by (simp only: rel_loop_step [OF ab(2)])
    then show ?thesis by (simp add: ab(1))
  qed
qed

lemma Rel_child:
  assumes "Clean b = b" and "Clean (b @ CHR ''/'' # n) = b @ CHR ''/'' # n"
    and "b \<noteq> ''.''" and "b \<noteq> []" and "last b \<noteq> CHR ''/''"
  shows "Rel b (b @ CHR ''/'' # n) = Inr n"
  using assms by (simp add: Rel_def rel_loop_child Let_def)

lemma Clean_ends_with_top:
  assumes "stack p = name # st"
  shows "\<exists>front. Clean p = front @ name"
proof (cases "st = []")
  case True
  with assms show ?thesis by (auto simp: Clean_stack)
next
  case False
  with assms have "strings_Join (rev (stack p)) ''/''
      = (strings_Join (rev st) ''/'' @ ''/'') @ name"
    by (simp add: strings_Join_snoc)
  with assms show ?thesis by (auto simp: Clean_stack simp del: append_assoc)
qed

lemma Join_two:
  "e \<noteq> [] \<Longrightarrow> Join [dir, e] = Clean (if dir = [] then e else dir @ CHR ''/'' # e)"
  by (simp add: Join_def)

lemma stack_plain: "plain name \<Longrightarrow> stack name = [name]"
  by (cases name) (auto simp: stack_def plain_def split_on_no_sep clean_step_def)

lemma stack_Join:
  assumes "plain name"
  shows "\<exists>st. stack (Join [dir, name]) = name # st"
proof -
  have ne: "name \<noteq> []" using assms by (simp add: plain_def)
  show ?thesis
  proof (cases "dir = []")
    case True
    then show ?thesis by (simp add: Join_two [OF ne] stack_Clean stack_plain [OF assms])
  next
    case False
    then show ?thesis
      by (simp add: Join_two [OF ne] stack_Clean stack_append_plain [OF assms])
  qed
qed

text \<open>A directory made under a joined path lies one plain name below it.\<close>

lemma Join_child:
  assumes "plain d" and "plain name"
  shows "Join [Join [wd, d], name] = Join [wd, d] @ CHR ''/'' # name"
    and "Rel (Join [wd, d]) (Join [Join [wd, d], name]) = Inr name"
proof -
  let ?b = "Join [wd, d]"
  have d: "d \<noteq> []" "CHR ''/'' \<notin> set d" "d \<noteq> ''.''" using assms(1) by (simp_all add: plain_def)
  have n: "name \<noteq> []" using assms(2) by (simp add: plain_def)
  obtain st where st: "stack ?b = d # st" using stack_Join [OF assms(1)] by blast
  have cb: "Clean ?b = ?b" by (simp add: Join_two [OF d(1)] Clean_idem)
  obtain front where fr: "?b = front @ d"
    using Clean_ends_with_top [OF st] cb by auto
  have ne: "?b \<noteq> []" using fr d by simp
  have last: "last ?b \<noteq> CHR ''/''"
  proof -
    have "last ?b = last d" using fr d(1) by simp
    moreover have "last d \<in> set d" using d(1) by simp
    ultimately show ?thesis using d(2) by metis
  qed
  have dot: "?b \<noteq> ''.''"
  proof
    assume "?b = ''.''"
    with fr have "front @ d = ''.''" by simp
    with d(1,3) show False by (cases front) auto
  qed
  have ct: "Clean (?b @ CHR ''/'' # name) = ?b @ CHR ''/'' # name"
    using st cb Clean_append_plain [OF assms(2) ne] by simp
  have child: "Join [?b, name] = ?b @ CHR ''/'' # name"
    using ne ct by (simp add: Join_two [OF n])
  show "Join [?b, name] = ?b @ CHR ''/'' # name" by (rule child)
  show "Rel ?b (Join [?b, name]) = Inr name"
    unfolding child using cb ct dot ne last by (rule Rel_child)
qed

lemma Join_root_plain: "plain name \<Longrightarrow> Join [''/'', name] = CHR ''/'' # name"
proof -
  assume p: "plain name"
  then have n: "name \<noteq> []" by (simp add: plain_def)
  have "stack ''/'' = []" by (simp add: stack_def split_on.simps clean_step_def)
  then have "stack (''/'' @ CHR ''/'' # name) = [name]"
    using stack_append_plain [OF p, of "''/''"] by simp
  then show ?thesis by (simp add: Join_two [OF n] Clean_stack)
qed

lemma plain_rootfs: "plain PATHNAME_ROOTFS"
  by (simp add: plain_def PATHNAME_ROOTFS_def)

lemma plain_volatile: "CHR ''/'' \<notin> set suffix \<Longrightarrow> plain (''.volatile.'' @ suffix)"
  by (simp add: plain_def)

text \<open>
  In chroot mode, with the temp directory one plain name below the chroot root (as
  \<^const>\<open>MakeVolatileDirs\<close> makes it), \<^const>\<open>SetEnv\<close> returns nil and \<open>VTEMP\<close> is
  that name under \<open>/\<close>.
\<close>

lemma SetEnv_chroot_made:
  assumes "flag ce AND Echroot \<noteq> 0"
    and "vTmpDir ce = Join [Join [workDir ce, PATHNAME_ROOTFS], name]" and "plain name"
  shows "SetEnv x ce s =
           (None,
            ce\<lparr>Env := Env ce
                       @ map render (rangeOrder x
                           [(''PATH'', ''/usr/sbin:/usr/bin:/sbin:/bin''), (''VTEMP'', CHR ''/'' # name)])
                       @ map render (rangeOrder x (cmdPersistEnv s)) @ [''RIB_EXEC_ENV=1'']\<rparr>,
            s)"
  using Join_child(2) [OF plain_rootfs assms(3), of "workDir ce"]
  by (simp add: SetEnv_chroot [OF assms(1)] assms(2) volatile_chroot_def
      Join_root_plain [OF assms(3)])

lemma MakeVolatileDirs_chroot_made:
  assumes "flag ce AND Echroot \<noteq> 0" and "MakeVolatileDirs x ce s = (None, ce', s')"
  shows "\<exists>suffix. tempDirSuffix x = Inr suffix
           \<and> vTmpDir ce' = Join [Join [workDir ce, PATHNAME_ROOTFS], ''.volatile.'' @ suffix]"
  using assms
  by (auto simp: MakeVolatileDirs_def TempDir_def Let_def split: sum.splits prod.splits)

end
